theory Spec2Isabelle
  imports Complex_Main
begin

section \<open>JavaScript values used by the service\<close>

subsection \<open>Numbers\<close>

text \<open>
  A JavaScript Number is an IEEE-754 double. A finite double is represented by its exact
  rational value (\<open>Fin q\<close>); the two zeros are identified, which no operation of this
  program distinguishes. \<open>to_double\<close> rounds a rational to the nearest double, ties to
  the even mantissa, with gradual underflow and overflow to the infinities. All auxiliary
  arithmetic is on \<open>int\<close> and \<open>rat\<close>.
\<close>

datatype number = NaN | PosInf | NegInf | Fin rat

function ipow :: "rat \<Rightarrow> int \<Rightarrow> rat" where
  "ipow b e =
     (if e \<le> 0 then 1
      else if even e then ipow (b * b) (e div 2)
      else b * ipow (b * b) (e div 2))"
  by pat_completeness auto
termination
  by (relation "measure (\<lambda>(b, e). nat e)") auto

declare ipow.simps [simp del]

definition bpow :: "int \<Rightarrow> int \<Rightarrow> rat" where
  \<comment> \<open>\<open>b\<close> to the power \<open>e\<close>, for an exponent of either sign\<close>
  "bpow b e = (if 0 \<le> e then ipow (of_int b) e else 1 / ipow (of_int b) (- e))"

function ndigits :: "int \<Rightarrow> int \<Rightarrow> int" where
  \<comment> \<open>the number of radix-\<open>b\<close> digits of a positive integer\<close>
  "ndigits b n = (if n < b \<or> b < 2 then 1 else 1 + ndigits b (n div b))"
  by pat_completeness auto
termination
proof (relation "measure (\<lambda>(b, n). nat n)")
  show "wf (measure (\<lambda>(b, n). nat n))" by simp
next
  fix b n :: int
  assume "\<not> (n < b \<or> b < 2)"
  then have "2 \<le> b" "b \<le> n" by auto
  then have "n div b < n" by (simp add: int_div_less_self)
  moreover have "0 < n" using \<open>2 \<le> b\<close> \<open>b \<le> n\<close> by simp
  ultimately show "((b, n div b), (b, n)) \<in> measure (\<lambda>(b, n). nat n)" by simp
qed

declare ndigits.simps [simp del]

definition ilog_adjust :: "int \<Rightarrow> rat \<Rightarrow> int \<Rightarrow> int" where
  "ilog_adjust b q g = (if bpow b g \<le> q then g else g - 1)"

definition ilog :: "int \<Rightarrow> rat \<Rightarrow> int" where
  \<comment> \<open>for \<open>q > 0\<close>: the exponent \<open>e\<close> with \<open>b ^ e \<le> q < b ^ (e + 1)\<close>\<close>
  "ilog b q =
     ilog_adjust b q (ndigits b (fst (quotient_of q)) - ndigits b (snd (quotient_of q)))"

definition round_pick :: "rat \<Rightarrow> int \<Rightarrow> int" where
  "round_pick y f =
     (if y - of_int f < 1 / 2 then f
      else if 1 / 2 < y - of_int f then f + 1
      else if even f then f else f + 1)"

definition round_half_even :: "rat \<Rightarrow> int" where
  "round_half_even y = round_pick y \<lfloor>y\<rfloor>"

definition pack :: "rat \<Rightarrow> int \<Rightarrow> int \<Rightarrow> number" where
  \<comment> \<open>mantissa \<open>m\<close> at binary exponent \<open>e\<close>; \<open>2 ^ 53 = 9007199254740992\<close>\<close>
  "pack q e m =
     (if 1023 < e \<or> (e = 1023 \<and> 9007199254740992 \<le> m)
      then (if 0 < q then PosInf else NegInf)
      else Fin (sgn q * (of_int m * bpow 2 (e - 52))))"

definition round_at :: "rat \<Rightarrow> int \<Rightarrow> number" where
  "round_at q e = pack q e (round_half_even (\<bar>q\<bar> / bpow 2 (e - 52)))"

definition to_double :: "rat \<Rightarrow> number" where
  "to_double q = (if q = 0 then Fin 0 else round_at q (max (ilog 2 \<bar>q\<bar>) (- 1022)))"

fun isNaN :: "number \<Rightarrow> bool" where
  "isNaN NaN = True"
| "isNaN PosInf = False"
| "isNaN NegInf = False"
| "isNaN (Fin a) = False"

fun num_less :: "number \<Rightarrow> number \<Rightarrow> bool" where
  "num_less (Fin a) (Fin b) = (a < b)"
| "num_less (Fin a) PosInf = True"
| "num_less NegInf (Fin b) = True"
| "num_less NegInf PosInf = True"
| "num_less _ _ = False"

definition num_gt :: "number \<Rightarrow> number \<Rightarrow> bool" where
  "num_gt a b = num_less b a"

definition num_le :: "number \<Rightarrow> number \<Rightarrow> bool" where
  "num_le a b = (\<not> isNaN a \<and> \<not> isNaN b \<and> \<not> num_less b a)"

fun num_neg :: "number \<Rightarrow> number" where
  "num_neg NaN = NaN"
| "num_neg PosInf = NegInf"
| "num_neg NegInf = PosInf"
| "num_neg (Fin a) = Fin (- a)"

fun num_sub :: "number \<Rightarrow> number \<Rightarrow> number" where
  "num_sub (Fin a) (Fin b) = to_double (a - b)"
| "num_sub (Fin a) PosInf = NegInf"
| "num_sub (Fin a) NegInf = PosInf"
| "num_sub PosInf (Fin b) = PosInf"
| "num_sub PosInf NegInf = PosInf"
| "num_sub NegInf (Fin b) = NegInf"
| "num_sub NegInf PosInf = NegInf"
| "num_sub _ _ = NaN"

fun num_mul :: "number \<Rightarrow> number \<Rightarrow> number" where
  "num_mul (Fin a) (Fin b) = to_double (a * b)"
| "num_mul (Fin a) PosInf = (if a = 0 then NaN else if 0 < a then PosInf else NegInf)"
| "num_mul (Fin a) NegInf = (if a = 0 then NaN else if 0 < a then NegInf else PosInf)"
| "num_mul PosInf (Fin b) = (if b = 0 then NaN else if 0 < b then PosInf else NegInf)"
| "num_mul NegInf (Fin b) = (if b = 0 then NaN else if 0 < b then NegInf else PosInf)"
| "num_mul PosInf PosInf = PosInf"
| "num_mul NegInf NegInf = PosInf"
| "num_mul PosInf NegInf = NegInf"
| "num_mul NegInf PosInf = NegInf"
| "num_mul _ _ = NaN"

fun num_div :: "number \<Rightarrow> number \<Rightarrow> number" where
  "num_div (Fin a) (Fin b) =
     (if b = 0 then (if a = 0 then NaN else if 0 < a then PosInf else NegInf)
      else to_double (a / b))"
| "num_div (Fin a) PosInf = Fin 0"
| "num_div (Fin a) NegInf = Fin 0"
| "num_div PosInf (Fin b) = (if 0 \<le> b then PosInf else NegInf)"
| "num_div NegInf (Fin b) = (if 0 \<le> b then NegInf else PosInf)"
| "num_div _ _ = NaN"

fun Math_abs :: "number \<Rightarrow> number" where
  "Math_abs NaN = NaN"
| "Math_abs PosInf = PosInf"
| "Math_abs NegInf = PosInf"
| "Math_abs (Fin a) = Fin \<bar>a\<bar>"

fun Math_floor :: "number \<Rightarrow> number" where
  "Math_floor (Fin a) = Fin (of_int \<lfloor>a\<rfloor>)"
| "Math_floor NaN = NaN"
| "Math_floor PosInf = PosInf"
| "Math_floor NegInf = NegInf"
subsection \<open>Strings\<close>

text \<open>
  Strings are sequences of code units below 256: the header values of a request as Node
  delivers them, and the payload strings of that range. The white-space class and the
  case mapping are those of ECMAScript on that range. The capitals of U+00B5 and U+00FF
  lie beyond it; \<open>toUpperCase\<close> leaves these two characters as they are, which this
  program cannot tell from their capitals: it compares upper-cased text with ASCII
  capitals only, and stores it only when that comparison has succeeded.
\<close>

definition char_code :: "char \<Rightarrow> int" where
  "char_code c = of_char c"

definition is_ws :: "char \<Rightarrow> bool" where
  \<comment> \<open>TAB, LF, VT, FF, CR, SP, NBSP: the members below 256 of the regular-expression
      class \<open>\s\<close> and of StrWhiteSpaceChar\<close>
  "is_ws c = (char_code c \<in> {9, 10, 11, 12, 13, 32, 160})"

definition is_digit :: "char \<Rightarrow> bool" where
  "is_digit c = (48 \<le> char_code c \<and> char_code c \<le> 57)"

definition toUpperCase_char :: "char \<Rightarrow> string" where
  \<comment> \<open>the letters a to z; U+00DF, whose capital is written SS; the letters U+00E0 to
      U+00FE other than the division sign U+00F7\<close>
  "toUpperCase_char c =
     (if 97 \<le> char_code c \<and> char_code c \<le> 122 then [char_of (char_code c - 32)]
      else if char_code c = 223 then ''SS''
      else if 224 \<le> char_code c \<and> char_code c \<le> 254 \<and> char_code c \<noteq> 247
      then [char_of (char_code c - 32)]
      else [c])"

definition toUpperCase :: "string \<Rightarrow> string" where
  "toUpperCase s = concat (map toUpperCase_char s)"

fun split_on :: "char \<Rightarrow> string \<Rightarrow> string list" where
  \<comment> \<open>\<open>s.split(c)\<close> for a one-character separator\<close>
  "split_on c [] = [[]]"
| "split_on c (x # xs) =
     (if x = c then [] # split_on c xs
      else (case split_on c xs of [] \<Rightarrow> [[x]] | p # ps \<Rightarrow> (x # p) # ps))"

definition digit_of :: "int \<Rightarrow> char \<Rightarrow> int option" where
  \<comment> \<open>the value of a digit character in radix 10 or 16\<close>
  "digit_of radix c =
     (if 48 \<le> char_code c \<and> char_code c \<le> 57 then Some (char_code c - 48)
      else if radix = 16 \<and> 97 \<le> char_code c \<and> char_code c \<le> 102 then Some (char_code c - 87)
      else if radix = 16 \<and> 65 \<le> char_code c \<and> char_code c \<le> 70 then Some (char_code c - 55)
      else None)"

definition digits_value :: "int \<Rightarrow> string \<Rightarrow> int" where
  "digits_value radix z =
     foldl (\<lambda>acc c. acc * radix + (case digit_of radix c of None \<Rightarrow> 0 | Some d \<Rightarrow> d)) 0 z"

definition digit_char :: "int \<Rightarrow> char" where
  "digit_char d = char_of (48 + d)"

function digits10 :: "int \<Rightarrow> string" where
  \<comment> \<open>the decimal digits of a non-negative integer\<close>
  "digits10 n = (if n < 10 then [digit_char n] else digits10 (n div 10) @ [digit_char (n mod 10)])"
  by pat_completeness auto
termination
  by (relation "measure nat") auto

declare digits10.simps [simp del]

definition strip_sign :: "string \<Rightarrow> int \<times> string" where
  "strip_sign s =
     (case s of [] \<Rightarrow> (1, [])
      | c # r \<Rightarrow> if c = CHR ''-'' then (- 1, r) else if c = CHR ''+'' then (1, r) else (1, s))"

definition strip_hex_prefix :: "string \<Rightarrow> int \<times> string" where
  "strip_hex_prefix s =
     (if take 2 s = ''0x'' \<or> take 2 s = ''0X'' then (16, drop 2 s) else (10, s))"

definition parseInt_digits :: "int \<Rightarrow> int \<Rightarrow> string \<Rightarrow> number" where
  "parseInt_digits sign radix z =
     (if z = [] then NaN else to_double (of_int (sign * digits_value radix z)))"

definition parseInt_radix :: "int \<Rightarrow> int \<times> string \<Rightarrow> number" where
  "parseInt_radix sign rs =
     parseInt_digits sign (fst rs) (takeWhile (\<lambda>c. digit_of (fst rs) c \<noteq> None) (snd rs))"

definition parseInt :: "string \<Rightarrow> number" where
  \<comment> \<open>\<open>parseInt(string)\<close> with no radix: leading white space, a sign, an optional
      \<open>0x\<close> prefix, then the longest run of digits; what follows is ignored\<close>
  "parseInt str =
     parseInt_radix (fst (strip_sign (dropWhile is_ws str)))
       (strip_hex_prefix (snd (strip_sign (dropWhile is_ws str))))"

definition exponent_part :: "string \<Rightarrow> int" where
  \<comment> \<open>the value of an ExponentPart at the head of the string, 0 when there is none\<close>
  "exponent_part r =
     (case r of [] \<Rightarrow> 0
      | c # r1 \<Rightarrow>
          if (c = CHR ''e'' \<or> c = CHR ''E'') \<and> takeWhile is_digit (snd (strip_sign r1)) \<noteq> []
          then fst (strip_sign r1) * digits_value 10 (takeWhile is_digit (snd (strip_sign r1)))
          else 0)"

definition fraction_value :: "string \<Rightarrow> rat" where
  "fraction_value fp = of_int (digits_value 10 fp) * bpow 10 (- int (length fp))"

definition unsigned_decimal :: "string \<Rightarrow> rat option" where
  \<comment> \<open>the mathematical value of the longest prefix that is a finite
      StrUnsignedDecimalLiteral, if there is one\<close>
  "unsigned_decimal s =
     (case dropWhile is_digit s of
        [] \<Rightarrow> if s = [] then None else Some (of_int (digits_value 10 s))
      | c # r1 \<Rightarrow>
          if c = CHR ''.'' then
            (if takeWhile is_digit s = [] \<and> takeWhile is_digit r1 = [] then None
             else Some ((of_int (digits_value 10 (takeWhile is_digit s))
                          + fraction_value (takeWhile is_digit r1))
                        * bpow 10 (exponent_part (dropWhile is_digit r1))))
          else if takeWhile is_digit s = [] then None
          else Some (of_int (digits_value 10 (takeWhile is_digit s))
                      * bpow 10 (exponent_part (c # r1))))"

definition parseFloat_signed :: "int \<times> string \<Rightarrow> number" where
  "parseFloat_signed ss =
     (if take 8 (snd ss) = ''Infinity'' then (if fst ss < 0 then NegInf else PosInf)
      else case unsigned_decimal (snd ss) of
             None \<Rightarrow> NaN
           | Some v \<Rightarrow> to_double (of_int (fst ss) * v))"

definition parseFloat :: "string \<Rightarrow> number" where
  "parseFloat str = parseFloat_signed (strip_sign (dropWhile is_ws str))"

subsection \<open>Number to string\<close>

text \<open>
  \<open>Number::toString\<close>: for a finite positive \<open>x\<close>, integers \<open>n\<close>, \<open>k\<close>, \<open>s\<close> with
  \<open>k \<ge> 1\<close>, \<open>10 ^ (k - 1) \<le> s < 10 ^ k\<close>, \<open>s * 10 ^ (n - k)\<close> rounding to \<open>x\<close>, and \<open>k\<close>
  as small as possible; of several \<open>s\<close> the one closest to \<open>x\<close>. A double needs at most
  17 digits. For each \<open>k\<close> only the two decimals around \<open>x\<close> can qualify.
\<close>

definition decimal_candidate :: "rat \<Rightarrow> int \<Rightarrow> int \<Rightarrow> int \<Rightarrow> bool" where
  \<comment> \<open>\<open>s\<close> has \<open>k\<close> digits (or is \<open>10 ^ k\<close>, the digit 1 one place higher) and
      \<open>s * 10 ^ (n - k)\<close> rounds to \<open>q\<close>\<close>
  "decimal_candidate q n k s =
     (bpow 10 (k - 1) \<le> of_int s \<and> of_int s \<le> bpow 10 k
      \<and> to_double (of_int s * bpow 10 (n - k)) = Fin q)"

definition pick_closest :: "rat \<Rightarrow> int \<Rightarrow> int" where
  "pick_closest t lo =
     (if t - of_int lo < of_int (lo + 1) - t then lo
      else if of_int (lo + 1) - t < t - of_int lo then lo + 1
      else if even lo then lo else lo + 1)"

definition choose_digits :: "rat \<Rightarrow> int \<Rightarrow> int \<Rightarrow> int \<Rightarrow> int option" where
  "choose_digits q n k lo =
     (if decimal_candidate q n k lo then
        (if decimal_candidate q n k (lo + 1)
         then Some (pick_closest (q * bpow 10 (k - n)) lo) else Some lo)
      else if decimal_candidate q n k (lo + 1) then Some (lo + 1)
      else None)"

definition digits_at :: "rat \<Rightarrow> int \<Rightarrow> int \<Rightarrow> int option" where
  "digits_at q n k = choose_digits q n k \<lfloor>q * bpow 10 (k - n)\<rfloor>"

fun shortest_from :: "rat \<Rightarrow> int \<Rightarrow> int list \<Rightarrow> (int \<times> int) option" where
  "shortest_from q n [] = None"
| "shortest_from q n (k # ks) =
     (case digits_at q n k of Some s \<Rightarrow> Some (s, k) | None \<Rightarrow> shortest_from q n ks)"

definition carry_digits :: "int \<Rightarrow> int \<times> int \<Rightarrow> int \<times> int" where
  \<comment> \<open>\<open>(s, n)\<close> from \<open>s\<close> at \<open>k\<close> digits: \<open>s = 10 ^ k\<close> is the digit 1 one place higher\<close>
  "carry_digits n sk =
     (if of_int (fst sk) = bpow 10 (snd sk) then (fst sk div 10, n + 1) else (fst sk, n))"

definition shortest_at :: "rat \<Rightarrow> int \<Rightarrow> int \<times> int" where
  "shortest_at q n =
     carry_digits n
       (case shortest_from q n [1, 2, 3, 4, 5, 6, 7, 8, 9, 10, 11, 12, 13, 14, 15, 16, 17] of
          Some sk \<Rightarrow> sk
        | None \<Rightarrow> (pick_closest (q * bpow 10 (17 - n)) \<lfloor>q * bpow 10 (17 - n)\<rfloor>, 17))"

definition shortest_digits :: "rat \<Rightarrow> int \<times> int" where
  \<comment> \<open>the pair \<open>(s, n)\<close> of a positive number\<close>
  "shortest_digits q = shortest_at q (ilog 10 q + 1)"

definition exponent_suffix :: "int \<Rightarrow> string" where
  "exponent_suffix n = ''e'' @ (if n < 0 then ''-'' else ''+'') @ digits10 \<bar>n - 1\<bar>"

definition format_number :: "string \<Rightarrow> int \<Rightarrow> string" where
  "format_number ds n =
     (if - 5 \<le> n \<and> n \<le> 21 then
        (if int (length ds) \<le> n then ds @ replicate (nat (n - int (length ds))) CHR ''0''
         else if 0 < n then take (nat n) ds @ ''.'' @ drop (nat n) ds
         else ''0.'' @ replicate (nat (- n)) CHR ''0'' @ ds)
      else if length ds = 1 then ds @ exponent_suffix n
      else take 1 ds @ ''.'' @ drop 1 ds @ exponent_suffix n)"

definition positive_toString :: "rat \<Rightarrow> string" where
  "positive_toString q =
     format_number (digits10 (fst (shortest_digits q))) (snd (shortest_digits q))"

fun Number_toString :: "number \<Rightarrow> string" where
  "Number_toString NaN = ''NaN''"
| "Number_toString PosInf = ''Infinity''"
| "Number_toString NegInf = ''-Infinity''"
| "Number_toString (Fin q) =
     (if q = 0 then ''0''
      else if q < 0 then ''-'' @ positive_toString (- q)
      else positive_toString q)"

definition fixed_point :: "string \<Rightarrow> nat \<Rightarrow> string" where
  \<comment> \<open>the digits \<open>m\<close> of \<open>n\<close>, padded to \<open>f + 1\<close> places, with the point before the last \<open>f\<close>\<close>
  "fixed_point m f =
     (if f = 0 then m
      else take (length (replicate (f + 1 - length m) CHR ''0'' @ m) - f)
                (replicate (f + 1 - length m) CHR ''0'' @ m)
           @ ''.''
           @ drop (length (replicate (f + 1 - length m) CHR ''0'' @ m) - f)
                  (replicate (f + 1 - length m) CHR ''0'' @ m))"

definition toFixed_magnitude :: "rat \<Rightarrow> nat \<Rightarrow> string" where
  "toFixed_magnitude a f =
     (if 1000000000000000000000 \<le> a then Number_toString (Fin a)
      else fixed_point (digits10 \<lfloor>a * 10 ^ f + 1 / 2\<rfloor>) f)"

fun toFixed :: "number \<Rightarrow> nat \<Rightarrow> string" where
  \<comment> \<open>\<open>Number.prototype.toFixed(f)\<close>\<close>
  "toFixed (Fin q) f = (if q < 0 then ''-'' else []) @ toFixed_magnitude \<bar>q\<bar> f"
| "toFixed NaN f = Number_toString NaN"
| "toFixed PosInf f = Number_toString PosInf"
| "toFixed NegInf f = Number_toString NegInf"

subsection \<open>UTF-8\<close>

text \<open>
  A \<open>Buffer\<close> is the string of its bytes. \<open>Buffer.from(string)\<close> and
  \<open>hmac.update(string)\<close> take the UTF-8 bytes of the string. \<open>buffer.toString()\<close>
  decodes UTF-8: a well-formed sequence gives its character, every maximal ill-formed
  part gives U+FFFD. The decoded text can hold any character, so it is kept by its UTF-8
  bytes: the well-formed sequences as they are, \<open>EF BF BD\<close> for each replacement.
\<close>

definition utf8_encode_char :: "char \<Rightarrow> string" where
  "utf8_encode_char c =
     (if char_code c < 128 then [c]
      else [char_of (192 + char_code c div 64), char_of (128 + char_code c mod 64)])"

definition utf8_encode :: "string \<Rightarrow> string" where
  \<comment> \<open>the UTF-8 bytes of a string of code units below 256\<close>
  "utf8_encode s = concat (map utf8_encode_char s)"

definition replacement_character :: string where
  \<comment> \<open>U+FFFD in UTF-8\<close>
  "replacement_character = [CHR 0xEF, CHR 0xBF, CHR 0xBD]"

definition utf8_lead :: "int \<Rightarrow> (nat \<times> int \<times> int) option" where
  \<comment> \<open>for a lead byte: the number of bytes that must follow, and the range of the
      first of them (the others range over \<open>80\<close> to \<open>BF\<close>)\<close>
  "utf8_lead b =
     (if 0xC2 \<le> b \<and> b \<le> 0xDF then Some (1, 0x80, 0xBF)
      else if b = 0xE0 then Some (2, 0xA0, 0xBF)
      else if b = 0xED then Some (2, 0x80, 0x9F)
      else if 0xE1 \<le> b \<and> b \<le> 0xEF then Some (2, 0x80, 0xBF)
      else if b = 0xF0 then Some (3, 0x90, 0xBF)
      else if 0xF1 \<le> b \<and> b \<le> 0xF3 then Some (3, 0x80, 0xBF)
      else if b = 0xF4 then Some (3, 0x80, 0x8F)
      else None)"

function utf8_text :: "nat \<Rightarrow> int \<Rightarrow> int \<Rightarrow> string \<Rightarrow> string \<Rightarrow> string" where
  \<comment> \<open>the decoder: the number of bytes still needed for the current character, the
      range of the next one, the bytes of the character seen so far, the input\<close>
  "utf8_text needed lo hi seen [] = (if needed = 0 then [] else replacement_character)"
| "utf8_text needed lo hi seen (b # bs) =
     (if needed = 0 then
        (if char_code b < 128 then b # utf8_text 0 0 0 [] bs
         else case utf8_lead (char_code b) of
                None \<Rightarrow> replacement_character @ utf8_text 0 0 0 [] bs
              | Some (n, l, h) \<Rightarrow> utf8_text n l h [b] bs)
      else if lo \<le> char_code b \<and> char_code b \<le> hi then
        (if needed = 1 then seen @ [b] @ utf8_text 0 0 0 [] bs
         else utf8_text (needed - 1) 0x80 0xBF (seen @ [b]) bs)
      else replacement_character @ utf8_text 0 0 0 [] (b # bs))"
  by pat_completeness auto
termination
  by (relation "measure (\<lambda>(needed, lo, hi, seen, bs). 2 * length bs + (if needed = 0 then 0 else 1))")
     auto

declare utf8_text.simps [simp del]

definition Buffer_toString :: "string \<Rightarrow> string" where
  \<comment> \<open>\<open>buffer.toString()\<close>, the text given by its UTF-8 bytes\<close>
  "Buffer_toString bytes = utf8_text 0 0 0 [] bytes"

subsection \<open>Values, objects and exceptions\<close>

text \<open>
  A request body is whatever \<open>JSON.parse\<close> returns: the TypeScript interface
  \<open>WebhookPayload\<close> is erased at run time, so the validators meet arbitrary values. An
  object is the list of its own properties. \<open>Date\<close> carries the milliseconds since the
  epoch; \<open>JSON.parse\<close> never produces it.
\<close>

datatype jsval =
    Undefined
  | Null
  | Bool bool
  | Num number
  | Str string
  | Arr "jsval list"
  | Obj "(string \<times> jsval) list"
  | Date int

fun typeof :: "jsval \<Rightarrow> string" where
  "typeof Undefined = ''undefined''"
| "typeof Null = ''object''"
| "typeof (Bool b) = ''boolean''"
| "typeof (Num n) = ''number''"
| "typeof (Str s) = ''string''"
| "typeof (Arr xs) = ''object''"
| "typeof (Obj kvs) = ''object''"
| "typeof (Date t) = ''object''"

fun truthy :: "jsval \<Rightarrow> bool" where
  "truthy Undefined = False"
| "truthy Null = False"
| "truthy (Bool b) = b"
| "truthy (Num n) = (\<not> isNaN n \<and> n \<noteq> Fin 0)"
| "truthy (Str s) = (s \<noteq> [])"
| "truthy (Arr xs) = True"
| "truthy (Obj kvs) = True"
| "truthy (Date t) = True"

text \<open>
  The entity \<open>Transaction\<close>. The columns filled from the payload hold the values the
  payload gave; the conversion of the database driver to the column types is not part of
  the model. \<open>id_column\<close> is the generated primary key \<open>id\<close>; it and the two
  timestamps are unset until the row is inserted.
\<close>

record transaction =
  id_column :: "string option"
  event_id :: jsval
  transaction_id :: jsval
  amount :: jsval
  currency :: jsval
  sender_id :: jsval
  sender_name :: jsval
  sender_country :: jsval
  receiver_id :: jsval
  receiver_name :: jsval
  receiver_country :: jsval
  status :: jsval
  payment_method :: jsval
  processing_fee :: number
  net_amount :: number
  exchange_rate :: "number option"
  metadata :: jsval
  processed_at :: "int option"
  created_at :: "int option"
  updated_at :: "int option"

record audit_log =
  log_event_id :: jsval
  log_event_type :: jsval
  log_payload :: jsval
  log_status :: string
  log_error_message :: "string option"

datatype js_error =
    Error string
  | TypeError string
  | RangeError string
  | ValidationError string string
  | DuplicateTransactionError transaction
  | QueryFailedError string

fun error_message :: "js_error \<Rightarrow> string" where
  "error_message (Error m) = m"
| "error_message (TypeError m) = m"
| "error_message (RangeError m) = m"
| "error_message (ValidationError field m) = m"
| "error_message (DuplicateTransactionError t) = ''Transaction already processed''"
| "error_message (QueryFailedError m) = m"

definition and_then :: "js_error + 'a \<Rightarrow> ('a \<Rightarrow> js_error + 'b) \<Rightarrow> js_error + 'b" where
  \<comment> \<open>sequencing of statements: an exception skips what follows\<close>
  "and_then m f = (case m of Inl e \<Rightarrow> Inl e | Inr x \<Rightarrow> f x)"

fun get_prop :: "jsval \<Rightarrow> string \<Rightarrow> js_error + jsval" where
  \<comment> \<open>the property read \<open>v.k\<close>, for the property names this program reads: none of them
      is defined on the prototypes of primitives, arrays, dates or plain objects\<close>
  "get_prop Undefined k = Inl (TypeError (''Cannot read properties of undefined, reading '' @ k))"
| "get_prop Null k = Inl (TypeError (''Cannot read properties of null, reading '' @ k))"
| "get_prop (Obj kvs) k = Inr (case map_of kvs k of None \<Rightarrow> Undefined | Some v \<Rightarrow> v)"
| "get_prop (Bool b) k = Inr Undefined"
| "get_prop (Num n) k = Inr Undefined"
| "get_prop (Str s) k = Inr Undefined"
| "get_prop (Arr xs) k = Inr Undefined"
| "get_prop (Date t) k = Inr Undefined"

fun opt_prop :: "jsval \<Rightarrow> string \<Rightarrow> jsval" where
  \<comment> \<open>the optional chain \<open>v?.k\<close>\<close>
  "opt_prop Undefined k = Undefined"
| "opt_prop Null k = Undefined"
| "opt_prop (Obj kvs) k = (case map_of kvs k of None \<Rightarrow> Undefined | Some v \<Rightarrow> v)"
| "opt_prop (Bool b) k = Undefined"
| "opt_prop (Num n) k = Undefined"
| "opt_prop (Str s) k = Undefined"
| "opt_prop (Arr xs) k = Undefined"
| "opt_prop (Date t) k = Undefined"

definition get_prop2 :: "jsval \<Rightarrow> string \<Rightarrow> string \<Rightarrow> js_error + jsval" where
  \<comment> \<open>\<open>v.a.b\<close>\<close>
  "get_prop2 v a b = and_then (get_prop v a) (\<lambda>x. get_prop x b)"

definition get_prop3 :: "jsval \<Rightarrow> string \<Rightarrow> string \<Rightarrow> string \<Rightarrow> js_error + jsval" where
  \<comment> \<open>\<open>v.a.b.c\<close>\<close>
  "get_prop3 v a b c = and_then (get_prop2 v a b) (\<lambda>x. get_prop x c)"

fun join :: "string \<Rightarrow> string list \<Rightarrow> string" where
  "join sep [] = []"
| "join sep [x] = x"
| "join sep (x # y # ys) = x @ sep @ join sep (y # ys)"

subsection \<open>Regular expressions\<close>

text \<open>
  The two patterns of the validators are anchored at both ends and are sequences of
  character classes, some under \<open>+\<close>. \<open>rx_match\<close> is the backtracking matcher for
  such sequences; \<open>$\<close> without the multiline flag is the end of the input.
\<close>

datatype char_class = UpperAZ | NotSpaceAt | Literal char

fun in_class :: "char_class \<Rightarrow> char \<Rightarrow> bool" where
  "in_class UpperAZ c = (65 \<le> char_code c \<and> char_code c \<le> 90)"
| "in_class NotSpaceAt c = (\<not> is_ws c \<and> c \<noteq> CHR ''@'')"
| "in_class (Literal l) c = (c = l)"

datatype rx_item = One char_class | OneOrMore char_class

fun rx_match :: "rx_item list \<Rightarrow> string \<Rightarrow> bool" where
  "rx_match [] s = (s = [])"
| "rx_match (One cl # r) [] = False"
| "rx_match (One cl # r) (x # xs) = (in_class cl x \<and> rx_match r xs)"
| "rx_match (OneOrMore cl # r) [] = False"
| "rx_match (OneOrMore cl # r) (x # xs) =
     (in_class cl x \<and> (rx_match (OneOrMore cl # r) xs \<or> rx_match r xs))"

definition iso2Regex :: "rx_item list" where
  \<comment> \<open>\<open>/^[A-Z]{2}$/\<close>\<close>
  "iso2Regex = [One UpperAZ, One UpperAZ]"

definition emailRegex :: "rx_item list" where
  \<comment> \<open>\<open>/^[^\s@]+@[^\s@]+\.[^\s@]+$/\<close>\<close>
  "emailRegex =
     [OneOrMore NotSpaceAt, One (Literal (CHR ''@'')), OneOrMore NotSpaceAt,
      One (Literal (CHR ''.'')), OneOrMore NotSpaceAt]"

section \<open>TransactionValidator\<close>

definition VALID_CURRENCIES :: "string list" where
  "VALID_CURRENCIES = [''USD'', ''EUR'', ''GBP'', ''INR'', ''JPY'']"

definition VALID_STATUSES :: "string list" where
  \<comment> \<open>\<open>Object.values(TransactionStatus)\<close>\<close>
  "VALID_STATUSES = [''pending'', ''completed'', ''failed'']"

definition requiredFields :: "jsval \<Rightarrow> js_error + (string \<times> jsval) list" where
  \<comment> \<open>the object literal of \<open>validateRequired\<close>; only the three reads on \<open>payload\<close>
      itself are not optional chains\<close>
  "requiredFields payload =
     and_then (get_prop payload ''event_id'') (\<lambda>eid.
     and_then (get_prop payload ''event_type'') (\<lambda>etype.
     and_then (get_prop payload ''data'') (\<lambda>d.
       Inr [(''event_id'', eid),
            (''event_type'', etype),
            (''data.transaction_id'', opt_prop d ''transaction_id''),
            (''data.amount'', opt_prop d ''amount''),
            (''data.currency'', opt_prop d ''currency''),
            (''data.sender.id'', opt_prop (opt_prop d ''sender'') ''id''),
            (''data.sender.name'', opt_prop (opt_prop d ''sender'') ''name''),
            (''data.sender.email'', opt_prop (opt_prop d ''sender'') ''email''),
            (''data.sender.country'', opt_prop (opt_prop d ''sender'') ''country''),
            (''data.receiver.id'', opt_prop (opt_prop d ''receiver'') ''id''),
            (''data.receiver.name'', opt_prop (opt_prop d ''receiver'') ''name''),
            (''data.receiver.email'', opt_prop (opt_prop d ''receiver'') ''email''),
            (''data.receiver.country'', opt_prop (opt_prop d ''receiver'') ''country''),
            (''data.status'', opt_prop d ''status''),
            (''data.payment_method'', opt_prop d ''payment_method'')])))"

fun check_required :: "(string \<times> jsval) list \<Rightarrow> js_error + unit" where
  \<comment> \<open>the loop over \<open>Object.entries(requiredFields)\<close>, in insertion order\<close>
  "check_required [] = Inr ()"
| "check_required ((field, v) # rest) =
     (if v = Undefined \<or> v = Null \<or> v = Str []
      then Inl (ValidationError field (field @ '' is required''))
      else check_required rest)"

definition validateRequired :: "jsval \<Rightarrow> (js_error + unit) \<times> jsval" where
  \<comment> \<open>the result, and the payload object as the call leaves it\<close>
  "validateRequired payload = (and_then (requiredFields payload) check_required, payload)"

definition decimals_length :: "number \<Rightarrow> nat option" where
  \<comment> \<open>\<open>amount.toString().split(".")[1]?.length\<close>, \<open>None\<close> for \<open>undefined\<close>\<close>
  "decimals_length a =
     (case split_on (CHR ''.'') (Number_toString a) of
        [] \<Rightarrow> None
      | [p] \<Rightarrow> None
      | p # d # ps \<Rightarrow> Some (length d))"

definition validateAmount :: "jsval \<Rightarrow> js_error + unit" where
  "validateAmount v =
     (case v of
        Num a \<Rightarrow>
          if isNaN a then Inl (ValidationError ''amount'' ''Amount must be a valid number'')
          else if num_le a (Fin 0)
          then Inl (ValidationError ''amount'' ''Amount must be a positive number'')
          else if (case decimals_length a of None \<Rightarrow> False | Some n \<Rightarrow> 2 < n)
          then Inl (ValidationError ''amount'' ''Amount cannot have more than 2 decimal places'')
          else Inr ()
      | _ \<Rightarrow> Inl (ValidationError ''amount'' ''Amount must be a valid number''))"

definition validateCurrency :: "jsval \<Rightarrow> js_error + unit" where
  "validateCurrency v =
     (if \<not> truthy v \<or> typeof v \<noteq> ''string''
      then Inl (ValidationError ''currency'' ''Currency is required'')
      else case v of
             Str s \<Rightarrow>
               if toUpperCase s \<in> set VALID_CURRENCIES then Inr ()
               else Inl (ValidationError ''currency''
                      (''Currency must be a valid ISO code. Supported: ''
                         @ join '', '' VALID_CURRENCIES))
           | _ \<Rightarrow> Inl (TypeError ''currency.toUpperCase is not a function''))"

definition validateStatus :: "jsval \<Rightarrow> js_error + unit" where
  "validateStatus st =
     (if \<not> truthy st \<or> typeof st \<noteq> ''string''
      then Inl (ValidationError ''status'' ''Status is required'')
      else if st \<in> Str ` set VALID_STATUSES then Inr ()
      else Inl (ValidationError ''status''
             (''Status must be one of: '' @ join '', '' VALID_STATUSES)))"

fun validateCountryCodes_from :: "int \<Rightarrow> jsval list \<Rightarrow> js_error + unit" where
  \<comment> \<open>the \<open>forEach\<close> over the rest parameter, from the given index\<close>
  "validateCountryCodes_from index [] = Inr ()"
| "validateCountryCodes_from index (country # rest) =
     (if \<not> truthy country \<or> typeof country \<noteq> ''string''
      then Inl (ValidationError (''country_'' @ digits10 index) ''Country code is required'')
      else case country of
             Str s \<Rightarrow>
               if \<not> rx_match iso2Regex (toUpperCase s)
               then Inl (ValidationError (''country_'' @ digits10 index)
                      (''Country code must be 2-letter ISO code (e.g., US, IN, GB). Received: ''
                         @ s))
               else validateCountryCodes_from (index + 1) rest
           | _ \<Rightarrow> Inl (TypeError ''country.toUpperCase is not a function''))"

definition validateCountryCodes :: "jsval list \<Rightarrow> js_error + unit" where
  "validateCountryCodes countries = validateCountryCodes_from 0 countries"

definition validateEmail :: "jsval \<Rightarrow> string \<Rightarrow> js_error + unit" where
  "validateEmail email fieldName =
     (if \<not> truthy email \<or> typeof email \<noteq> ''string''
      then Inl (ValidationError fieldName (fieldName @ '' is required''))
      else case email of
             Str s \<Rightarrow>
               if \<not> rx_match emailRegex s
               then Inl (ValidationError fieldName
                      (fieldName @ '' must be a valid email address''))
               else Inr ()
           | _ \<Rightarrow> Inl (TypeError ''emailRegex.test''))"

definition validate_fields :: "jsval \<Rightarrow> js_error + unit" where
  \<comment> \<open>the statements of \<open>validate\<close> after \<open>validateRequired\<close>; each argument is read
      from the payload before its call\<close>
  "validate_fields payload =
     and_then (get_prop2 payload ''data'' ''amount'') (\<lambda>a.
     and_then (validateAmount a) (\<lambda>_.
     and_then (get_prop2 payload ''data'' ''currency'') (\<lambda>c.
     and_then (validateCurrency c) (\<lambda>_.
     and_then (get_prop2 payload ''data'' ''status'') (\<lambda>st.
     and_then (validateStatus st) (\<lambda>_.
     and_then (get_prop3 payload ''data'' ''sender'' ''country'') (\<lambda>sc.
     and_then (get_prop3 payload ''data'' ''receiver'' ''country'') (\<lambda>rc.
     and_then (validateCountryCodes [sc, rc]) (\<lambda>_.
     and_then (get_prop3 payload ''data'' ''sender'' ''email'') (\<lambda>se.
     and_then (validateEmail se ''sender.email'') (\<lambda>_.
     and_then (get_prop3 payload ''data'' ''receiver'' ''email'') (\<lambda>re.
     validateEmail re ''receiver.email''))))))))))))"

definition validate :: "jsval \<Rightarrow> (js_error + unit) \<times> jsval" where
  \<comment> \<open>the result, and the payload object as the call leaves it\<close>
  "validate payload =
     (case validateRequired payload of
        (Inl e, payload1) \<Rightarrow> (Inl e, payload1)
      | (Inr _, payload1) \<Rightarrow> (validate_fields payload1, payload1))"

section \<open>TransactionCalculator\<close>

definition PROCESSING_FEE_RATE :: number where
  \<comment> \<open>the literal \<open>0.02\<close>\<close>
  "PROCESSING_FEE_RATE = to_double (2 / 100)"

record derived_fields =
  df_processing_fee :: number
  df_net_amount :: number

definition net_of :: "number \<Rightarrow> number \<Rightarrow> derived_fields" where
  "net_of amt processingFee =
     \<lparr>df_processing_fee = processingFee,
      df_net_amount = parseFloat (toFixed (num_sub amt processingFee) 2)\<rparr>"

definition calculateDerivedFields :: "number \<Rightarrow> derived_fields" where
  "calculateDerivedFields amt =
     net_of amt (parseFloat (toFixed (num_mul amt PROCESSING_FEE_RATE) 2))"

section \<open>SignatureValidator\<close>

text \<open>
  \<open>createHmac("sha256", secret).update(payload).digest("hex")\<close> belongs to the
  \<open>crypto\<close> library: it is a parameter of the model, a function from the secret and the
  message to the hexadecimal digest. The message is the string of the bytes that
  \<open>update\<close> receives: those of a \<open>Buffer\<close>, the UTF-8 bytes of a string.
\<close>

type_synonym hmac_hex = "string \<Rightarrow> string \<Rightarrow> string"

definition SignatureValidator_new :: "string option \<Rightarrow> js_error + string" where
  \<comment> \<open>the constructor: the secret of the instance, or the exception at start-up\<close>
  "SignatureValidator_new WEBHOOK_SECRET =
     (case WEBHOOK_SECRET of
        None \<Rightarrow> Inl (Error ''WEBHOOK_SECRET is not configured'')
      | Some s \<Rightarrow> if s = [] then Inl (Error ''WEBHOOK_SECRET is not configured'') else Inr s)"

definition timingSafeEqual :: "string \<Rightarrow> string \<Rightarrow> js_error + bool" where
  "timingSafeEqual a b =
     (if length a \<noteq> length b
      then Inl (RangeError ''Input buffers must have the same byte length'')
      else Inr (a = b))"

definition verify :: "hmac_hex \<Rightarrow> string \<Rightarrow> string \<Rightarrow> string \<Rightarrow> bool" where
  "verify hmac secret payload receivedSignature =
     (case timingSafeEqual receivedSignature (hmac secret payload) of
        Inl error \<Rightarrow> False
      | Inr equal \<Rightarrow> equal)"

definition currentTime :: "int \<Rightarrow> number" where
  \<comment> \<open>\<open>Math.floor(Date.now() / 1000)\<close>, from the clock in milliseconds\<close>
  "currentTime now_ms = Math_floor (num_div (Fin (of_int now_ms)) (Fin 1000))"

definition verifyWithTimestamp ::
  "hmac_hex \<Rightarrow> string \<Rightarrow> int \<Rightarrow> string \<Rightarrow> string \<Rightarrow> string \<Rightarrow> number option \<Rightarrow> bool" where
  \<comment> \<open>on the \<open>Buffer\<close> that the route passes for \<open>payload\<close>; the last argument is
      \<open>toleranceSeconds\<close>, \<open>None\<close> when the caller omits it. The template string
      \<open>`${timestamp}.${payload}`\<close> holds the text of \<open>payload.toString()\<close>, and
      \<open>verify\<close> hashes the UTF-8 bytes of the string it is given\<close>
  "verifyWithTimestamp hmac secret now_ms payload receivedSignature timestamp toleranceSeconds =
     (if isNaN (parseInt timestamp) then False
      else if num_gt (Math_abs (num_sub (currentTime now_ms) (parseInt timestamp)))
                (case toleranceSeconds of None \<Rightarrow> Fin 300 | Some t \<Rightarrow> t)
      then False
      else verify hmac secret (utf8_encode timestamp @ ''.'' @ Buffer_toString payload)
             receivedSignature)"

section \<open>Storage\<close>

text \<open>
  The two tables, and what one request meets from outside: the HMAC of the \<open>crypto\<close>
  library and the configured secret, the clock (\<open>Date.now()\<close> in the signature check,
  \<open>new Date()\<close> when the entity is built, the time of the database), the key the database
  generates, storage failures other than constraint violations (per operation, with the
  message), and the rows that other requests commit to \<open>transactions\<close> between this
  request's duplicate check and its insert.
\<close>

record db =
  transactions :: "transaction list"
  audit_logs :: "audit_log list"

datatype db_op = FindByEventId | FindByTransactionId | InsertTransaction | InsertAuditLog string

record env =
  hmac_sha256 :: hmac_hex
  WEBHOOK_SECRET :: string
  Date_now :: int
  new_Date :: int
  db_now :: int
  generated_id :: string
  storage_fault :: "db_op \<Rightarrow> string option"
  concurrent_commits :: "transaction list"

definition findOne :: "env \<Rightarrow> db \<Rightarrow> db_op \<Rightarrow> (transaction \<Rightarrow> jsval) \<Rightarrow> jsval
    \<Rightarrow> js_error + transaction option" where
  \<comment> \<open>\<open>transactionRepo.findOne({ where: { column: v } })\<close>\<close>
  "findOne e d op column v =
     (case storage_fault e op of
        Some m \<Rightarrow> Inl (QueryFailedError m)
      | None \<Rightarrow> Inr (find (\<lambda>t. column t = v) (transactions d)))"

definition unique_violation :: "transaction list \<Rightarrow> transaction \<Rightarrow> bool" where
  \<comment> \<open>the two \<open>unique\<close> columns of the entity\<close>
  "unique_violation rows t =
     (\<exists>r \<in> set rows. event_id r = event_id t \<or> transaction_id r = transaction_id t)"

definition insert_transaction :: "env \<Rightarrow> db \<Rightarrow> transaction \<Rightarrow> (js_error + transaction) \<times> db" where
  \<comment> \<open>\<open>transactionRepo.save\<close> of a new entity, on the table as the insert finds it\<close>
  "insert_transaction e d t =
     (case storage_fault e InsertTransaction of
        Some m \<Rightarrow> (Inl (QueryFailedError m), d)
      | None \<Rightarrow>
          if unique_violation (transactions d) t
          then (Inl (QueryFailedError ''duplicate key value violates unique constraint''), d)
          else (Inr (t\<lparr>id_column := Some (generated_id e),
                        created_at := Some (db_now e),
                        updated_at := Some (db_now e)\<rparr>),
                d\<lparr>transactions :=
                    transactions d @ [t\<lparr>id_column := Some (generated_id e),
                                        created_at := Some (db_now e),
                                        updated_at := Some (db_now e)\<rparr>]\<rparr>))"

definition save_transaction :: "env \<Rightarrow> db \<Rightarrow> transaction \<Rightarrow> (js_error + transaction) \<times> db" where
  "save_transaction e d t =
     insert_transaction e (d\<lparr>transactions := transactions d @ concurrent_commits e\<rparr>) t"

definition save_audit_log :: "env \<Rightarrow> db \<Rightarrow> audit_log \<Rightarrow> js_error + db" where
  \<comment> \<open>\<open>auditLogRepo.save\<close>; the columns \<open>event_id\<close> and \<open>event_type\<close> are not nullable\<close>
  "save_audit_log e d entry =
     (case storage_fault e (InsertAuditLog (log_status entry)) of
        Some m \<Rightarrow> Inl (QueryFailedError m)
      | None \<Rightarrow>
          if log_event_id entry \<in> {Undefined, Null} \<or> log_event_type entry \<in> {Undefined, Null}
          then Inl (QueryFailedError ''null value violates not-null constraint'')
          else Inr (d\<lparr>audit_logs := audit_logs d @ [entry]\<rparr>))"

section \<open>WebhookService\<close>

definition write_audit_log :: "env \<Rightarrow> db \<Rightarrow> jsval \<Rightarrow> string \<Rightarrow> js_error option \<Rightarrow> js_error + db" where
  \<comment> \<open>the body of the \<open>try\<close> of \<open>logWebhookEvent\<close>\<close>
  "write_audit_log e d payload st err =
     and_then (get_prop payload ''event_id'') (\<lambda>eid.
     and_then (get_prop payload ''event_type'') (\<lambda>etype.
       save_audit_log e d
         \<lparr>log_event_id = eid,
          log_event_type = etype,
          log_payload = payload,
          log_status = st,
          log_error_message = (case err of None \<Rightarrow> None | Some x \<Rightarrow> Some (error_message x))\<rparr>))"

definition logWebhookEvent :: "env \<Rightarrow> db \<Rightarrow> jsval \<Rightarrow> string \<Rightarrow> js_error option \<Rightarrow> db" where
  \<comment> \<open>an exception of the body is caught and written to the console\<close>
  "logWebhookEvent e d payload st err =
     (case write_audit_log e d payload st err of
        Inl auditError \<Rightarrow> d
      | Inr d' \<Rightarrow> d')"

definition checkDuplicate :: "env \<Rightarrow> db \<Rightarrow> jsval \<Rightarrow> jsval \<Rightarrow> js_error + unit" where
  "checkDuplicate e d eventId transactionId =
     and_then (findOne e d FindByEventId event_id eventId) (\<lambda>existingByEvent.
       case existingByEvent of
         Some t \<Rightarrow> Inl (DuplicateTransactionError t)
       | None \<Rightarrow>
           and_then (findOne e d FindByTransactionId transaction_id transactionId)
             (\<lambda>existingByTxn.
                case existingByTxn of
                  Some t \<Rightarrow> Inl (DuplicateTransactionError t)
                | None \<Rightarrow> Inr ()))"

fun js_toUpperCase :: "jsval \<Rightarrow> js_error + jsval" where
  \<comment> \<open>the method call \<open>v.toUpperCase()\<close>\<close>
  "js_toUpperCase (Str s) = Inr (Str (toUpperCase s))"
| "js_toUpperCase Undefined = Inl (TypeError ''Cannot read properties of undefined'')"
| "js_toUpperCase Null = Inl (TypeError ''Cannot read properties of null'')"
| "js_toUpperCase (Bool b) = Inl (TypeError ''toUpperCase is not a function'')"
| "js_toUpperCase (Num n) = Inl (TypeError ''toUpperCase is not a function'')"
| "js_toUpperCase (Arr xs) = Inl (TypeError ''toUpperCase is not a function'')"
| "js_toUpperCase (Obj kvs) = Inl (TypeError ''toUpperCase is not a function'')"
| "js_toUpperCase (Date t) = Inl (TypeError ''toUpperCase is not a function'')"

fun number_of :: "jsval \<Rightarrow> number" where
  \<comment> \<open>the argument of \<open>calculateDerivedFields\<close>: after \<open>validateAmount\<close> it is a
      Number; no other value reaches the call\<close>
  "number_of (Num a) = a"
| "number_of Undefined = NaN"
| "number_of Null = NaN"
| "number_of (Bool b) = NaN"
| "number_of (Str s) = NaN"
| "number_of (Arr xs) = NaN"
| "number_of (Obj kvs) = NaN"
| "number_of (Date t) = NaN"

definition create_transaction :: "env \<Rightarrow> jsval \<Rightarrow> derived_fields \<Rightarrow> js_error + transaction" where
  \<comment> \<open>\<open>transactionRepo.create({ ... })\<close>: the properties are evaluated in the order
      written; \<open>exchange_rate\<close> is not among them\<close>
  "create_transaction e payload derivedFields =
     and_then (get_prop payload ''event_id'') (\<lambda>v_event_id.
     and_then (get_prop2 payload ''data'' ''transaction_id'') (\<lambda>v_transaction_id.
     and_then (get_prop2 payload ''data'' ''amount'') (\<lambda>v_amount.
     and_then (and_then (get_prop2 payload ''data'' ''currency'') js_toUpperCase) (\<lambda>v_currency.
     and_then (get_prop3 payload ''data'' ''sender'' ''id'') (\<lambda>v_sender_id.
     and_then (get_prop3 payload ''data'' ''sender'' ''name'') (\<lambda>v_sender_name.
     and_then (and_then (get_prop3 payload ''data'' ''sender'' ''country'') js_toUpperCase)
       (\<lambda>v_sender_country.
     and_then (get_prop3 payload ''data'' ''receiver'' ''id'') (\<lambda>v_receiver_id.
     and_then (get_prop3 payload ''data'' ''receiver'' ''name'') (\<lambda>v_receiver_name.
     and_then (and_then (get_prop3 payload ''data'' ''receiver'' ''country'') js_toUpperCase)
       (\<lambda>v_receiver_country.
     and_then (get_prop2 payload ''data'' ''status'') (\<lambda>v_status.
     and_then (get_prop2 payload ''data'' ''payment_method'') (\<lambda>v_payment_method.
     and_then (get_prop2 payload ''data'' ''metadata'') (\<lambda>v_metadata.
       Inr \<lparr>id_column = None,
            event_id = v_event_id,
            transaction_id = v_transaction_id,
            amount = v_amount,
            currency = v_currency,
            sender_id = v_sender_id,
            sender_name = v_sender_name,
            sender_country = v_sender_country,
            receiver_id = v_receiver_id,
            receiver_name = v_receiver_name,
            receiver_country = v_receiver_country,
            status = v_status,
            payment_method = v_payment_method,
            processing_fee = df_processing_fee derivedFields,
            net_amount = df_net_amount derivedFields,
            exchange_rate = None,
            metadata = v_metadata,
            processed_at = Some (new_Date e),
            created_at = None,
            updated_at = None\<rparr>)))))))))))))"

definition prepare_transaction :: "env \<Rightarrow> db \<Rightarrow> jsval \<Rightarrow> js_error + transaction" where
  \<comment> \<open>the statements of the \<open>try\<close> block of \<open>processWebhook\<close> between the validation
      and the save: the duplicate check, the derived fields, the entity\<close>
  "prepare_transaction e d payload =
     and_then (get_prop payload ''event_id'') (\<lambda>eid.
     and_then (get_prop2 payload ''data'' ''transaction_id'') (\<lambda>tid.
     and_then (checkDuplicate e d eid tid) (\<lambda>_.
     and_then (get_prop2 payload ''data'' ''amount'') (\<lambda>a.
       create_transaction e payload (calculateDerivedFields (number_of a))))))"

definition persist :: "env \<Rightarrow> db \<Rightarrow> jsval \<Rightarrow> (js_error + transaction) \<times> db" where
  \<comment> \<open>the statements of the \<open>try\<close> block of \<open>processWebhook\<close> after the validation\<close>
  "persist e d payload =
     (case prepare_transaction e d payload of
        Inl err \<Rightarrow> (Inl err, d)
      | Inr t \<Rightarrow>
          (case save_transaction e d t of
             (Inl err, d1) \<Rightarrow> (Inl err, d1)
           | (Inr savedTransaction, d1) \<Rightarrow>
               (Inr savedTransaction, logWebhookEvent e d1 payload ''processed'' None)))"

definition try_processWebhook ::
  "env \<Rightarrow> db \<Rightarrow> jsval \<Rightarrow> ((js_error + transaction) \<times> db) \<times> jsval" where
  \<comment> \<open>the \<open>try\<close> block: its outcome, the tables, and the payload object as it leaves it\<close>
  "try_processWebhook e d payload =
     (case validate payload of
        (Inl err, payload1) \<Rightarrow> ((Inl err, d), payload1)
      | (Inr _, payload1) \<Rightarrow> (persist e d payload1, payload1))"

definition processWebhook :: "env \<Rightarrow> db \<Rightarrow> jsval \<Rightarrow> (js_error + transaction) \<times> db" where
  "processWebhook e d payload =
     (case try_processWebhook e (logWebhookEvent e d payload ''received'' None) payload of
        ((Inr savedTransaction, d1), payload1) \<Rightarrow> (Inr savedTransaction, d1)
      | ((Inl err, d1), payload1) \<Rightarrow>
          (Inl err, logWebhookEvent e d1 payload1 ''failed'' (Some err)))"

section \<open>Routes\<close>

record request =
  headers :: "string \<rightharpoonup> string"
  rawBody :: string
  parsed_body :: "jsval option"

record response =
  http_status :: int
  http_json :: jsval

definition unauthorized :: "string \<Rightarrow> response" where
  "unauthorized m =
     \<lparr>http_status = 401,
      http_json = Obj [(''error'', Str ''Unauthorized''), (''message'', Str m)]\<rparr>"

definition verifySignature :: "env \<Rightarrow> request \<Rightarrow> response + unit" where
  \<comment> \<open>the middleware: \<open>Inl\<close> is the response it sends, \<open>Inr ()\<close> the call of \<open>next()\<close>.
      Nothing in its \<open>try\<close> block raises: both verifiers return a boolean\<close>
  "verifySignature e req =
     (case headers req ''x-webhook-signature'' of
        None \<Rightarrow> Inl (unauthorized ''Missing webhook signature'')
      | Some signature \<Rightarrow>
          if signature = [] then Inl (unauthorized ''Missing webhook signature'')
          else if (case headers req ''x-webhook-timestamp'' of
                     None \<Rightarrow> verify (hmac_sha256 e) (WEBHOOK_SECRET e) (rawBody req) signature
                   | Some timestamp \<Rightarrow>
                       if timestamp = []
                       then verify (hmac_sha256 e) (WEBHOOK_SECRET e) (rawBody req) signature
                       else verifyWithTimestamp (hmac_sha256 e) (WEBHOOK_SECRET e) (Date_now e)
                              (rawBody req) signature timestamp None)
          then Inr ()
          else Inl (unauthorized ''Invalid webhook signature''))"

definition json_of_option :: "('a \<Rightarrow> jsval) \<Rightarrow> 'a option \<Rightarrow> jsval" where
  "json_of_option f x = (case x of None \<Rightarrow> Undefined | Some v \<Rightarrow> f v)"

definition error_response :: "js_error \<Rightarrow> response" where
  \<comment> \<open>the \<open>catch\<close> of the route handler\<close>
  "error_response err =
     (case err of
        DuplicateTransactionError existingTransaction \<Rightarrow>
          \<lparr>http_status = 409,
           http_json = Obj [(''error'', Str ''Conflict''),
                            (''message'', Str ''Transaction already processed''),
                            (''data'', Obj [(''id'', json_of_option Str (id_column existingTransaction)),
                                            (''transaction_id'', transaction_id existingTransaction),
                                            (''status'', status existingTransaction),
                                            (''processed_at'',
                                               json_of_option Date (processed_at existingTransaction))])]\<rparr>
      | ValidationError field m \<Rightarrow>
          \<lparr>http_status = 400,
           http_json = Obj [(''error'', Str ''Validation Error''), (''message'', Str m),
                            (''field'', Str field)]\<rparr>
      | _ \<Rightarrow>
          \<lparr>http_status = 500,
           http_json = Obj [(''error'', Str ''Internal Server Error''),
                            (''message'', Str ''Failed to process webhook'')]\<rparr>)"

definition success_response :: "transaction \<Rightarrow> response" where
  "success_response t =
     \<lparr>http_status = 200,
      http_json = Obj [(''success'', Bool True),
                       (''message'', Str ''Webhook processed successfully''),
                       (''data'', Obj [(''id'', json_of_option Str (id_column t)),
                                       (''transaction_id'', transaction_id t),
                                       (''status'', status t),
                                       (''amount'', amount t),
                                       (''currency'', currency t),
                                       (''processing_fee'', Num (processing_fee t)),
                                       (''net_amount'', Num (net_amount t))])]\<rparr>"

definition payment_handler :: "env \<Rightarrow> db \<Rightarrow> jsval \<Rightarrow> response \<times> db" where
  \<comment> \<open>the handler of \<open>POST /payment\<close>, on \<open>req.body\<close>\<close>
  "payment_handler e d payload =
     (case processWebhook e d payload of
        (Inr t, d1) \<Rightarrow> (success_response t, d1)
      | (Inl err, d1) \<Rightarrow> (error_response err, d1))"

definition post_payment :: "env \<Rightarrow> db \<Rightarrow> request \<Rightarrow> response \<times> db" where
  \<comment> \<open>\<open>app.use("/webhooks", express.raw, ...)\<close> followed by
      \<open>router.post("/payment", verifySignature, handler)\<close>\<close>
  "post_payment e d req =
     (case parsed_body req of
        None \<Rightarrow> (\<lparr>http_status = 400,
                   http_json = Obj [(''error'', Str ''Invalid JSON payload'')]\<rparr>, d)
      | Some payload \<Rightarrow>
          (case verifySignature e req of
             Inl res \<Rightarrow> (res, d)
           | Inr _ \<Rightarrow> payment_handler e d payload))"

section \<open>Notions used by the properties\<close>

definition field :: "jsval \<Rightarrow> string list \<Rightarrow> jsval" where
  \<comment> \<open>the value at a path of property names, \<open>undefined\<close> where the path breaks off\<close>
  "field v path = foldl opt_prop v path"

definition missing :: "jsval \<Rightarrow> bool" where
  "missing v = (v = Undefined \<or> v = Null \<or> v = Str [])"

definition required_paths :: "string list list" where
  "required_paths =
     [[''event_id''], [''event_type''],
      [''data'', ''transaction_id''], [''data'', ''amount''], [''data'', ''currency''],
      [''data'', ''sender'', ''id''], [''data'', ''sender'', ''name''],
      [''data'', ''sender'', ''email''], [''data'', ''sender'', ''country''],
      [''data'', ''receiver'', ''id''], [''data'', ''receiver'', ''name''],
      [''data'', ''receiver'', ''email''], [''data'', ''receiver'', ''country''],
      [''data'', ''status''], [''data'', ''payment_method'']]"

definition required_present :: "jsval \<Rightarrow> bool" where
  "required_present p = (p \<noteq> Undefined \<and> p \<noteq> Null
     \<and> list_all (\<lambda>path. \<not> missing (field p path)) required_paths)"

definition required_rule :: "jsval \<Rightarrow> js_error + unit" where
  \<comment> \<open>rule 1 in the words of the specification: the first required path whose value is
      absent, null or the empty string is reported under its dotted name\<close>
  "required_rule p =
     (case find (\<lambda>path. missing (field p path)) required_paths of
        None \<Rightarrow> Inr ()
      | Some path \<Rightarrow>
          Inl (ValidationError (join ''.'' path) (join ''.'' path @ '' is required'')))"

fun first_failure :: "(js_error + unit) list \<Rightarrow> js_error + unit" where
  "first_failure [] = Inr ()"
| "first_failure (r # rs) = (case r of Inl err \<Rightarrow> Inl err | Inr _ \<Rightarrow> first_failure rs)"

definition rule_outcomes :: "jsval \<Rightarrow> (js_error + unit) list" where
  \<comment> \<open>the outcome of each rule on its field, in the order of the specification\<close>
  "rule_outcomes p =
     [required_rule p,
      validateAmount (field p [''data'', ''amount'']),
      validateCurrency (field p [''data'', ''currency'']),
      validateStatus (field p [''data'', ''status'']),
      validateCountryCodes_from 0 [field p [''data'', ''sender'', ''country'']],
      validateCountryCodes_from 1 [field p [''data'', ''receiver'', ''country'']],
      validateEmail (field p [''data'', ''sender'', ''email'']) ''sender.email'',
      validateEmail (field p [''data'', ''receiver'', ''email'']) ''receiver.email'']"

definition has_shortest_decimal :: "rat \<Rightarrow> bool" where
  \<comment> \<open>the search of \<open>Number::toString\<close> finds its digits within 17 places, as it does
      for every double\<close>
  "has_shortest_decimal q =
     (shortest_from q (ilog 10 q + 1)
        [1, 2, 3, 4, 5, 6, 7, 8, 9, 10, 11, 12, 13, 14, 15, 16, 17] \<noteq> None)"

definition round_cents :: "rat \<Rightarrow> rat" where
  \<comment> \<open>rounding to two decimal places, a tie away from zero\<close>
  "round_cents x = sgn x * (of_int \<lfloor>\<bar>x\<bar> * 100 + 1 / 2\<rfloor> / 100)"

definition audit_entry :: "jsval \<Rightarrow> string \<Rightarrow> string option \<Rightarrow> audit_log" where
  "audit_entry payload st msg =
     \<lparr>log_event_id = field payload [''event_id''],
      log_event_type = field payload [''event_type''],
      log_payload = payload,
      log_status = st,
      log_error_message = msg\<rparr>"

definition audit_writes_succeed :: "env \<Rightarrow> jsval \<Rightarrow> bool" where
  \<comment> \<open>no storage failure on the audit table, and the two non-nullable columns have a value\<close>
  "audit_writes_succeed e payload =
     (storage_fault e (InsertAuditLog ''received'') = None
      \<and> storage_fault e (InsertAuditLog ''processed'') = None
      \<and> storage_fault e (InsertAuditLog ''failed'') = None
      \<and> field payload [''event_id''] \<noteq> Undefined \<and> field payload [''event_id''] \<noteq> Null
      \<and> field payload [''event_type''] \<noteq> Undefined \<and> field payload [''event_type''] \<noteq> Null)"

definition with_audit_faults :: "(string \<Rightarrow> string option) \<Rightarrow> env \<Rightarrow> env" where
  \<comment> \<open>the same environment, but the writes to \<open>audit_logs\<close> fail as \<open>g\<close> says\<close>
  "with_audit_faults g e =
     e\<lparr>storage_fault :=
         (\<lambda>op. case op of
                 InsertAuditLog st \<Rightarrow> g st
               | FindByEventId \<Rightarrow> storage_fault e FindByEventId
               | FindByTransactionId \<Rightarrow> storage_fault e FindByTransactionId
               | InsertTransaction \<Rightarrow> storage_fault e InsertTransaction)\<rparr>"

section \<open>Example inputs\<close>

definition example_party :: "string \<Rightarrow> string \<Rightarrow> string \<Rightarrow> string \<Rightarrow> jsval" where
  "example_party i n m c =
     Obj [(''id'', Str i), (''name'', Str n), (''email'', Str m), (''country'', Str c)]"

definition example_event :: "jsval \<Rightarrow> string \<Rightarrow> string \<Rightarrow> jsval" where
  \<comment> \<open>an event that is well formed but for the given amount, currency and sender email\<close>
  "example_event amt cur mail =
     Obj [(''event_id'', Str ''evt_1''),
          (''event_type'', Str ''payment.completed''),
          (''timestamp'', Str ''2024-01-15T10:30:00Z''),
          (''data'',
           Obj [(''transaction_id'', Str ''txn_1''),
                (''amount'', amt),
                (''currency'', Str cur),
                (''sender'', example_party ''u1'' ''Ann'' mail ''us''),
                (''receiver'', example_party ''u2'' ''Bob'' ''bob@example.co.in'' ''In''),
                (''status'', Str ''completed''),
                (''payment_method'', Str ''card'')])]"

definition example_payload :: jsval where
  "example_payload = example_event (Num (Fin (201 / 2))) ''usd'' ''ann@example.com''"


definition example_env :: env where
  \<comment> \<open>no storage failure, no concurrent request; the HMAC is a stand-in\<close>
  "example_env =
     \<lparr>hmac_sha256 = (\<lambda>k m. k @ m),
      WEBHOOK_SECRET = ''secret'',
      Date_now = 1700000000123,
      new_Date = 1700000000456,
      db_now = 1700000000789,
      generated_id = ''0b5c'',
      storage_fault = (\<lambda>op. None),
      concurrent_commits = []\<rparr>"

definition empty_db :: db where
  "empty_db = \<lparr>transactions = [], audit_logs = []\<rparr>"

definition example_transaction :: transaction where
  \<comment> \<open>the row that \<open>example_payload\<close> produces under \<open>example_env\<close>\<close>
  "example_transaction =
     \<lparr>id_column = Some ''0b5c'',
      event_id = Str ''evt_1'',
      transaction_id = Str ''txn_1'',
      amount = Num (Fin (201 / 2)),
      currency = Str ''USD'',
      sender_id = Str ''u1'',
      sender_name = Str ''Ann'',
      sender_country = Str ''US'',
      receiver_id = Str ''u2'',
      receiver_name = Str ''Bob'',
      receiver_country = Str ''IN'',
      status = Str ''completed'',
      payment_method = Str ''card'',
      processing_fee = Fin (1131529406376837 / 562949953421312),
      net_amount = Fin (6930617614058127 / 70368744177664),
      exchange_rate = None,
      metadata = Undefined,
      processed_at = Some 1700000000456,
      created_at = Some 1700000000789,
      updated_at = Some 1700000000789\<rparr>"

definition racing_env :: env where
  \<comment> \<open>another request commits the same event between the duplicate check and the insert\<close>
  "racing_env = example_env\<lparr>concurrent_commits := [example_transaction]\<rparr>"

definition example_body :: string where
  \<comment> \<open>stands for the JSON text of \<open>example_payload\<close>\<close>
  "example_body = ''{ event evt_1 }''"

definition unsigned_request :: request where
  \<comment> \<open>a request without the signature header\<close>
  "unsigned_request =
     \<lparr>headers = Map.empty, rawBody = example_body, parsed_body = Some example_payload\<rparr>"

definition signed_request :: request where
  \<comment> \<open>a request signed over the raw body, without a timestamp\<close>
  "signed_request =
     \<lparr>headers = [''x-webhook-signature'' \<mapsto> ''secret{ event evt_1 }''],
      rawBody = example_body, parsed_body = Some example_payload\<rparr>"

definition processed_db :: db where
  \<comment> \<open>the tables after \<open>example_payload\<close> has been processed once\<close>
  "processed_db =
     \<lparr>transactions = [example_transaction],
      audit_logs = [audit_entry example_payload ''received'' None,
                    audit_entry example_payload ''processed'' None]\<rparr>"

section \<open>The payload as an object of the store\<close>

text \<open>
  \<open>JSON.parse\<close> builds the request body as objects of the store, and \<open>req.body\<close> refers
  to the outermost of them. A method that is given the payload is given that reference:
  it can read, and could assign, the properties of every object reachable from it. Here
  the methods of \<open>TransactionValidator\<close> are embedded a second time, as actions on the
  store. The objects a method creates for itself (the literal of the required fields and
  its entries, the array of the rest parameter, the error it throws) are values of the
  model; the store holds the objects that exist when the method is called.
\<close>

type_synonym addr = nat

datatype val = VUndefined | VNull | VBool bool | VNum number | VStr string | VRef addr

datatype object = OObj "(string \<times> val) list" | OArr "val list" | ODate int

type_synonym store = "object list"

type_synonym 'a action = "store \<Rightarrow> (js_error + 'a) \<times> store"

definition finish :: "'a \<Rightarrow> 'a action" where
  \<comment> \<open>the end of a statement sequence, with its value\<close>
  "finish x = (\<lambda>h. (Inr x, h))"

definition throw :: "js_error \<Rightarrow> 'a action" where
  "throw err = (\<lambda>h. (Inl err, h))"

definition then_do :: "'a action \<Rightarrow> ('a \<Rightarrow> 'b action) \<Rightarrow> 'b action" where
  \<comment> \<open>sequencing: what follows runs on the store the first part leaves, and an
      exception skips it\<close>
  "then_do m f = (\<lambda>h. case m h of (Inl err, h1) \<Rightarrow> (Inl err, h1) | (Inr x, h1) \<Rightarrow> f x h1)"

definition object_at :: "store \<Rightarrow> addr \<Rightarrow> object option" where
  "object_at h a = (if a < length h then Some (h ! a) else None)"

definition own_prop :: "store \<Rightarrow> val \<Rightarrow> string \<Rightarrow> val" where
  \<comment> \<open>the property \<open>k\<close> of a value, for the property names this program reads: an own
      property of a plain object, and \<open>undefined\<close> in every other case\<close>
  "own_prop h v k =
     (case v of
        VRef a \<Rightarrow>
          (case object_at h a of
             Some (OObj fs) \<Rightarrow> (case map_of fs k of None \<Rightarrow> VUndefined | Some x \<Rightarrow> x)
           | _ \<Rightarrow> VUndefined)
      | _ \<Rightarrow> VUndefined)"

definition read_prop :: "val \<Rightarrow> string \<Rightarrow> val action" where
  \<comment> \<open>the property read \<open>v.k\<close>\<close>
  "read_prop v k =
     (case v of
        VUndefined \<Rightarrow> throw (TypeError (''Cannot read properties of undefined, reading '' @ k))
      | VNull \<Rightarrow> throw (TypeError (''Cannot read properties of null, reading '' @ k))
      | _ \<Rightarrow> (\<lambda>h. (Inr (own_prop h v k), h)))"

definition read_opt :: "val \<Rightarrow> string \<Rightarrow> val action" where
  \<comment> \<open>the optional chain \<open>v?.k\<close>\<close>
  "read_opt v k = (\<lambda>h. (Inr (own_prop h v k), h))"

definition read_prop2 :: "val \<Rightarrow> string \<Rightarrow> string \<Rightarrow> val action" where
  \<comment> \<open>\<open>v.a.b\<close>\<close>
  "read_prop2 v a b = then_do (read_prop v a) (\<lambda>x. read_prop x b)"

definition read_prop3 :: "val \<Rightarrow> string \<Rightarrow> string \<Rightarrow> string \<Rightarrow> val action" where
  \<comment> \<open>\<open>v.a.b.c\<close>\<close>
  "read_prop3 v a b c = then_do (read_prop2 v a b) (\<lambda>x. read_prop x c)"

definition data_opt :: "val \<Rightarrow> string \<Rightarrow> val action" where
  \<comment> \<open>\<open>payload.data?.k\<close>\<close>
  "data_opt payload k = then_do (read_prop payload ''data'') (\<lambda>d. read_opt d k)"

definition data_opt2 :: "val \<Rightarrow> string \<Rightarrow> string \<Rightarrow> val action" where
  \<comment> \<open>\<open>payload.data?.a?.b\<close>\<close>
  "data_opt2 payload a b = then_do (data_opt payload a) (\<lambda>x. read_opt x b)"

fun typeof_val :: "val \<Rightarrow> string" where
  "typeof_val VUndefined = ''undefined''"
| "typeof_val VNull = ''object''"
| "typeof_val (VBool b) = ''boolean''"
| "typeof_val (VNum n) = ''number''"
| "typeof_val (VStr s) = ''string''"
| "typeof_val (VRef a) = ''object''"

fun truthy_val :: "val \<Rightarrow> bool" where
  "truthy_val VUndefined = False"
| "truthy_val VNull = False"
| "truthy_val (VBool b) = b"
| "truthy_val (VNum n) = (\<not> isNaN n \<and> n \<noteq> Fin 0)"
| "truthy_val (VStr s) = (s \<noteq> [])"
| "truthy_val (VRef a) = True"

definition requiredFields_s :: "val \<Rightarrow> (string \<times> val) list action" where
  \<comment> \<open>the object literal of \<open>validateRequired\<close>, property by property\<close>
  "requiredFields_s payload =
     then_do (read_prop payload ''event_id'') (\<lambda>v1.
     then_do (read_prop payload ''event_type'') (\<lambda>v2.
     then_do (data_opt payload ''transaction_id'') (\<lambda>v3.
     then_do (data_opt payload ''amount'') (\<lambda>v4.
     then_do (data_opt payload ''currency'') (\<lambda>v5.
     then_do (data_opt2 payload ''sender'' ''id'') (\<lambda>v6.
     then_do (data_opt2 payload ''sender'' ''name'') (\<lambda>v7.
     then_do (data_opt2 payload ''sender'' ''email'') (\<lambda>v8.
     then_do (data_opt2 payload ''sender'' ''country'') (\<lambda>v9.
     then_do (data_opt2 payload ''receiver'' ''id'') (\<lambda>v10.
     then_do (data_opt2 payload ''receiver'' ''name'') (\<lambda>v11.
     then_do (data_opt2 payload ''receiver'' ''email'') (\<lambda>v12.
     then_do (data_opt2 payload ''receiver'' ''country'') (\<lambda>v13.
     then_do (data_opt payload ''status'') (\<lambda>v14.
     then_do (data_opt payload ''payment_method'') (\<lambda>v15.
       finish [(''event_id'', v1),
               (''event_type'', v2),
               (''data.transaction_id'', v3),
               (''data.amount'', v4),
               (''data.currency'', v5),
               (''data.sender.id'', v6),
               (''data.sender.name'', v7),
               (''data.sender.email'', v8),
               (''data.sender.country'', v9),
               (''data.receiver.id'', v10),
               (''data.receiver.name'', v11),
               (''data.receiver.email'', v12),
               (''data.receiver.country'', v13),
               (''data.status'', v14),
               (''data.payment_method'', v15)])))))))))))))))"

fun check_required_s :: "(string \<times> val) list \<Rightarrow> unit action" where
  \<comment> \<open>the loop over \<open>Object.entries(requiredFields)\<close>\<close>
  "check_required_s [] = finish ()"
| "check_required_s ((name, v) # rest) =
     (if v = VUndefined \<or> v = VNull \<or> v = VStr []
      then throw (ValidationError name (name @ '' is required''))
      else check_required_s rest)"

definition validateRequired_s :: "val \<Rightarrow> unit action" where
  "validateRequired_s payload = then_do (requiredFields_s payload) check_required_s"

definition validateAmount_s :: "val \<Rightarrow> unit action" where
  "validateAmount_s v =
     (case v of
        VNum a \<Rightarrow>
          if isNaN a then throw (ValidationError ''amount'' ''Amount must be a valid number'')
          else if num_le a (Fin 0)
          then throw (ValidationError ''amount'' ''Amount must be a positive number'')
          else if (case decimals_length a of None \<Rightarrow> False | Some n \<Rightarrow> 2 < n)
          then throw (ValidationError ''amount''
                 ''Amount cannot have more than 2 decimal places'')
          else finish ()
      | _ \<Rightarrow> throw (ValidationError ''amount'' ''Amount must be a valid number''))"

definition validateCurrency_s :: "val \<Rightarrow> unit action" where
  \<comment> \<open>\<open>upperCurrency\<close> is a new string; \<open>currency\<close> is not assigned\<close>
  "validateCurrency_s v =
     (if \<not> truthy_val v \<or> typeof_val v \<noteq> ''string''
      then throw (ValidationError ''currency'' ''Currency is required'')
      else case v of
             VStr s \<Rightarrow>
               if toUpperCase s \<in> set VALID_CURRENCIES then finish ()
               else throw (ValidationError ''currency''
                      (''Currency must be a valid ISO code. Supported: ''
                         @ join '', '' VALID_CURRENCIES))
           | _ \<Rightarrow> throw (TypeError ''currency.toUpperCase is not a function''))"

definition validateStatus_s :: "val \<Rightarrow> unit action" where
  "validateStatus_s st =
     (if \<not> truthy_val st \<or> typeof_val st \<noteq> ''string''
      then throw (ValidationError ''status'' ''Status is required'')
      else if st \<in> VStr ` set VALID_STATUSES then finish ()
      else throw (ValidationError ''status''
             (''Status must be one of: '' @ join '', '' VALID_STATUSES)))"

fun validateCountryCodes_from_s :: "int \<Rightarrow> val list \<Rightarrow> unit action" where
  \<comment> \<open>the \<open>forEach\<close> over the rest parameter, from the given index; \<open>upperCountry\<close> is
      a new string\<close>
  "validateCountryCodes_from_s index [] = finish ()"
| "validateCountryCodes_from_s index (country # rest) =
     (if \<not> truthy_val country \<or> typeof_val country \<noteq> ''string''
      then throw (ValidationError (''country_'' @ digits10 index) ''Country code is required'')
      else case country of
             VStr s \<Rightarrow>
               if \<not> rx_match iso2Regex (toUpperCase s)
               then throw (ValidationError (''country_'' @ digits10 index)
                      (''Country code must be 2-letter ISO code (e.g., US, IN, GB). Received: ''
                         @ s))
               else validateCountryCodes_from_s (index + 1) rest
           | _ \<Rightarrow> throw (TypeError ''country.toUpperCase is not a function''))"

definition validateCountryCodes_s :: "val list \<Rightarrow> unit action" where
  "validateCountryCodes_s countries = validateCountryCodes_from_s 0 countries"

definition validateEmail_s :: "val \<Rightarrow> string \<Rightarrow> unit action" where
  "validateEmail_s email fieldName =
     (if \<not> truthy_val email \<or> typeof_val email \<noteq> ''string''
      then throw (ValidationError fieldName (fieldName @ '' is required''))
      else case email of
             VStr s \<Rightarrow>
               if \<not> rx_match emailRegex s
               then throw (ValidationError fieldName
                      (fieldName @ '' must be a valid email address''))
               else finish ()
           | _ \<Rightarrow> throw (TypeError ''emailRegex.test''))"

definition validate_s :: "val \<Rightarrow> unit action" where
  \<comment> \<open>\<open>TransactionValidator.validate\<close>, statement by statement\<close>
  "validate_s payload =
     then_do (validateRequired_s payload) (\<lambda>_.
     then_do (read_prop2 payload ''data'' ''amount'') (\<lambda>a.
     then_do (validateAmount_s a) (\<lambda>_.
     then_do (read_prop2 payload ''data'' ''currency'') (\<lambda>c.
     then_do (validateCurrency_s c) (\<lambda>_.
     then_do (read_prop2 payload ''data'' ''status'') (\<lambda>st.
     then_do (validateStatus_s st) (\<lambda>_.
     then_do (read_prop3 payload ''data'' ''sender'' ''country'') (\<lambda>sc.
     then_do (read_prop3 payload ''data'' ''receiver'' ''country'') (\<lambda>rc.
     then_do (validateCountryCodes_s [sc, rc]) (\<lambda>_.
     then_do (read_prop3 payload ''data'' ''sender'' ''email'') (\<lambda>se.
     then_do (validateEmail_s se ''sender.email'') (\<lambda>_.
     then_do (read_prop3 payload ''data'' ''receiver'' ''email'') (\<lambda>re.
     validateEmail_s re ''receiver.email'')))))))))))))"

subsection \<open>The objects of a parsed body\<close>

fun alloc :: "jsval \<Rightarrow> store \<Rightarrow> val \<times> store"
  and alloc_fields :: "(string \<times> jsval) list \<Rightarrow> store \<Rightarrow> (string \<times> val) list \<times> store"
  and alloc_elems :: "jsval list \<Rightarrow> store \<Rightarrow> val list \<times> store" where
  \<comment> \<open>a value as \<open>JSON.parse\<close> builds it: every object and array is a new object of the
      store, made after its parts\<close>
  "alloc Undefined h = (VUndefined, h)"
| "alloc Null h = (VNull, h)"
| "alloc (Bool b) h = (VBool b, h)"
| "alloc (Num n) h = (VNum n, h)"
| "alloc (Str s) h = (VStr s, h)"
| "alloc (Arr xs) h =
     (case alloc_elems xs h of (vs, h1) \<Rightarrow> (VRef (length h1), h1 @ [OArr vs]))"
| "alloc (Obj kvs) h =
     (case alloc_fields kvs h of (fs, h1) \<Rightarrow> (VRef (length h1), h1 @ [OObj fs]))"
| "alloc (Date t) h = (VRef (length h), h @ [ODate t])"
| "alloc_fields [] h = ([], h)"
| "alloc_fields (kv # kvs) h =
     (case alloc (snd kv) h of
        (x, h1) \<Rightarrow> (case alloc_fields kvs h1 of (fs, h2) \<Rightarrow> ((fst kv, x) # fs, h2)))"
| "alloc_elems [] h = ([], h)"
| "alloc_elems (p # ps) h =
     (case alloc p h of
        (x, h1) \<Rightarrow> (case alloc_elems ps h1 of (vs, h2) \<Rightarrow> (x # vs, h2)))"

fun represents :: "store \<Rightarrow> val \<Rightarrow> jsval \<Rightarrow> bool"
  and represents_fields :: "store \<Rightarrow> (string \<times> val) list \<Rightarrow> (string \<times> jsval) list \<Rightarrow> bool"
  and represents_elems :: "store \<Rightarrow> val list \<Rightarrow> jsval list \<Rightarrow> bool" where
  \<comment> \<open>the value \<open>v\<close> of the store \<open>h\<close> is the value \<open>p\<close>, property by property\<close>
  "represents h v Undefined = (v = VUndefined)"
| "represents h v Null = (v = VNull)"
| "represents h v (Bool b) = (v = VBool b)"
| "represents h v (Num n) = (v = VNum n)"
| "represents h v (Str s) = (v = VStr s)"
| "represents h v (Arr ps) =
     (case v of
        VRef a \<Rightarrow> (case object_at h a of Some (OArr vs) \<Rightarrow> represents_elems h vs ps | _ \<Rightarrow> False)
      | _ \<Rightarrow> False)"
| "represents h v (Obj kvs) =
     (case v of
        VRef a \<Rightarrow> (case object_at h a of Some (OObj fs) \<Rightarrow> represents_fields h fs kvs | _ \<Rightarrow> False)
      | _ \<Rightarrow> False)"
| "represents h v (Date t) =
     (case v of
        VRef a \<Rightarrow> (case object_at h a of Some (ODate t') \<Rightarrow> t' = t | _ \<Rightarrow> False)
      | _ \<Rightarrow> False)"
| "represents_fields h fs [] = (fs = [])"
| "represents_fields h fs (kv # kvs) =
     (case fs of
        [] \<Rightarrow> False
      | f # fs' \<Rightarrow> fst f = fst kv \<and> represents h (snd f) (snd kv) \<and> represents_fields h fs' kvs)"
| "represents_elems h vs [] = (vs = [])"
| "represents_elems h vs (p # ps) =
     (case vs of
        [] \<Rightarrow> False
      | x # vs' \<Rightarrow> represents h x p \<and> represents_elems h vs' ps)"

definition example_store :: store where
  \<comment> \<open>the objects of \<open>example_payload\<close> as \<open>alloc\<close> makes them in the empty store:
      sender, receiver, \<open>data\<close>, the payload\<close>
  "example_store =
     [OObj [(''id'', VStr ''u1''), (''name'', VStr ''Ann''),
            (''email'', VStr ''ann@example.com''), (''country'', VStr ''us'')],
      OObj [(''id'', VStr ''u2''), (''name'', VStr ''Bob''),
            (''email'', VStr ''bob@example.co.in''), (''country'', VStr ''In'')],
      OObj [(''transaction_id'', VStr ''txn_1''),
            (''amount'', VNum (Fin (201 / 2))),
            (''currency'', VStr ''usd''),
            (''sender'', VRef 0),
            (''receiver'', VRef 1),
            (''status'', VStr ''completed''),
            (''payment_method'', VStr ''card'')],
      OObj [(''event_id'', VStr ''evt_1''),
            (''event_type'', VStr ''payment.completed''),
            (''timestamp'', VStr ''2024-01-15T10:30:00Z''),
            (''data'', VRef 2)]]"

section \<open>Properties\<close>

subsection \<open>Auxiliary facts\<close>

lemma verify_iff: "verify hmac secret payload s \<longleftrightarrow> s = hmac secret payload"
  by (auto simp: verify_def timingSafeEqual_def)

lemma logWebhookEvent_transactions [simp]:
  "transactions (logWebhookEvent e d payload st err) = transactions d"
  by (auto simp: logWebhookEvent_def write_audit_log_def save_audit_log_def and_then_def
           split: sum.splits option.splits)

lemma snd_validate [simp]: "snd (validate payload) = payload"
  by (simp add: validate_def validateRequired_def split: sum.splits)

lemma try_processWebhook_eq:
  "try_processWebhook e d payload =
     (case fst (validate payload) of
        Inl err \<Rightarrow> ((Inl err, d), payload)
      | Inr _ \<Rightarrow> (persist e d payload, payload))"
  using snd_validate [of payload]
  by (cases "validate payload") (auto simp: try_processWebhook_def split: sum.splits)

subsection \<open>Reading the payload\<close>

lemma get_prop_opt: "v \<noteq> Undefined \<Longrightarrow> v \<noteq> Null \<Longrightarrow> get_prop v k = Inr (opt_prop v k)"
  by (cases v) simp_all

lemma opt_prop_present: "opt_prop v k \<noteq> Undefined \<Longrightarrow> v \<noteq> Undefined \<and> v \<noteq> Null"
  by (cases v) simp_all

lemma field_simps [simp]:
  "field v [] = v"
  "field v (k # ks) = field (opt_prop v k) ks"
  by (simp_all add: field_def)

lemma requiredFields_eq:
  "p \<noteq> Undefined \<Longrightarrow> p \<noteq> Null \<Longrightarrow>
   requiredFields p = Inr (map (\<lambda>path. (join ''.'' path, field p path)) required_paths)"
  by (simp add: requiredFields_def get_prop_opt and_then_def required_paths_def)

lemma check_required_find:
  "check_required (map (\<lambda>path. (name path, field p path)) paths) =
     (case find (\<lambda>path. missing (field p path)) paths of
        None \<Rightarrow> Inr ()
      | Some path \<Rightarrow> Inl (ValidationError (name path) (name path @ '' is required'')))"
  by (induction paths) (simp_all add: missing_def)

lemma validateRequired_eq:
  "p \<noteq> Undefined \<Longrightarrow> p \<noteq> Null \<Longrightarrow> fst (validateRequired p) = required_rule p"
  by (simp add: validateRequired_def requiredFields_eq and_then_def check_required_find
        required_rule_def)

lemma required_rule_ok:
  "p \<noteq> Undefined \<Longrightarrow> p \<noteq> Null \<Longrightarrow> required_rule p = Inr () \<longleftrightarrow> required_present p"
  by (auto simp: required_rule_def required_present_def find_None_iff list_all_iff find_Some_iff
           split: option.splits)

lemma required_present_props:
  assumes "required_present p"
  shows "get_prop p k = Inr (field p [k])"
    and "get_prop2 p ''data'' k = Inr (field p [''data'', k])"
    and "get_prop3 p ''data'' ''sender'' k = Inr (field p [''data'', ''sender'', k])"
    and "get_prop3 p ''data'' ''receiver'' k = Inr (field p [''data'', ''receiver'', k])"
proof -
  from assms have p: "p \<noteq> Undefined" "p \<noteq> Null"
    and t: "\<not> missing (field p [''data'', ''transaction_id''])"
    and s: "\<not> missing (field p [''data'', ''sender'', ''id''])"
    and r: "\<not> missing (field p [''data'', ''receiver'', ''id''])"
    by (simp_all add: required_present_def required_paths_def)
  from t have d: "opt_prop p ''data'' \<noteq> Undefined" "opt_prop p ''data'' \<noteq> Null"
    using opt_prop_present [of "opt_prop p ''data''" "''transaction_id''"]
    by (auto simp: missing_def)
  from s have sd: "opt_prop (opt_prop p ''data'') ''sender'' \<noteq> Undefined"
      "opt_prop (opt_prop p ''data'') ''sender'' \<noteq> Null"
    using opt_prop_present [of "opt_prop (opt_prop p ''data'') ''sender''" "''id''"]
    by (auto simp: missing_def)
  from r have rd: "opt_prop (opt_prop p ''data'') ''receiver'' \<noteq> Undefined"
      "opt_prop (opt_prop p ''data'') ''receiver'' \<noteq> Null"
    using opt_prop_present [of "opt_prop (opt_prop p ''data'') ''receiver''" "''id''"]
    by (auto simp: missing_def)
  show "get_prop p k = Inr (field p [k])"
    by (simp add: get_prop_opt p)
  show "get_prop2 p ''data'' k = Inr (field p [''data'', k])"
    by (simp add: get_prop2_def get_prop_opt p d and_then_def)
  show "get_prop3 p ''data'' ''sender'' k = Inr (field p [''data'', ''sender'', k])"
    by (simp add: get_prop3_def get_prop2_def get_prop_opt p d sd and_then_def)
  show "get_prop3 p ''data'' ''receiver'' k = Inr (field p [''data'', ''receiver'', k])"
    by (simp add: get_prop3_def get_prop2_def get_prop_opt p d rd and_then_def)
qed

lemma validateCountryCodes_two:
  "validateCountryCodes [a, b] =
     first_failure [validateCountryCodes_from 0 [a], validateCountryCodes_from 1 [b]]"
  by (simp add: validateCountryCodes_def split: jsval.splits sum.splits)

lemma validate_fields_eq:
  assumes "required_present p"
  shows "validate_fields p = first_failure (tl (rule_outcomes p))"
  by (simp add: validate_fields_def required_present_props [OF assms] and_then_def
        rule_outcomes_def validateCountryCodes_two split: sum.splits)

lemma validate_eq:
  assumes "p \<noteq> Undefined" "p \<noteq> Null"
  shows "fst (validate p) = first_failure (rule_outcomes p)"
proof (cases "required_rule p")
  case (Inl err)
  with assms show ?thesis
    using validateRequired_eq [OF assms]
    by (cases "validateRequired p") (simp add: validate_def rule_outcomes_def)
next
  case (Inr u)
  with assms have rp: "required_present p" by (simp add: required_rule_ok [symmetric])
  from Inr assms have "fst (validateRequired p) = Inr ()"
    by (simp add: validateRequired_eq)
  then have "validateRequired p = (Inr (), p)"
    by (simp add: validateRequired_def)
  then have "fst (validate p) = validate_fields p"
    by (simp add: validate_def)
  with Inr show ?thesis
    by (simp add: validate_fields_eq [OF rp]) (simp add: rule_outcomes_def)
qed

subsection \<open>Powers, logarithms and decimal digits\<close>

lemma ipow_power: "0 \<le> e \<Longrightarrow> ipow b e = b ^ nat e"
proof (induction b e rule: ipow.induct)
  case (1 b e)
  show ?case
  proof (cases "e \<le> 0")
    case True
    with 1 show ?thesis by (simp add: ipow.simps)
  next
    case False
    then have pos: "0 < e" by simp
    then have h: "0 \<le> e div 2" by simp
    have ih: "ipow (b * b) (e div 2) = (b * b) ^ nat (e div 2)"
    proof (cases "even e")
      case True
      with 1(1) False h show ?thesis by simp
    next
      case odd: False
      with 1(2) False h show ?thesis by simp
    qed
    have sq: "(b * b) ^ nat (e div 2) = b ^ (2 * nat (e div 2))"
      by (simp add: power_mult power2_eq_square)
    show ?thesis
    proof (cases "even e")
      case True
      then have "nat e = 2 * nat (e div 2)" using pos by (auto elim!: evenE)
      with ih sq True False show ?thesis by (simp add: ipow.simps [of b e])
    next
      case odd: False
      then have "nat e = Suc (2 * nat (e div 2))" using pos by (auto elim!: oddE simp: nat_add_distrib nat_mult_distrib)
      with ih sq odd False show ?thesis by (simp add: ipow.simps [of b e])
    qed
  qed
qed

lemma bpow_nonneg: "0 \<le> e \<Longrightarrow> bpow b e = of_int b ^ nat e"
  by (simp add: bpow_def ipow_power)

lemma bpow_neg: "e < 0 \<Longrightarrow> bpow b e = 1 / of_int b ^ nat (- e)"
  by (simp add: bpow_def ipow_power)

lemma bpow_pos: "0 < b \<Longrightarrow> 0 < bpow b e"
  by (cases "0 \<le> e") (simp_all add: bpow_nonneg bpow_neg)

lemma bpow_diff: "b \<noteq> 0 \<Longrightarrow> bpow b (int x - int y) = of_int b ^ x / of_int b ^ y"
proof (cases "y \<le> x")
  case True
  assume "b \<noteq> 0"
  with True show ?thesis
    by (simp add: bpow_nonneg power_diff flip: of_nat_diff)
next
  case False
  assume b: "b \<noteq> 0"
  from False have "nat (int y - int x) = y - x" by simp
  with False b show ?thesis
    by (simp add: bpow_neg power_diff field_simps)
qed

lemma bpow_Suc: "b \<noteq> 0 \<Longrightarrow> bpow b (e + 1) = of_int b * bpow b e"
proof -
  assume b: "b \<noteq> 0"
  have "e = int (nat e) - int (nat (- e))" by simp
  then obtain x y where e: "e = int x - int y" by blast
  have "e + 1 = int (Suc x) - int y" using e by simp
  then have "bpow b (e + 1) = bpow b (int (Suc x) - int y)" by (rule arg_cong)
  also have "\<dots> = of_int b ^ Suc x / of_int b ^ y" by (rule bpow_diff [OF b])
  also have "\<dots> = of_int b * (of_int b ^ x / of_int b ^ y)" by simp
  also have "of_int b ^ x / of_int b ^ y = bpow b (int x - int y)" by (rule bpow_diff [OF b, symmetric])
  finally show ?thesis by (simp only: e)
qed

lemma bpow_mono: "1 \<le> b \<Longrightarrow> x \<le> y \<Longrightarrow> bpow b x \<le> bpow b y"
proof -
  assume b: "1 \<le> b" and xy: "x \<le> y"
  have step: "bpow b z \<le> bpow b (z + 1)" for z
  proof -
    have "bpow b (z + 1) = of_int b * bpow b z" using bpow_Suc [of b z] b by simp
    moreover have "bpow b z \<le> of_int b * bpow b z"
      using b bpow_pos [of b z] by (simp add: mult_le_cancel_right1)
    ultimately show ?thesis by simp
  qed
  have "bpow b x \<le> bpow b (x + int n)" for n
  proof (induction n)
    case 0
    show ?case by simp
  next
    case (Suc n)
    have "x + int (Suc n) = (x + int n) + 1" by simp
    then have "bpow b (x + int (Suc n)) = bpow b ((x + int n) + 1)" by (rule arg_cong)
    with step [of "x + int n"] Suc show ?case by simp
  qed
  from this [of "nat (y - x)"] xy show ?thesis by simp
qed

lemma bpow_less_cancel: "1 \<le> b \<Longrightarrow> bpow b x < bpow b y \<Longrightarrow> x < y"
  using bpow_mono [of b y x] by (cases "y \<le> x") auto

lemma ndigits_bounds:
  "2 \<le> b \<Longrightarrow> 1 \<le> n \<Longrightarrow>
   1 \<le> ndigits b n \<and> b ^ nat (ndigits b n - 1) \<le> n \<and> n < b ^ nat (ndigits b n)"
proof (induction b n rule: ndigits.induct)
  case (1 b n)
  show ?case
  proof (cases "n < b \<or> b < 2")
    case True
    with 1(2,3) show ?thesis by (simp add: ndigits.simps [of b n])
  next
    case False
    then have nb: "b \<le> n" by simp
    have "b div b \<le> n div b" using nb 1(2) by (intro zdiv_mono1) simp_all
    then have "1 \<le> n div b" using 1(2) by simp
    with 1(1) [OF False 1(2)] have ih: "1 \<le> ndigits b (n div b)"
        "b ^ nat (ndigits b (n div b) - 1) \<le> n div b"
        "n div b < b ^ nat (ndigits b (n div b))" by simp_all
    have eq: "ndigits b n = 1 + ndigits b (n div b)"
      using False by (simp add: ndigits.simps [of b n])
    have n1: "nat (ndigits b n - 1) = Suc (nat (ndigits b (n div b) - 1))"
      using ih(1) eq by simp
    have n2: "nat (ndigits b n) = Suc (nat (ndigits b (n div b)))"
      using ih(1) eq by simp
    have bpos: "0 < b" using 1(2) by simp
    have lo: "b * b ^ nat (ndigits b (n div b) - 1) \<le> n"
    proof -
      have "b * b ^ nat (ndigits b (n div b) - 1) \<le> b * (n div b)"
        using ih(2) bpos by simp
      also have "\<dots> \<le> n"
        using mult_div_mod_eq [of b n] pos_mod_sign [OF bpos, of n] by linarith
      finally show ?thesis .
    qed
    have hi: "n < b * b ^ nat (ndigits b (n div b))"
    proof -
      have "n div b + 1 \<le> b ^ nat (ndigits b (n div b))" using ih(3) by simp
      then have "b * (n div b + 1) \<le> b * b ^ nat (ndigits b (n div b))"
        using bpos by simp
      moreover have "b * (n div b + 1) = b * (n div b) + b" by (simp add: algebra_simps)
      then have "n < b * (n div b + 1)"
        using mult_div_mod_eq [of b n] pos_mod_bound [OF bpos, of n] by linarith
      ultimately show ?thesis by simp
    qed
    show ?thesis
    proof (intro conjI)
      show "1 \<le> ndigits b n" using eq ih(1) by simp
      show "b ^ nat (ndigits b n - 1) \<le> n" unfolding n1 using lo by simp
      show "n < b ^ nat (ndigits b n)" unfolding n2 using hi by simp
    qed
  qed
qed


lemma ilog_bounds:
  assumes b: "2 \<le> b" and q: "0 < q"
  shows "bpow b (ilog b q) \<le> q \<and> q < bpow b (ilog b q + 1)"
proof -
  obtain a d where qd: "quotient_of q = (a, d)" by (cases "quotient_of q")
  have d: "0 < d" using qd by (rule quotient_of_denom_pos)
  have qv: "q = of_int a / of_int d" using qd by (rule quotient_of_div)
  have a: "0 < a" using q d qv by (simp add: zero_less_divide_iff)
  define x where "x = nat (ndigits b a)"
  define y where "y = nat (ndigits b d)"
  have A: "1 \<le> ndigits b a" "b ^ nat (ndigits b a - 1) \<le> a" "a < b ^ nat (ndigits b a)"
    using ndigits_bounds [OF b, of a] a by simp_all
  have D: "1 \<le> ndigits b d" "b ^ nat (ndigits b d - 1) \<le> d" "d < b ^ nat (ndigits b d)"
    using ndigits_bounds [OF b, of d] d by simp_all
  have x1: "nat (ndigits b a - 1) = x - 1" and y1: "nat (ndigits b d - 1) = y - 1"
    using A(1) D(1) by (simp_all add: x_def y_def nat_diff_distrib)
  have xa: "1 \<le> x" "b ^ (x - 1) \<le> a" "a < b ^ x" "ndigits b a = int x"
    using A(1) A(2) [unfolded x1] A(3) by (simp_all add: x_def)
  have yd: "1 \<le> y" "b ^ (y - 1) \<le> d" "d < b ^ y" "ndigits b d = int y"
    using D(1) D(2) [unfolded y1] D(3) by (simp_all add: y_def)
  have b0: "b \<noteq> 0" and bp: "0 < b" using b by simp_all
  have rb: "(0::rat) < of_int b" using bp by simp
  define g where "g = int x - int y"
  have lo: "bpow b (g - 1) < q"
  proof -
    have "g - 1 = int (x - 1) - int y" using xa(1) by (simp add: g_def)
    then have "bpow b (g - 1) = of_int b ^ (x - 1) / of_int b ^ y"
      using bpow_diff [OF b0, of "x - 1" y] by simp
    moreover have "(of_int b ^ (x - 1) :: rat) / of_int b ^ y < of_int a / of_int d"
    proof -
      have "(of_int (b ^ (x - 1)) :: rat) \<le> of_int a" using xa(2) by (simp only: of_int_le_iff)
      moreover have "(of_int d :: rat) < of_int (b ^ y)" using yd(3) by (simp only: of_int_less_iff)
      moreover have "(0::rat) < of_int d" using d by simp
      moreover have "(0::rat) < of_int b ^ (x - 1)" using rb by simp
      ultimately have "(of_int b ^ (x - 1) :: rat) * of_int d < of_int a * of_int b ^ y"
        by (smt (verit) mult_less_le_imp_less mult.commute of_int_power of_int_pos a mult_le_less_imp_less less_eq_rat_def)
      then show ?thesis using rb d by (simp add: divide_less_eq less_divide_eq field_simps)
    qed
    ultimately show ?thesis by (simp add: qv)
  qed
  have hi: "q < bpow b (g + 1)"
  proof -
    have "g + 1 = int x - int (y - 1)" using yd(1) by (simp add: g_def)
    then have "bpow b (g + 1) = of_int b ^ x / of_int b ^ (y - 1)"
      using bpow_diff [OF b0, of x "y - 1"] by simp
    moreover have "of_int a / of_int d < (of_int b ^ x :: rat) / of_int b ^ (y - 1)"
    proof -
      have "(of_int a :: rat) < of_int (b ^ x)" using xa(3) by (simp only: of_int_less_iff)
      moreover have "(of_int (b ^ (y - 1)) :: rat) \<le> of_int d" using yd(2) by (simp only: of_int_le_iff)
      moreover have "(0::rat) < of_int a" using a by simp
      moreover have "(0::rat) < of_int b ^ (y - 1)" using rb by simp
      ultimately have "(of_int a :: rat) * of_int b ^ (y - 1) < of_int b ^ x * of_int d"
        by (smt (verit) mult_less_le_imp_less mult.commute of_int_power mult_le_less_imp_less less_eq_rat_def)
      then show ?thesis using rb d by (simp add: divide_less_eq less_divide_eq field_simps)
    qed
    ultimately show ?thesis by (simp add: qv)
  qed
  have il: "ilog b q = (if bpow b g \<le> q then g else g - 1)"
    by (simp add: ilog_def ilog_adjust_def qd xa(4) yd(4) g_def)
  show ?thesis
  proof (cases "bpow b g \<le> q")
    case True
    with il hi show ?thesis by simp
  next
    case False
    with il lo show ?thesis by simp
  qed
qed


lemma char_code_digit_char: "0 \<le> d \<Longrightarrow> d \<le> 9 \<Longrightarrow> char_code (digit_char d) = 48 + d"
  by (simp add: char_code_def digit_char_def)

lemma digit_char_props:
  assumes "0 \<le> d" "d \<le> 9"
  shows "is_digit (digit_char d)" and "digit_char d \<noteq> CHR ''.''"
    and "digit_of 10 (digit_char d) = Some d"
proof -
  show "is_digit (digit_char d)"
    using assms by (simp add: is_digit_def char_code_digit_char)
  show "digit_of 10 (digit_char d) = Some d"
    using assms by (simp add: digit_of_def char_code_digit_char)
  show "digit_char d \<noteq> CHR ''.''"
  proof
    assume "digit_char d = CHR ''.''"
    then have "char_code (digit_char d) = char_code (CHR ''.'')" by simp
    with assms show False by (simp add: char_code_digit_char) (simp add: char_code_def)
  qed
qed

lemma digits_value_snoc:
  "digits_value 10 (xs @ [c]) =
     digits_value 10 xs * 10 + (case digit_of 10 c of None \<Rightarrow> 0 | Some d \<Rightarrow> d)"
  by (simp add: digits_value_def)

lemma digits10_props:
  "0 \<le> n \<Longrightarrow>
   (\<forall>c \<in> set (digits10 n). is_digit c \<and> c \<noteq> CHR ''.'') \<and> digits10 n \<noteq> []
   \<and> digits_value 10 (digits10 n) = n"
proof (induction n rule: digits10.induct)
  case (1 n)
  show ?case
  proof (cases "n < 10")
    case True
    with 1(2) show ?thesis
      using digit_char_props [of n]
      by (simp add: digits10.simps [of n] digits_value_def)
  next
    case False
    then have ih: "(\<forall>c \<in> set (digits10 (n div 10)). is_digit c \<and> c \<noteq> CHR ''.'')"
        "digits_value 10 (digits10 (n div 10)) = n div 10"
      using 1 by simp_all
    have m: "0 \<le> n mod 10" "n mod 10 \<le> 9" by simp_all
    from False ih digit_char_props [OF m] show ?thesis
      by (simp add: digits10.simps [of n] digits_value_snoc)
  qed
qed

lemma digits10_length:
  "10 ^ k \<le> n \<Longrightarrow> n < 10 ^ Suc k \<Longrightarrow> length (digits10 n) = Suc k"
proof (induction k arbitrary: n)
  case 0
  then show ?case by (simp add: digits10.simps [of n])
next
  case (Suc k)
  have "(10::int) \<le> 10 ^ Suc k" by simp
  with Suc.prems have n10: "\<not> n < 10" by linarith
  have lo: "10 ^ k \<le> n div 10"
  proof -
    have "(10 ^ Suc k) div 10 \<le> n div 10" using Suc.prems(1) by (intro zdiv_mono1) simp_all
    then show ?thesis by simp
  qed
  have hi: "n div 10 < 10 ^ Suc k"
  proof -
    have "n < 10 * 10 ^ Suc k" using Suc.prems(2) by simp
    then show ?thesis by (simp add: div_less_iff_less_mult algebra_simps)
  qed
  from Suc.IH [OF lo hi] n10 show ?case by (simp add: digits10.simps [of n])
qed

lemma split_on_no_separator: "c \<notin> set s \<Longrightarrow> split_on c s = [s]"
  by (induction s) auto

lemma split_on_separator:
  "c \<notin> set a \<Longrightarrow> split_on c (a @ c # r) = a # split_on c r"
  by (induction a) (auto split: list.splits)

lemma pick_closest_cases: "pick_closest t lo = lo \<or> pick_closest t lo = lo + 1"
  by (simp add: pick_closest_def)

lemma digits_at_sound: "digits_at q n k = Some s \<Longrightarrow> decimal_candidate q n k s"
  using pick_closest_cases [of "q * bpow 10 (k - n)" "\<lfloor>q * bpow 10 (k - n)\<rfloor>"]
  by (auto simp: digits_at_def choose_digits_def split: if_splits)

lemma shortest_from_sound:
  "shortest_from q n ks = Some (s, k) \<Longrightarrow> decimal_candidate q n k s \<and> k \<in> set ks"
  by (induction ks) (auto split: option.splits dest: digits_at_sound)


lemma bpow_add: "b \<noteq> 0 \<Longrightarrow> bpow b (x + y) = bpow b x * bpow b y"
proof -
  assume b: "b \<noteq> 0"
  have "x = int (nat x) - int (nat (- x))" "y = int (nat y) - int (nat (- y))" by simp_all
  then obtain x1 x2 y1 y2 where x: "x = int x1 - int x2" and y: "y = int y1 - int y2" by blast
  have "x + y = int (x1 + y1) - int (x2 + y2)" using x y by simp
  then have "bpow b (x + y) = bpow b (int (x1 + y1) - int (x2 + y2))" by (rule arg_cong)
  also have "\<dots> = of_int b ^ (x1 + y1) / of_int b ^ (x2 + y2)" by (rule bpow_diff [OF b])
  also have "\<dots> = (of_int b ^ x1 / of_int b ^ x2) * (of_int b ^ y1 / of_int b ^ y2)"
    by (simp add: power_add)
  also have "\<dots> = bpow b x * bpow b y"
    unfolding x y by (simp only: bpow_diff [OF b])
  finally show ?thesis .
qed

lemma accepted_two_decimals:
  assumes q: "0 < q" and found: "has_shortest_decimal q"
    and lo: "1 / 1000000 \<le> q" and hi: "q < 1000000000000000000000"
    and acc: "case decimals_length (Fin q) of None \<Rightarrow> True | Some m \<Rightarrow> m \<le> 2"
  shows "\<exists>c::int. to_double (of_int c / 100) = Fin q"
proof -
  define n0 where "n0 = ilog 10 q + 1"
  let ?ks = "[1, 2, 3, 4, 5, 6, 7, 8, 9, 10, 11, 12, 13, 14, 15, 16, 17] :: int list"
  from found obtain s k where sf: "shortest_from q n0 ?ks = Some (s, k)"
    by (auto simp: has_shortest_decimal_def n0_def)
  from shortest_from_sound [OF sf]
  have c1: "bpow 10 (k - 1) \<le> of_int s" and c2: "of_int s \<le> bpow 10 k"
    and c3: "to_double (of_int s * bpow 10 (n0 - k)) = Fin q"
    and k: "1 \<le> k" "k \<le> 17"
    by (auto simp: decimal_candidate_def)
  define kk where "kk = nat (k - 1)"
  have kkk: "k = int (Suc kk)" using k by (simp add: kk_def)
  define s' where "s' = (if of_int s = bpow 10 k then s div 10 else s)"
  define n' where "n' = (if of_int s = bpow 10 k then n0 + 1 else n0)"
  have "shortest_at q n0 = carry_digits n0 (s, k)"
    unfolding shortest_at_def sf by simp
  then have sd: "shortest_digits q = (s', n')"
    by (simp add: shortest_digits_def carry_digits_def s'_def n'_def flip: n0_def)
  have ten: "(10::int) \<noteq> 0" by simp
  have natk: "nat k = Suc kk" "nat (k - 1) = kk" using k by (simp_all add: kk_def)
  have bk: "bpow 10 k = of_int (10 ^ Suc kk)" "bpow 10 (k - 1) = of_int (10 ^ kk)"
    using k by (simp_all add: bpow_nonneg natk)
  have ceq: "(of_int s = bpow 10 k) = (s = 10 ^ Suc kk)"
    unfolding bk by (simp only: of_int_eq_iff)
  have i1: "10 ^ kk \<le> s" using c1 unfolding bk by (simp only: of_int_le_iff)
  have i2: "s \<le> 10 ^ Suc kk" using c2 unfolding bk by (simp only: of_int_le_iff)
  have s'e: "s' = (if s = 10 ^ Suc kk then s div 10 else s)"
    and n'e: "n' = (if s = 10 ^ Suc kk then n0 + 1 else n0)"
    by (simp_all only: s'_def n'_def ceq)
  have s'b: "10 ^ kk \<le> s'" "s' < 10 ^ Suc kk"
    using i1 i2 by (auto simp: s'e)
  have val: "of_int s' * bpow 10 (n' - k) = of_int s * bpow 10 (n0 - k)"
  proof (cases "s = 10 ^ Suc kk")
    case True
    have "n0 + 1 - k = (n0 - k) + 1" by simp
    then have "bpow 10 (n0 + 1 - k) = bpow 10 ((n0 - k) + 1)" by (rule arg_cong)
    also have "\<dots> = 10 * bpow 10 (n0 - k)"
      using bpow_Suc [OF ten, of "n0 - k"] by simp
    finally show ?thesis using True by (simp add: s'e n'e)
  next
    case False
    then show ?thesis by (simp add: s'e n'e)
  qed
  have n0b: "- 5 \<le> n0" "n0 \<le> 21"
  proof -
    from ilog_bounds [of 10 q] q
    have b1: "bpow 10 (n0 - 1) \<le> q" and b2: "q < bpow 10 n0" by (simp_all add: n0_def)
    have "bpow 10 (- 6) = 1 / 1000000" by (simp add: bpow_neg)
    with lo b2 have "bpow 10 (- 6) < bpow 10 n0" by simp
    then have "- 6 < n0" by (intro bpow_less_cancel [of 10]) simp_all
    then show "- 5 \<le> n0" by simp
    have "bpow 10 21 = 1000000000000000000000" by (simp add: bpow_nonneg)
    with hi b1 have "bpow 10 (n0 - 1) < bpow 10 21" by simp
    then have "n0 - 1 < 21" by (intro bpow_less_cancel [of 10]) simp_all
    then show "n0 \<le> 21" by simp
  qed
  have n'b: "- 5 \<le> n'" "n' \<le> 22" using n0b by (simp_all add: n'e)
  define ds where "ds = digits10 s'"
  have s'0: "0 \<le> s'" using s'b(1) by (smt (verit) zero_le_power)
  have len: "length ds = Suc kk" unfolding ds_def by (rule digits10_length [OF s'b])
  have nodot: "CHR ''.'' \<notin> set ds" using digits10_props [OF s'0] by (auto simp: ds_def)
  have str: "Number_toString (Fin q) = format_number ds n'"
    using q by (simp add: positive_toString_def sd ds_def)
  have frac: "- 2 \<le> n' - k"
  proof (rule ccontr)
    assume "\<not> - 2 \<le> n' - k"
    then have far: "n' + 3 \<le> k" by simp
    with k have n21: "n' \<le> 21" by simp
    have nk: "\<not> int (length ds) \<le> n'" using far by (simp add: len kkk)
    have "\<exists>m. decimals_length (Fin q) = Some m \<and> 2 < m"
    proof (cases "0 < n'")
      case True
      have "format_number ds n' = take (nat n') ds @ CHR ''.'' # drop (nat n') ds"
        using True nk n'b(1) n21 by (simp add: format_number_def)
      moreover have "CHR ''.'' \<notin> set (take (nat n') ds)" "CHR ''.'' \<notin> set (drop (nat n') ds)"
        using nodot by (auto dest: in_set_takeD in_set_dropD)
      ultimately have "split_on (CHR ''.'') (format_number ds n')
          = [take (nat n') ds, drop (nat n') ds]"
        by (simp add: split_on_separator split_on_no_separator)
      moreover have "2 < length (drop (nat n') ds)" using far True by (simp add: len kkk)
      ultimately show ?thesis unfolding decimals_length_def str by simp
    next
      case False
      let ?rest = "replicate (nat (- n')) CHR ''0'' @ ds"
      have fmt: "format_number ds n' = ''0'' @ CHR ''.'' # ?rest"
        using False nk n'b(1) n21 by (simp add: format_number_def)
      have r: "CHR ''.'' \<notin> set ?rest" using nodot by auto
      have "split_on (CHR ''.'') (''0'' @ CHR ''.'' # ?rest) = ''0'' # split_on (CHR ''.'') ?rest"
        by (rule split_on_separator) simp
      also have "split_on (CHR ''.'') ?rest = [?rest]"
        using r by (rule split_on_no_separator)
      finally have "split_on (CHR ''.'') (format_number ds n') = [''0'', ?rest]"
        by (simp only: fmt)
      moreover have "2 < length (replicate (nat (- n')) CHR ''0'' @ ds)"
        using far False by (simp add: len kkk)
      ultimately show ?thesis unfolding decimals_length_def str by simp
    qed
    with acc show False by auto
  qed
  define c where "c = s' * 10 ^ nat (n' - k + 2)"
  have "n' - k = int (nat (n' - k + 2)) - int 2" using frac by simp
  then have "bpow 10 (n' - k) = bpow 10 (int (nat (n' - k + 2)) - int 2)" by (rule arg_cong)
  also have "\<dots> = of_int 10 ^ nat (n' - k + 2) / of_int 10 ^ 2" by (rule bpow_diff [OF ten])
  finally have "of_int c / 100 = of_int s' * bpow 10 (n' - k)"
    by (simp add: c_def)
  with val c3 have "to_double (of_int c / 100) = Fin q" by simp
  then show ?thesis ..
qed

lemma digit_not_ws: "is_digit c \<Longrightarrow> \<not> is_ws c"
  by (auto simp: is_digit_def is_ws_def)

lemma digit_not_special:
  "is_digit c \<Longrightarrow> c \<noteq> CHR ''-'' \<and> c \<noteq> CHR ''+'' \<and> c \<noteq> CHR ''I'' \<and> c \<noteq> CHR ''.''"
  by (auto simp: is_digit_def char_code_def)

subsection \<open>Validation order and field names\<close>

lemma digits10_0_1: "digits10 0 = ''0''" "digits10 1 = ''1''"
  by code_simp+

lemma validateAmount_error:
  "validateAmount v = Inl err \<Longrightarrow> \<exists>m. err = ValidationError ''amount'' m"
  by (auto simp: validateAmount_def split: jsval.splits if_splits)

lemma validateCurrency_error:
  "validateCurrency v = Inl err \<Longrightarrow> \<exists>m. err = ValidationError ''currency'' m"
  by (cases v) (auto simp: validateCurrency_def split: if_splits)

lemma validateStatus_error:
  "validateStatus v = Inl err \<Longrightarrow> \<exists>m. err = ValidationError ''status'' m"
  by (auto simp: validateStatus_def split: if_splits)

lemma validateCountry_error:
  "validateCountryCodes_from 0 [v] = Inl err \<Longrightarrow> \<exists>m. err = ValidationError ''country_0'' m"
  "validateCountryCodes_from 1 [v] = Inl err \<Longrightarrow> \<exists>m. err = ValidationError ''country_1'' m"
  by (cases v; auto simp: digits10_0_1 split: if_splits)+

lemma validateEmail_error:
  "validateEmail v name = Inl err \<Longrightarrow> \<exists>m. err = ValidationError name m"
  by (cases v) (auto simp: validateEmail_def split: if_splits)

text \<open>
  C3 (as amended). For every payload other than \<open>null\<close>, \<open>validate\<close> raises the error
  of the first violated rule in the fixed order: required fields, amount, currency, status,
  country code of the sender, country code of the receiver, email of the sender, email of
  the receiver; it raises nothing when no rule is violated. The required-fields error names
  the dotted path of the first missing field (\<open>data.sender.email\<close>). The later rules
  tag their error with a fixed name that is not the dotted path: \<open>amount\<close>, \<open>currency\<close>,
  \<open>status\<close>, \<open>country_0\<close> (sender), \<open>country_1\<close> (receiver), \<open>sender.email\<close>,
  \<open>receiver.email\<close>.
\<close>

theorem validate_reports_first_violation:
  "(p \<noteq> Undefined \<and> p \<noteq> Null \<longrightarrow> fst (validate p) = first_failure (rule_outcomes p))
   \<and> (\<forall>err. validateAmount v = Inl err \<longrightarrow> (\<exists>m. err = ValidationError ''amount'' m))
   \<and> (\<forall>err. validateCurrency v = Inl err \<longrightarrow> (\<exists>m. err = ValidationError ''currency'' m))
   \<and> (\<forall>err. validateStatus v = Inl err \<longrightarrow> (\<exists>m. err = ValidationError ''status'' m))
   \<and> (\<forall>err. validateCountryCodes_from 0 [v] = Inl err
          \<longrightarrow> (\<exists>m. err = ValidationError ''country_0'' m))
   \<and> (\<forall>err. validateCountryCodes_from 1 [v] = Inl err
          \<longrightarrow> (\<exists>m. err = ValidationError ''country_1'' m))
   \<and> (\<forall>err. validateEmail v name = Inl err \<longrightarrow> (\<exists>m. err = ValidationError name m))"
  using validate_eq [of p] validateAmount_error [of v] validateCurrency_error [of v]
    validateStatus_error [of v] validateCountry_error [of v] validateEmail_error [of v name]
  by blast

lemma validate_bad_email:
  "fst (validate (example_event (Num (Fin (201 / 2))) ''usd'' ''ann.example.com''))
     = Inl (ValidationError ''sender.email'' ''sender.email must be a valid email address'')"
  by code_simp

lemma validate_bad_amount_and_email:
  "fst (validate (example_event (Num (Fin (- 5))) ''usd'' ''ann.example.com''))
     = Inl (ValidationError ''amount'' ''Amount must be a positive number'')"
  by code_simp

theorem validate_reports_first_violation_witness:
  "example_event (Num (Fin (- 5))) ''usd'' ''ann.example.com'' \<noteq> Undefined
   \<and> example_event (Num (Fin (- 5))) ''usd'' ''ann.example.com'' \<noteq> Null
   \<and> first_failure (rule_outcomes (example_event (Num (Fin (- 5))) ''usd'' ''ann.example.com''))
       = Inl (ValidationError ''amount'' ''Amount must be a positive number'')
   \<and> validateAmount (Num (Fin (- 5)))
       = Inl (ValidationError ''amount'' ''Amount must be a positive number'')
   \<and> validateCurrency (Str ''XXX'')
       = Inl (ValidationError ''currency''
           ''Currency must be a valid ISO code. Supported: USD, EUR, GBP, INR, JPY'')
   \<and> validateStatus (Str ''done'')
       = Inl (ValidationError ''status'' ''Status must be one of: pending, completed, failed'')
   \<and> validateCountryCodes_from 0 [Null]
       = Inl (ValidationError ''country_0'' ''Country code is required'')
   \<and> validateCountryCodes_from 1 [Null]
       = Inl (ValidationError ''country_1'' ''Country code is required'')
   \<and> validateEmail Null ''receiver.email''
       = Inl (ValidationError ''receiver.email'' ''receiver.email is required'')"
  using validate_reports_first_violation
          [where p = "example_event (Num (Fin (- 5))) ''usd'' ''ann.example.com''"
             and v = "Num (Fin (- 5))" and name = "''receiver.email''"]
        validate_bad_amount_and_email
  by (simp add: example_event_def validateAmount_def num_le_def validateCurrency_def
        validateStatus_def validateEmail_def VALID_CURRENCIES_def VALID_STATUSES_def
        toUpperCase_def toUpperCase_char_def char_code_def digits10_0_1)

theorem validate_field_name_counterexample:
  "fst (validate (example_event (Num (Fin (201 / 2))) ''usd'' ''ann.example.com''))
     = Inl (ValidationError ''sender.email'' ''sender.email must be a valid email address'')
   \<and> ''sender.email'' \<noteq> ''data.sender.email''"
  using validate_bad_email by simp

subsection \<open>The amount rule\<close>

lemma validateAmount_accepted:
  assumes "validateAmount v = Inr ()"
  obtains a where "v = Num a" "\<not> isNaN a" "num_less (Fin 0) a"
    "case decimals_length a of None \<Rightarrow> True | Some m \<Rightarrow> m \<le> 2"
proof -
  from assms obtain a where v: "v = Num a"
    by (cases v) (simp_all add: validateAmount_def)
  from assms v have n: "\<not> isNaN a" and le: "\<not> num_le a (Fin 0)"
    and d: "\<not> (case decimals_length a of None \<Rightarrow> False | Some m \<Rightarrow> 2 < m)"
    by (simp_all add: validateAmount_def split: if_splits)
  from n le have "num_less (Fin 0) a" by (simp add: num_le_def)
  moreover from d have "case decimals_length a of None \<Rightarrow> True | Some m \<Rightarrow> m \<le> 2"
    by (simp split: option.splits)
  ultimately show thesis using v n that by blast
qed

lemma validate_amount_error:
  assumes "required_present p" and "validateAmount (field p [''data'', ''amount'']) = Inl err"
  shows "fst (validate p) = Inl err"
proof -
  from assms(1) have p: "p \<noteq> Undefined" "p \<noteq> Null" by (simp_all add: required_present_def)
  with assms(1) have "required_rule p = Inr ()" by (simp add: required_rule_ok)
  with assms(2) validate_eq [OF p] show ?thesis by (simp add: rule_outcomes_def)
qed

text \<open>
  C4 (as amended). \<open>validate\<close> accepts an amount only if it is a Number, not \<open>NaN\<close>,
  strictly positive and, when it is finite and in the range that \<open>toString\<close> writes in
  plain decimal notation (from \<open>1e-6\<close> up to \<open>1e21\<close>), the double of a decimal with at
  most two fractional digits. Every amount violating one of these is rejected with a
  validation error whose field is \<open>amount\<close>, and that is the error of \<open>validate\<close> when
  the required fields are present. Finiteness is not checked: \<open>Infinity\<close> is accepted.
\<close>

theorem validateAmount_accepts_only:
  "(validateAmount v = Inr () \<longrightarrow>
      (\<exists>a. v = Num a \<and> \<not> isNaN a \<and> num_less (Fin 0) a
         \<and> (\<forall>q. a = Fin q \<and> has_shortest_decimal q
                 \<and> 1 / 1000000 \<le> q \<and> q < 1000000000000000000000
               \<longrightarrow> (\<exists>c::int. to_double (of_int c / 100) = Fin q))))
   \<and> (validateAmount v \<noteq> Inr ()
        \<longrightarrow> (\<exists>m. validateAmount v = Inl (ValidationError ''amount'' m)))
   \<and> (required_present p \<and> validateAmount (field p [''data'', ''amount'']) \<noteq> Inr ()
        \<longrightarrow> (\<exists>m. fst (validate p) = Inl (ValidationError ''amount'' m)))"
proof (intro conjI impI)
  assume ok: "validateAmount v = Inr ()"
  then obtain a where a: "v = Num a" "\<not> isNaN a" "num_less (Fin 0) a"
    "case decimals_length a of None \<Rightarrow> True | Some m \<Rightarrow> m \<le> 2"
    by (rule validateAmount_accepted)
  have "\<exists>c::int. to_double (of_int c / 100) = Fin q"
    if "a = Fin q \<and> has_shortest_decimal q \<and> 1 / 1000000 \<le> q \<and> q < 1000000000000000000000"
    for q
    using that a(3,4) by (intro accepted_two_decimals [of q]) simp_all
  with a show "\<exists>a. v = Num a \<and> \<not> isNaN a \<and> num_less (Fin 0) a
         \<and> (\<forall>q. a = Fin q \<and> has_shortest_decimal q
                 \<and> 1 / 1000000 \<le> q \<and> q < 1000000000000000000000
               \<longrightarrow> (\<exists>c::int. to_double (of_int c / 100) = Fin q))"
    by blast
next
  assume "validateAmount v \<noteq> Inr ()"
  then obtain err where "validateAmount v = Inl err" by (cases "validateAmount v") auto
  with validateAmount_error [of v err]
  show "\<exists>m. validateAmount v = Inl (ValidationError ''amount'' m)" by auto
next
  assume h: "required_present p \<and> validateAmount (field p [''data'', ''amount'']) \<noteq> Inr ()"
  then obtain err where e: "validateAmount (field p [''data'', ''amount'']) = Inl err"
    by (cases "validateAmount (field p [''data'', ''amount''])") auto
  with validateAmount_error obtain m where "err = ValidationError ''amount'' m" by blast
  with validate_amount_error [of p err] h e
  show "\<exists>m. fst (validate p) = Inl (ValidationError ''amount'' m)" by auto
qed

lemma validateAmount_example: "validateAmount (Num (Fin (201 / 2))) = Inr ()"
  by code_simp

lemma has_shortest_decimal_example: "has_shortest_decimal (201 / 2)"
  by code_simp

lemma validateAmount_three_decimals:
  "validateAmount (Num (to_double (10005 / 1000)))
     = Inl (ValidationError ''amount'' ''Amount cannot have more than 2 decimal places'')"
  by code_simp

lemma validateAmount_exponent_notation:
  "validateAmount (Num (to_double (1 / 10000000))) = Inr ()"
  by code_simp

lemma required_present_example:
  "required_present (example_event (Num (Fin (- 5))) ''usd'' ''ann.example.com'')"
  by code_simp

theorem validateAmount_accepts_only_witness:
  "validateAmount (Num (Fin (201 / 2))) = Inr ()
   \<and> has_shortest_decimal (201 / 2)
   \<and> (1 / 1000000 :: rat) \<le> 201 / 2 \<and> (201 / 2 :: rat) < 1000000000000000000000
   \<and> (\<exists>c::int. to_double (of_int c / 100) = Fin (201 / 2))
   \<and> validateAmount (Num (Fin (- 5))) \<noteq> Inr ()
   \<and> validateAmount (Num (Fin (- 5)))
       = Inl (ValidationError ''amount'' ''Amount must be a positive number'')
   \<and> required_present (example_event (Num (Fin (- 5))) ''usd'' ''ann.example.com'')
   \<and> fst (validate (example_event (Num (Fin (- 5))) ''usd'' ''ann.example.com''))
       = Inl (ValidationError ''amount'' ''Amount must be a positive number'')"
  using validateAmount_accepts_only [where v = "Num (Fin (201 / 2))" and p = Null]
        validateAmount_accepts_only
          [where v = "Num (Fin (- 5))"
             and p = "example_event (Num (Fin (- 5))) ''usd'' ''ann.example.com''"]
        validateAmount_example has_shortest_decimal_example required_present_example
        validate_bad_amount_and_email
  by (simp add: validateAmount_def num_le_def)

theorem validateAmount_infinite_counterexample:
  "fst (validate (example_event (Num PosInf) ''usd'' ''ann@example.com'')) = Inr ()
   \<and> validateAmount (Num PosInf) = Inr ()"
  by code_simp

subsection \<open>The timestamp window\<close>
























text \<open>
  C6. For every secret and body, \<open>verify\<close> accepts the hexadecimal HMAC-SHA256 of the
  body under the secret. It rejects every other received signature: one that differs in a
  byte, one of another length, and the signature of a body whose digest differs. When the
  constant-time comparison raises (the lengths differ) \<open>verify\<close> returns \<open>False\<close>; it
  has no exceptional result.
\<close>

theorem verify_accepts_exactly_the_hmac:
  "verify hmac secret body (hmac secret body)
   \<and> (\<forall>s. s \<noteq> hmac secret body \<longrightarrow> \<not> verify hmac secret body s)
   \<and> (\<forall>body'. hmac secret body' \<noteq> hmac secret body
          \<longrightarrow> \<not> verify hmac secret body' (hmac secret body))
   \<and> (\<forall>s. length s \<noteq> length (hmac secret body) \<longrightarrow> \<not> verify hmac secret body s)
   \<and> (\<forall>s err. timingSafeEqual s (hmac secret body) = Inl err \<longrightarrow> \<not> verify hmac secret body s)"
  by (auto simp: verify_def timingSafeEqual_def)

theorem verify_accepts_exactly_the_hmac_witness:
  "verify (\<lambda>k m. k @ m) ''k'' ''ab'' ''kab''
   \<and> ''kaB'' \<noteq> (\<lambda>k m. k @ m) ''k'' ''ab''
   \<and> \<not> verify (\<lambda>k m. k @ m) ''k'' ''ab'' ''kaB''
   \<and> (\<lambda>k m. k @ m) ''k'' ''aB'' \<noteq> (\<lambda>k m. k @ m) ''k'' ''ab''
   \<and> \<not> verify (\<lambda>k m. k @ m) ''k'' ''aB'' ((\<lambda>k m. k @ m) ''k'' ''ab'')
   \<and> length ''ka'' \<noteq> length ((\<lambda>k m. k @ m) ''k'' ''ab'')
   \<and> \<not> verify (\<lambda>k m. k @ m) ''k'' ''ab'' ''ka''
   \<and> timingSafeEqual ''ka'' ((\<lambda>k m. k @ m) ''k'' ''ab'')
        = Inl (RangeError ''Input buffers must have the same byte length'')"
  using verify_accepts_exactly_the_hmac [of "\<lambda>k m. k @ m" "''k''" "''ab''"]
  by (simp add: timingSafeEqual_def)

subsection \<open>Derived fields\<close>

lemma is_digit_zero: "is_digit CHR ''0''" "digit_of 10 CHR ''0'' = Some 0"
  by (simp_all add: is_digit_def digit_of_def char_code_def)

lemma digits_value_foldl:
  "foldl (\<lambda>acc c. acc * 10 + (case digit_of 10 c of None \<Rightarrow> 0 | Some d \<Rightarrow> d)) a ys
     = a * 10 ^ length ys + digits_value 10 ys"
proof (induction ys rule: rev_induct)
  case Nil
  show ?case by (simp add: digits_value_def)
next
  case (snoc y ys)
  then show ?case by (simp add: digits_value_def algebra_simps)
qed

lemma digits_value_append:
  "digits_value 10 (xs @ ys) = digits_value 10 xs * 10 ^ length ys + digits_value 10 ys"
  using digits_value_foldl [of "digits_value 10 xs" ys]
  by (simp add: digits_value_def)

lemma digits_value_zeros: "digits_value 10 (replicate n CHR ''0'') = 0"
  by (induction n) (simp_all add: digits_value_def is_digit_zero)

lemma fixed_point_parts:
  assumes ds: "ds \<noteq> []" "\<forall>c \<in> set ds. is_digit c"
  obtains ip fp where "fixed_point ds 2 = ip @ CHR ''.'' # fp"
    "ip \<noteq> []" "\<forall>c \<in> set ip. is_digit c" "length fp = 2" "\<forall>c \<in> set fp. is_digit c"
    "digits_value 10 ip * 100 + digits_value 10 fp = digits_value 10 ds"
proof -
  define P where "P = replicate (3 - length ds) CHR ''0'' @ ds"
  define ip where "ip = take (length P - 2) P"
  define fp where "fp = drop (length P - 2) P"
  have L: "3 \<le> length P" by (simp add: P_def)
  have Pd: "\<forall>c \<in> set P. is_digit c" using ds(2) by (auto simp: P_def is_digit_zero)
  have v: "digits_value 10 P = digits_value 10 ds"
    by (simp add: P_def digits_value_append digits_value_zeros)
  have "fixed_point ds 2 = ip @ CHR ''.'' # fp"
    by (simp add: fixed_point_def P_def ip_def fp_def)
  moreover have "ip \<noteq> []" using L by (auto simp: ip_def)
  moreover have "\<forall>c \<in> set ip. is_digit c" using Pd by (auto simp: ip_def dest: in_set_takeD)
  moreover have "length fp = 2" using L by (simp add: fp_def)
  moreover have "\<forall>c \<in> set fp. is_digit c" using Pd by (auto simp: fp_def dest: in_set_dropD)
  moreover have "digits_value 10 ip * 100 + digits_value 10 fp = digits_value 10 ds"
  proof -
    have "P = ip @ fp" by (simp add: ip_def fp_def)
    then have "digits_value 10 P = digits_value 10 ip * 10 ^ length fp + digits_value 10 fp"
      by (simp only: digits_value_append)
    with \<open>length fp = 2\<close> v show ?thesis by simp
  qed
  ultimately show thesis by (rule that)
qed

lemma unsigned_decimal_fixed:
  assumes "ip \<noteq> []" "\<forall>c \<in> set ip. is_digit c" "length fp = 2" "\<forall>c \<in> set fp. is_digit c"
  shows "unsigned_decimal (ip @ CHR ''.'' # fp)
     = Some (of_int (digits_value 10 ip * 100 + digits_value 10 fp) / 100)"
proof -
  have nd: "\<not> is_digit CHR ''.''" by (simp add: is_digit_def char_code_def)
  have d1: "dropWhile is_digit (ip @ CHR ''.'' # fp) = CHR ''.'' # fp"
    using assms(2) nd by (simp add: dropWhile_append2)
  have t1: "takeWhile is_digit (ip @ CHR ''.'' # fp) = ip"
    using assms(2) nd by (simp add: takeWhile_append2)
  have t2: "takeWhile is_digit fp = fp" using assms(4) by (simp add: takeWhile_eq_all_conv)
  have d2: "dropWhile is_digit fp = []" using assms(4) by simp
  have b0: "bpow 10 0 = 1" by (simp add: bpow_nonneg)
  have b2: "bpow 10 (- 2) = 1 / 100" by (simp add: bpow_neg)
  show ?thesis
    using assms(1)
    by (simp add: unsigned_decimal_def d1 t1 t2 d2 exponent_part_def b0 fraction_value_def
          assms(3) b2 field_simps)
qed

lemma parseFloat_toFixed:
  assumes "\<bar>m\<bar> < 1000000000000000000000"
  shows "parseFloat (toFixed (Fin m) 2) = to_double (round_cents m)"
proof -
  define N where "N = \<lfloor>\<bar>m\<bar> * 100 + 1 / 2\<rfloor>"
  have N0: "0 \<le> N" by (simp add: N_def)
  from digits10_props [OF N0]
  have ds: "digits10 N \<noteq> []" "\<forall>c \<in> set (digits10 N). is_digit c"
    and dv: "digits_value 10 (digits10 N) = N" by auto
  from fixed_point_parts [OF ds] obtain ip fp
    where fx: "fixed_point (digits10 N) 2 = ip @ CHR ''.'' # fp"
      and ip: "ip \<noteq> []" "\<forall>c \<in> set ip. is_digit c"
      and fp: "length fp = 2" "\<forall>c \<in> set fp. is_digit c"
      and val: "digits_value 10 ip * 100 + digits_value 10 fp = digits_value 10 (digits10 N)"
    by blast
  let ?body = "ip @ CHR ''.'' # fp"
  obtain c cs where ipc: "ip = c # cs" using ip(1) by (cases ip) auto
  have cd: "is_digit c" using ip(2) ipc by simp
  have mag: "toFixed_magnitude \<bar>m\<bar> 2 = ?body"
    using assms by (simp add: toFixed_magnitude_def fx flip: N_def)
  have ud: "unsigned_decimal ?body = Some (of_int N / 100)"
    using unsigned_decimal_fixed [OF ip fp] val dv by simp
  have inf: "take 8 ?body \<noteq> ''Infinity''"
    using digit_not_special [OF cd] by (simp add: ipc)
  have signed: "parseFloat_signed (sg, ?body) = to_double (of_int sg * (of_int N / 100))" for sg
    using inf by (simp add: parseFloat_signed_def ud)
  show ?thesis
  proof (cases "m < 0")
    case True
    have "toFixed (Fin m) 2 = CHR ''-'' # ?body" using True mag by simp
    moreover have "\<not> is_ws CHR ''-''" by (simp add: is_ws_def char_code_def)
    ultimately have "parseFloat (toFixed (Fin m) 2) = parseFloat_signed (- 1, ?body)"
      unfolding parseFloat_def by (simp add: strip_sign_def)
    moreover have "of_int (- 1) * (of_int N / 100) = round_cents m"
      using True by (simp add: round_cents_def N_def)
    ultimately show ?thesis by (simp only: signed)
  next
    case False
    have tf: "toFixed (Fin m) 2 = ?body" using False mag by simp
    have "dropWhile is_ws ?body = ?body" using digit_not_ws [OF cd] by (simp add: ipc)
    moreover have "strip_sign ?body = (1, ?body)"
      using digit_not_special [OF cd] by (simp add: strip_sign_def ipc)
    ultimately have pf: "parseFloat (toFixed (Fin m) 2) = parseFloat_signed (1, ?body)"
      unfolding parseFloat_def tf by (simp only:)
    have "of_int 1 * (of_int N / 100) = round_cents m"
    proof (cases "m = 0")
      case True
      have "\<lfloor>(1::rat) / 2\<rfloor> = 0" by (rule floor_unique) simp_all
      with True show ?thesis by (simp add: round_cents_def N_def)
    next
      case nz: False
      with False have "0 < m" by simp
      then show ?thesis by (simp add: round_cents_def N_def)
    qed
    then show ?thesis by (simp only: pf signed)
  qed
qed

lemma calculateDerivedFields_example_fee:
  "num_mul (Fin (201 / 2)) PROCESSING_FEE_RATE = Fin (4526117625507349 / 2251799813685248)"
  by code_simp

lemma calculateDerivedFields_example:
  "calculateDerivedFields (Fin (201 / 2))
     = \<lparr>df_processing_fee = Fin (1131529406376837 / 562949953421312),
        df_net_amount = Fin (6930617614058127 / 70368744177664)\<rparr>"
  by code_simp

lemma double_literals:
  "to_double (201 / 100) = Fin (1131529406376837 / 562949953421312)"
  "to_double (9849 / 100) = Fin (6930617614058127 / 70368744177664)"
  by code_simp+

lemma calculateDerivedFields_example_net:
  "num_sub (Fin (201 / 2)) (Fin (1131529406376837 / 562949953421312))
     = Fin (6930617614058127 / 70368744177664)"
  by code_simp

text \<open>
  C7. \<open>calculateDerivedFields\<close> rounds the fee first and subtracts afterwards: the
  processing fee is the double product \<open>amount * 0.02\<close> rounded to two decimal places,
  and the net amount is the double difference of the amount and that rounded fee, rounded
  to two decimal places (products and differences below \<open>1e21\<close> in magnitude, where
  \<open>toFixed\<close> writes fixed-point digits; a tie is rounded away from zero). For the amount
  100.50 the result is the pair of doubles written 2.01 and 98.49.
\<close>

theorem calculateDerivedFields_rounds_fee_first:
  "(num_mul amt PROCESSING_FEE_RATE = Fin m \<and> \<bar>m\<bar> < 1000000000000000000000
      \<longrightarrow> df_processing_fee (calculateDerivedFields amt) = to_double (round_cents m))
   \<and> (num_sub amt (df_processing_fee (calculateDerivedFields amt)) = Fin n
       \<and> \<bar>n\<bar> < 1000000000000000000000
      \<longrightarrow> df_net_amount (calculateDerivedFields amt) = to_double (round_cents n))
   \<and> calculateDerivedFields (Fin (201 / 2))
       = \<lparr>df_processing_fee = to_double (201 / 100), df_net_amount = to_double (9849 / 100)\<rparr>"
proof (intro conjI impI)
  assume h: "num_mul amt PROCESSING_FEE_RATE = Fin m \<and> \<bar>m\<bar> < 1000000000000000000000"
  then have a: "num_mul amt PROCESSING_FEE_RATE = Fin m"
    and b: "\<bar>m\<bar> < 1000000000000000000000" by simp_all
  have "df_processing_fee (calculateDerivedFields amt)
      = parseFloat (toFixed (num_mul amt PROCESSING_FEE_RATE) 2)"
    by (simp add: calculateDerivedFields_def net_of_def)
  then show "df_processing_fee (calculateDerivedFields amt) = to_double (round_cents m)"
    by (simp only: a parseFloat_toFixed [OF b])
next
  assume h: "num_sub amt (df_processing_fee (calculateDerivedFields amt)) = Fin n
       \<and> \<bar>n\<bar> < 1000000000000000000000"
  then have a: "num_sub amt (df_processing_fee (calculateDerivedFields amt)) = Fin n"
    and b: "\<bar>n\<bar> < 1000000000000000000000" by simp_all
  have "df_net_amount (calculateDerivedFields amt)
      = parseFloat (toFixed (num_sub amt (df_processing_fee (calculateDerivedFields amt))) 2)"
    by (simp add: calculateDerivedFields_def net_of_def)
  then show "df_net_amount (calculateDerivedFields amt) = to_double (round_cents n)"
    by (simp only: a parseFloat_toFixed [OF b])
next
  show "calculateDerivedFields (Fin (201 / 2))
       = \<lparr>df_processing_fee = to_double (201 / 100), df_net_amount = to_double (9849 / 100)\<rparr>"
    by (simp only: calculateDerivedFields_example double_literals)
qed

theorem calculateDerivedFields_rounds_fee_first_witness:
  "num_mul (Fin (201 / 2)) PROCESSING_FEE_RATE = Fin (4526117625507349 / 2251799813685248)
   \<and> \<bar>4526117625507349 / 2251799813685248 :: rat\<bar> < 1000000000000000000000
   \<and> df_processing_fee (calculateDerivedFields (Fin (201 / 2)))
       = to_double (round_cents (4526117625507349 / 2251799813685248))
   \<and> num_sub (Fin (201 / 2)) (df_processing_fee (calculateDerivedFields (Fin (201 / 2))))
       = Fin (6930617614058127 / 70368744177664)
   \<and> \<bar>6930617614058127 / 70368744177664 :: rat\<bar> < 1000000000000000000000
   \<and> df_net_amount (calculateDerivedFields (Fin (201 / 2)))
       = to_double (round_cents (6930617614058127 / 70368744177664))"
proof -
  note T = calculateDerivedFields_rounds_fee_first
             [where amt = "Fin (201 / 2)" and m = "4526117625507349 / 2251799813685248"
                and n = "6930617614058127 / 70368744177664"]
  have f: "df_processing_fee (calculateDerivedFields (Fin (201 / 2)))
      = Fin (1131529406376837 / 562949953421312)"
    by (simp add: calculateDerivedFields_example)
  have n: "num_sub (Fin (201 / 2)) (df_processing_fee (calculateDerivedFields (Fin (201 / 2))))
      = Fin (6930617614058127 / 70368744177664)"
    by (simp only: f calculateDerivedFields_example_net)
  have b1: "\<bar>4526117625507349 / 2251799813685248 :: rat\<bar> < 1000000000000000000000"
    and b2: "\<bar>6930617614058127 / 70368744177664 :: rat\<bar> < 1000000000000000000000"
    by simp_all
  from T calculateDerivedFields_example_fee b1 n b2 show ?thesis by blast
qed

subsection \<open>The pipeline\<close>

lemma audit_writes_succeed_props:
  assumes "audit_writes_succeed e payload"
  shows "get_prop payload ''event_id'' = Inr (field payload [''event_id''])"
    and "get_prop payload ''event_type'' = Inr (field payload [''event_type''])"
proof -
  from assms have "opt_prop payload ''event_id'' \<noteq> Undefined"
    by (simp add: audit_writes_succeed_def)
  then have "payload \<noteq> Undefined \<and> payload \<noteq> Null" by (rule opt_prop_present)
  then show "get_prop payload ''event_id'' = Inr (field payload [''event_id''])"
    and "get_prop payload ''event_type'' = Inr (field payload [''event_type''])"
    by (simp_all add: get_prop_opt)
qed

lemma logWebhookEvent_ok:
  assumes "audit_writes_succeed e payload"
    and "st = ''received'' \<or> st = ''processed'' \<or> st = ''failed''"
  shows "logWebhookEvent e d payload st err =
     d\<lparr>audit_logs := audit_logs d @ [audit_entry payload st (map_option error_message err)]\<rparr>"
proof -
  from assms have "storage_fault e (InsertAuditLog st) = None"
    by (auto simp: audit_writes_succeed_def)
  moreover from assms(1) have "field payload [''event_id''] \<noteq> Undefined"
    "field payload [''event_id''] \<noteq> Null" "field payload [''event_type''] \<noteq> Undefined"
    "field payload [''event_type''] \<noteq> Null"
    by (simp_all add: audit_writes_succeed_def)
  ultimately show ?thesis
    using audit_writes_succeed_props [OF assms(1)]
    by (cases err)
       (simp_all add: logWebhookEvent_def write_audit_log_def and_then_def save_audit_log_def
          audit_entry_def)
qed

lemma save_transaction_audit_logs [simp]:
  "audit_logs (snd (save_transaction e d t)) = audit_logs d"
  by (simp add: save_transaction_def insert_transaction_def split: option.splits)

lemma save_transaction_cases:
  "(\<exists>m. save_transaction e d t
        = (Inl (QueryFailedError m),
           d\<lparr>transactions := transactions d @ concurrent_commits e\<rparr>))
   \<or> (storage_fault e InsertTransaction = None
      \<and> \<not> unique_violation (transactions d @ concurrent_commits e) t
      \<and> save_transaction e d t
         = (Inr (t\<lparr>id_column := Some (generated_id e), created_at := Some (db_now e),
                   updated_at := Some (db_now e)\<rparr>),
            d\<lparr>transactions := transactions d @ concurrent_commits e
                 @ [t\<lparr>id_column := Some (generated_id e), created_at := Some (db_now e),
                      updated_at := Some (db_now e)\<rparr>]\<rparr>))"
  by (simp add: save_transaction_def insert_transaction_def split: option.splits)

lemma persist_audit_logs:
  assumes "audit_writes_succeed e payload"
  shows "audit_logs (snd (persist e d payload)) =
     (case fst (persist e d payload) of
        Inl err \<Rightarrow> audit_logs d
      | Inr t \<Rightarrow> audit_logs d @ [audit_entry payload ''processed'' None])"
proof (cases "prepare_transaction e d payload")
  case (Inl err)
  then show ?thesis by (simp add: persist_def)
next
  case (Inr t)
  obtain r d1 where s: "save_transaction e d t = (r, d1)" by (cases "save_transaction e d t")
  then have "audit_logs d1 = audit_logs d"
    using save_transaction_audit_logs [of e d t] by simp
  with Inr s show ?thesis
    by (cases r) (simp_all add: persist_def logWebhookEvent_ok [OF assms])
qed

lemma processWebhook_audit_logs:
  assumes "audit_writes_succeed e payload"
  shows "audit_logs (snd (processWebhook e d payload)) =
     audit_logs d @
       [audit_entry payload ''received'' None,
        (case fst (processWebhook e d payload) of
           Inr t \<Rightarrow> audit_entry payload ''processed'' None
         | Inl err \<Rightarrow> audit_entry payload ''failed'' (Some (error_message err)))]"
proof -
  let ?d1 = "logWebhookEvent e d payload ''received'' None"
  have d1: "audit_logs ?d1 = audit_logs d @ [audit_entry payload ''received'' None]"
    by (simp add: logWebhookEvent_ok [OF assms])
  show ?thesis
  proof (cases "fst (validate payload)")
    case (Inl err)
    then show ?thesis
      by (simp add: processWebhook_def try_processWebhook_eq logWebhookEvent_ok [OF assms] d1)
  next
    case (Inr u)
    obtain r d2 where p: "persist e ?d1 payload = (r, d2)" by (cases "persist e ?d1 payload")
    with persist_audit_logs [OF assms, of ?d1]
    have a: "audit_logs d2 = (case r of Inl err \<Rightarrow> audit_logs ?d1
        | Inr t \<Rightarrow> audit_logs ?d1 @ [audit_entry payload ''processed'' None])" by simp
    from Inr p a d1 show ?thesis
      by (cases r)
         (simp_all add: processWebhook_def try_processWebhook_eq logWebhookEvent_ok [OF assms])
  qed
qed

lemma post_payment_rejected:
  "parsed_body req = None \<or> (\<exists>res. verifySignature e req = Inl res)
   \<Longrightarrow> snd (post_payment e d req) = d"
  by (auto simp: post_payment_def split: option.splits)


lemma validate_example: "fst (validate example_payload) = Inr ()"
  by code_simp

lemma toUpperCase_examples:
  "toUpperCase ''usd'' = ''USD''" "toUpperCase ''us'' = ''US''" "toUpperCase ''In'' = ''IN''"
  by code_simp+

lemma prepare_transaction_example:
  "storage_fault e = (\<lambda>op. None) \<Longrightarrow> new_Date e = 1700000000456 \<Longrightarrow> transactions d = [] \<Longrightarrow>
   prepare_transaction e d example_payload
     = Inr (example_transaction\<lparr>id_column := None, created_at := None, updated_at := None\<rparr>)"
  by (simp add: prepare_transaction_def create_transaction_def checkDuplicate_def findOne_def
        get_prop2_def get_prop3_def and_then_def example_payload_def example_event_def
        example_party_def example_transaction_def
        calculateDerivedFields_example toUpperCase_examples)

lemma audit_writes_succeed_example:
  "storage_fault e = (\<lambda>op. None) \<Longrightarrow> audit_writes_succeed e example_payload"
  by (simp add: audit_writes_succeed_def example_payload_def example_event_def)

lemma processWebhook_example:
  "processWebhook example_env empty_db example_payload
     = (Inr example_transaction,
        \<lparr>transactions = [example_transaction],
         audit_logs = [audit_entry example_payload ''received'' None,
                       audit_entry example_payload ''processed'' None]\<rparr>)"
proof -
  have a: "audit_writes_succeed example_env example_payload"
    by (rule audit_writes_succeed_example) (simp add: example_env_def)
  have p: "transactions d = [] \<Longrightarrow> prepare_transaction example_env d example_payload
     = Inr (example_transaction\<lparr>id_column := None, created_at := None, updated_at := None\<rparr>)"
    for d
    by (rule prepare_transaction_example) (simp_all add: example_env_def)
  have c: "concurrent_commits example_env = []" "storage_fault example_env InsertTransaction = None"
    "generated_id example_env = ''0b5c''" "db_now example_env = 1700000000789"
    by (simp_all add: example_env_def)
  show ?thesis
    by (simp add: processWebhook_def try_processWebhook_eq validate_example persist_def p
          save_transaction_def insert_transaction_def unique_violation_def c
          logWebhookEvent_ok [OF a] empty_db_def)
       (simp add: example_transaction_def)
qed

lemma processWebhook_racing:
  "processWebhook racing_env empty_db example_payload
     = (Inl (QueryFailedError ''duplicate key value violates unique constraint''),
        \<lparr>transactions = [example_transaction],
         audit_logs = [audit_entry example_payload ''received'' None,
                       audit_entry example_payload ''failed''
                         (Some ''duplicate key value violates unique constraint'')]\<rparr>)"
proof -
  have a: "audit_writes_succeed racing_env example_payload"
    by (rule audit_writes_succeed_example) (simp add: racing_env_def example_env_def)
  have p: "transactions d = [] \<Longrightarrow> prepare_transaction racing_env d example_payload
     = Inr (example_transaction\<lparr>id_column := None, created_at := None, updated_at := None\<rparr>)"
    for d
    by (rule prepare_transaction_example) (simp_all add: racing_env_def example_env_def)
  have c: "concurrent_commits racing_env = [example_transaction]"
    "storage_fault racing_env InsertTransaction = None"
    by (simp_all add: racing_env_def example_env_def)
  show ?thesis
    by (simp add: processWebhook_def try_processWebhook_eq validate_example persist_def p
          save_transaction_def insert_transaction_def unique_violation_def c
          logWebhookEvent_ok [OF a] empty_db_def)
qed

lemma post_payment_unsigned:
  "post_payment example_env empty_db unsigned_request
     = (unauthorized ''Missing webhook signature'', empty_db)"
  by (simp add: post_payment_def verifySignature_def unsigned_request_def)


lemma prepare_transaction_cong:
  "transactions d' = transactions d \<Longrightarrow>
   prepare_transaction e d' payload = prepare_transaction e d payload"
  by (simp add: prepare_transaction_def checkDuplicate_def findOne_def
           cong: option.case_cong)

lemma processWebhook_after_validation:
  assumes "fst (validate payload) = Inr ()"
  shows "fst (processWebhook e d payload)
      = (case prepare_transaction e d payload of
           Inl err \<Rightarrow> Inl err
         | Inr t \<Rightarrow> fst (save_transaction e d t))"
    and "transactions (snd (processWebhook e d payload))
      = (case prepare_transaction e d payload of
           Inl err \<Rightarrow> transactions d
         | Inr t \<Rightarrow> transactions (snd (save_transaction e d t)))"
proof -
  let ?d1 = "logWebhookEvent e d payload ''received'' None"
  have t: "transactions ?d1 = transactions d" by simp
  have pc: "prepare_transaction e ?d1 payload = prepare_transaction e d payload"
    using t by (rule prepare_transaction_cong)
  have sv: "fst (save_transaction e ?d1 t) = fst (save_transaction e d t)"
    "transactions (snd (save_transaction e ?d1 t)) = transactions (snd (save_transaction e d t))"
    for t
    by (simp_all add: save_transaction_def insert_transaction_def split: option.splits)
  show "fst (processWebhook e d payload)
      = (case prepare_transaction e d payload of
           Inl err \<Rightarrow> Inl err
         | Inr t \<Rightarrow> fst (save_transaction e d t))"
  proof (cases "prepare_transaction e d payload")
    case (Inl err)
    with assms pc show ?thesis
      by (simp add: processWebhook_def try_processWebhook_eq persist_def)
  next
    case (Inr t)
    obtain r d2 where s: "save_transaction e ?d1 t = (r, d2)"
      by (cases "save_transaction e ?d1 t")
    with sv(1) [of t] have "fst (save_transaction e d t) = r" by simp
    with Inr assms pc s show ?thesis
      by (cases r) (simp_all add: processWebhook_def try_processWebhook_eq persist_def)
  qed
  show "transactions (snd (processWebhook e d payload))
      = (case prepare_transaction e d payload of
           Inl err \<Rightarrow> transactions d
         | Inr t \<Rightarrow> transactions (snd (save_transaction e d t)))"
  proof (cases "prepare_transaction e d payload")
    case (Inl err)
    with assms pc show ?thesis
      by (simp add: processWebhook_def try_processWebhook_eq persist_def)
  next
    case (Inr t)
    obtain r d2 where s: "save_transaction e ?d1 t = (r, d2)"
      by (cases "save_transaction e ?d1 t")
    with sv(2) [of t] have "transactions (snd (save_transaction e d t)) = transactions d2" by simp
    with Inr assms pc s show ?thesis
      by (cases r) (simp_all add: processWebhook_def try_processWebhook_eq persist_def)
  qed
qed

lemma processWebhook_validation_failed:
  assumes "fst (validate payload) = Inl err"
  shows "fst (processWebhook e d payload) = Inl err"
    and "transactions (snd (processWebhook e d payload)) = transactions d"
  using assms by (simp_all add: processWebhook_def try_processWebhook_eq)

lemma get_prop_error: "get_prop v k = Inl err \<Longrightarrow> \<exists>m. err = TypeError m"
  by (cases v) auto

lemma get_prop2_error: "get_prop2 v a b = Inl err \<Longrightarrow> \<exists>m. err = TypeError m"
  by (auto simp: get_prop2_def and_then_def split: sum.splits dest: get_prop_error)

lemma get_prop3_error: "get_prop3 v a b c = Inl err \<Longrightarrow> \<exists>m. err = TypeError m"
  by (auto simp: get_prop3_def and_then_def split: sum.splits dest: get_prop_error get_prop2_error)

lemma js_toUpperCase_error: "js_toUpperCase v = Inl err \<Longrightarrow> \<exists>m. err = TypeError m"
  by (cases v) auto

lemma and_then_Inl:
  "and_then m f = Inl err \<Longrightarrow> m = Inl err \<or> (\<exists>x. m = Inr x \<and> f x = Inl err)"
  by (cases m) (simp_all add: and_then_def)

lemma create_transaction_error:
  "create_transaction e payload df = Inl err \<Longrightarrow> \<exists>m. err = TypeError m"
  unfolding create_transaction_def
  by (elim and_then_Inl [THEN disjE] exE conjE;
      (drule get_prop_error get_prop2_error get_prop3_error js_toUpperCase_error)?; simp?)


lemma checkDuplicate_error:
  assumes "checkDuplicate e d eid tid = Inl err"
  shows "(\<exists>m. err = QueryFailedError m)
     \<or> (\<exists>x. err = DuplicateTransactionError x \<and> x \<in> set (transactions d)
            \<and> (event_id x = eid \<or> transaction_id x = tid))"
  using assms
  by (auto simp: checkDuplicate_def findOne_def and_then_def find_Some_iff
           split: option.splits sum.splits)

lemma first_failure_error:
  "first_failure rs = Inl err \<Longrightarrow> Inl err \<in> set rs"
  by (induction rs) (auto split: sum.splits)

lemma first_failure_ok: "first_failure rs = Inr () \<longleftrightarrow> (\<forall>r \<in> set rs. r = Inr ())"
  by (induction rs) (auto split: sum.splits)

lemma requiredFields_null:
  "p = Undefined \<or> p = Null \<Longrightarrow> \<exists>m. requiredFields p = Inl (TypeError m)"
  by (auto simp: requiredFields_def and_then_def)

lemma validate_error_kind:
  assumes "fst (validate p) = Inl err"
  shows "(\<exists>m. err = TypeError m) \<or> (\<exists>f m. err = ValidationError f m)"
proof (cases "p = Undefined \<or> p = Null")
  case True
  then obtain m where "requiredFields p = Inl (TypeError m)"
    using requiredFields_null by blast
  with assms show ?thesis
    by (auto simp: validate_def validateRequired_def and_then_def)
next
  case False
  with assms have "first_failure (rule_outcomes p) = Inl err" by (simp add: validate_eq)
  then have "Inl err \<in> set (rule_outcomes p)" by (rule first_failure_error)
  then consider "required_rule p = Inl err"
    | "validateAmount (field p [''data'', ''amount'']) = Inl err"
    | "validateCurrency (field p [''data'', ''currency'']) = Inl err"
    | "validateStatus (field p [''data'', ''status'']) = Inl err"
    | "validateCountryCodes_from 0 [field p [''data'', ''sender'', ''country'']] = Inl err"
    | "validateCountryCodes_from 1 [field p [''data'', ''receiver'', ''country'']] = Inl err"
    | "validateEmail (field p [''data'', ''sender'', ''email'']) ''sender.email'' = Inl err"
    | "validateEmail (field p [''data'', ''receiver'', ''email'']) ''receiver.email'' = Inl err"
    unfolding rule_outcomes_def list.set insert_iff empty_iff by metis
  then show ?thesis
  proof cases
    case 1
    then show ?thesis by (auto simp: required_rule_def split: option.splits)
  next
    case 2
    from validateAmount_error [OF this] show ?thesis by blast
  next
    case 3
    from validateCurrency_error [OF this] show ?thesis by blast
  next
    case 4
    from validateStatus_error [OF this] show ?thesis by blast
  next
    case 5
    from validateCountry_error(1) [OF this] show ?thesis by blast
  next
    case 6
    from validateCountry_error(2) [OF this] show ?thesis by blast
  next
    case 7
    from validateEmail_error [OF this] show ?thesis by blast
  next
    case 8
    from validateEmail_error [OF this] show ?thesis by blast
  qed
qed

lemma prepare_transaction_duplicate:
  assumes "required_present payload"
    and "prepare_transaction e d payload = Inl (DuplicateTransactionError x)"
  shows "x \<in> set (transactions d)
     \<and> (event_id x = field payload [''event_id'']
        \<or> transaction_id x = field payload [''data'', ''transaction_id''])"
proof -
  let ?eid = "field payload [''event_id'']"
  let ?tid = "field payload [''data'', ''transaction_id'']"
  have "checkDuplicate e d ?eid ?tid = Inl (DuplicateTransactionError x)"
  proof (cases "checkDuplicate e d ?eid ?tid")
    case (Inl err)
    with assms show ?thesis
      by (simp add: prepare_transaction_def required_present_props [OF assms(1)] and_then_def)
  next
    case (Inr u)
    with assms have "create_transaction e payload
        (calculateDerivedFields (number_of (field payload [''data'', ''amount''])))
      = Inl (DuplicateTransactionError x)"
      by (simp add: prepare_transaction_def required_present_props [OF assms(1)] and_then_def)
    from create_transaction_error [OF this] show ?thesis by simp
  qed
  from checkDuplicate_error [OF this] show ?thesis by auto
qed

lemma processWebhook_duplicate:
  assumes "fst (processWebhook e d payload) = Inl (DuplicateTransactionError x)"
  shows "x \<in> set (transactions d)
     \<and> (event_id x = field payload [''event_id'']
        \<or> transaction_id x = field payload [''data'', ''transaction_id''])"
proof (cases "fst (validate payload)")
  case (Inl err)
  with assms have "err = DuplicateTransactionError x"
    by (simp add: processWebhook_validation_failed)
  with validate_error_kind [of payload err] Inl show ?thesis by auto
next
  case (Inr u)
  then have v: "fst (validate payload) = Inr ()" by simp
  have np: "payload \<noteq> Undefined" "payload \<noteq> Null"
    using v requiredFields_null [of payload]
    by (auto simp: validate_def validateRequired_def and_then_def split: sum.splits)
  from v np have "first_failure (rule_outcomes payload) = Inr ()" by (simp add: validate_eq)
  moreover have "rule_outcomes payload = required_rule payload # tl (rule_outcomes payload)"
    by (simp add: rule_outcomes_def)
  ultimately have "first_failure (required_rule payload # tl (rule_outcomes payload)) = Inr ()"
    by simp
  then have "required_rule payload = Inr ()"
    by (cases "required_rule payload") simp_all
  with np have rp: "required_present payload" by (simp add: required_rule_ok)
  show ?thesis
  proof (cases "prepare_transaction e d payload")
    case (Inl err)
    with assms v have "err = DuplicateTransactionError x"
      by (simp add: processWebhook_after_validation)
    with Inl prepare_transaction_duplicate [OF rp] show ?thesis by simp
  next
    case (Inr t)
    with assms v have "fst (save_transaction e d t) = Inl (DuplicateTransactionError x)"
      by (simp add: processWebhook_after_validation)
    with save_transaction_cases [of e d t] show ?thesis by auto
  qed
qed

subsection \<open>Audit failures\<close>

lemma with_audit_faults_fields [simp]:
  "hmac_sha256 (with_audit_faults g e) = hmac_sha256 e"
  "WEBHOOK_SECRET (with_audit_faults g e) = WEBHOOK_SECRET e"
  "Date_now (with_audit_faults g e) = Date_now e"
  "new_Date (with_audit_faults g e) = new_Date e"
  "db_now (with_audit_faults g e) = db_now e"
  "generated_id (with_audit_faults g e) = generated_id e"
  "concurrent_commits (with_audit_faults g e) = concurrent_commits e"
  "storage_fault (with_audit_faults g e) FindByEventId = storage_fault e FindByEventId"
  "storage_fault (with_audit_faults g e) FindByTransactionId = storage_fault e FindByTransactionId"
  "storage_fault (with_audit_faults g e) InsertTransaction = storage_fault e InsertTransaction"
  by (simp_all add: with_audit_faults_def)

lemma findOne_audit_faults:
  "transactions d' = transactions d \<Longrightarrow>
   findOne (with_audit_faults g e) d' FindByEventId column v = findOne e d FindByEventId column v"
  "transactions d' = transactions d \<Longrightarrow>
   findOne (with_audit_faults g e) d' FindByTransactionId column v
     = findOne e d FindByTransactionId column v"
  by (simp_all add: findOne_def split: option.splits)

lemma checkDuplicate_audit_faults:
  "transactions d' = transactions d \<Longrightarrow>
   checkDuplicate (with_audit_faults g e) d' eid tid = checkDuplicate e d eid tid"
  by (simp add: checkDuplicate_def findOne_audit_faults cong: option.case_cong)

lemma create_transaction_audit_faults [simp]:
  "create_transaction (with_audit_faults g e) payload df = create_transaction e payload df"
  by (simp add: create_transaction_def)

lemma save_transaction_audit_faults:
  "transactions d' = transactions d \<Longrightarrow>
   fst (save_transaction (with_audit_faults g e) d' t) = fst (save_transaction e d t)
   \<and> transactions (snd (save_transaction (with_audit_faults g e) d' t))
       = transactions (snd (save_transaction e d t))"
  by (simp add: save_transaction_def insert_transaction_def split: option.splits)

lemma prepare_transaction_audit_faults:
  "transactions d' = transactions d \<Longrightarrow>
   prepare_transaction (with_audit_faults g e) d' payload = prepare_transaction e d payload"
  by (simp add: prepare_transaction_def checkDuplicate_audit_faults)

lemma persist_audit_faults:
  assumes "transactions d' = transactions d"
  shows "fst (persist (with_audit_faults g e) d' payload) = fst (persist e d payload)
   \<and> transactions (snd (persist (with_audit_faults g e) d' payload))
       = transactions (snd (persist e d payload))"
proof (cases "prepare_transaction e d payload")
  case (Inl err)
  then show ?thesis
    by (simp add: persist_def prepare_transaction_audit_faults [OF assms] assms)
next
  case (Inr t)
  obtain r1 d1 where s1: "save_transaction e d t = (r1, d1)"
    by (cases "save_transaction e d t")
  obtain r2 d2 where s2: "save_transaction (with_audit_faults g e) d' t = (r2, d2)"
    by (cases "save_transaction (with_audit_faults g e) d' t")
  from save_transaction_audit_faults [OF assms, where g = g and e = e and t = t] s1 s2
  have "r2 = r1" and "transactions d2 = transactions d1" by simp_all
  with Inr s1 s2 show ?thesis
    by (cases r1) (simp_all add: persist_def prepare_transaction_audit_faults [OF assms])
qed

lemma try_processWebhook_audit_faults:
  assumes "transactions d' = transactions d"
  shows "fst (fst (try_processWebhook (with_audit_faults g e) d' payload))
           = fst (fst (try_processWebhook e d payload))
   \<and> transactions (snd (fst (try_processWebhook (with_audit_faults g e) d' payload)))
       = transactions (snd (fst (try_processWebhook e d payload)))
   \<and> snd (try_processWebhook (with_audit_faults g e) d' payload)
       = snd (try_processWebhook e d payload)"
  using persist_audit_faults [OF assms, where g = g and e = e and payload = payload]
  by (auto simp: try_processWebhook_eq assms split: sum.splits)

lemma processWebhook_audit_faults:
  "fst (processWebhook (with_audit_faults g e) d payload) = fst (processWebhook e d payload)
   \<and> transactions (snd (processWebhook (with_audit_faults g e) d payload))
       = transactions (snd (processWebhook e d payload))"
proof -
  let ?d' = "logWebhookEvent (with_audit_faults g e) d payload ''received'' None"
  let ?d = "logWebhookEvent e d payload ''received'' None"
  have eq: "transactions ?d' = transactions ?d" by simp
  obtain r1 d1 p1 where t1: "try_processWebhook e ?d payload = ((r1, d1), p1)"
    by (cases "try_processWebhook e ?d payload") auto
  obtain r2 d2 p2
    where t2: "try_processWebhook (with_audit_faults g e) ?d' payload = ((r2, d2), p2)"
    by (cases "try_processWebhook (with_audit_faults g e) ?d' payload") auto
  from try_processWebhook_audit_faults [OF eq, where payload = payload and g = g and e = e] t1 t2
  have "r2 = r1" "transactions d2 = transactions d1" "p2 = p1" by simp_all
  with t1 t2 show ?thesis
    by (cases r1) (simp_all add: processWebhook_def)
qed

lemma verifySignature_audit_faults [simp]:
  "verifySignature (with_audit_faults g e) req = verifySignature e req"
  by (simp add: verifySignature_def cong: option.case_cong if_cong)

text \<open>
  C9. A failure while writing an audit log entry is swallowed: when the write raises,
  \<open>logWebhookEvent\<close> returns normally and leaves the tables as they were; it never
  touches \<open>transactions\<close>. Whatever audit writes fail (\<open>g\<close> is any assignment of
  failures to the audit writes), \<open>processWebhook\<close> returns or raises the same value and
  leaves the same \<open>transactions\<close>, and the HTTP response of the route is the same.
\<close>

theorem audit_failure_is_swallowed:
  "(\<forall>x. write_audit_log e d payload st err = Inl x \<longrightarrow> logWebhookEvent e d payload st err = d)
   \<and> transactions (logWebhookEvent e d payload st err) = transactions d
   \<and> fst (processWebhook (with_audit_faults g e) d payload) = fst (processWebhook e d payload)
   \<and> transactions (snd (processWebhook (with_audit_faults g e) d payload))
       = transactions (snd (processWebhook e d payload))
   \<and> fst (post_payment (with_audit_faults g e) d req) = fst (post_payment e d req)"
proof -
  have a: "\<forall>x. write_audit_log e d payload st err = Inl x
             \<longrightarrow> logWebhookEvent e d payload st err = d"
    by (simp add: logWebhookEvent_def)
  have h: "fst (payment_handler (with_audit_faults g e) d p) = fst (payment_handler e d p)" for p
    using processWebhook_audit_faults [where g = g and e = e and d = d and payload = p]
    by (auto simp: payment_handler_def split: prod.splits sum.splits)
  have r: "fst (post_payment (with_audit_faults g e) d req) = fst (post_payment e d req)"
    by (simp add: post_payment_def h split: option.splits sum.splits)
  from a r processWebhook_audit_faults [where g = g and e = e and d = d and payload = payload]
  show ?thesis by simp
qed

theorem audit_failure_is_swallowed_witness:
  "write_audit_log (example_env\<lparr>storage_fault := (\<lambda>op. Some ''connection lost'')\<rparr>) empty_db
       example_payload ''received'' None
     = Inl (QueryFailedError ''connection lost'')
   \<and> logWebhookEvent (example_env\<lparr>storage_fault := (\<lambda>op. Some ''connection lost'')\<rparr>) empty_db
       example_payload ''received'' None
     = empty_db"
  using audit_failure_is_swallowed
          [where e = "example_env\<lparr>storage_fault := (\<lambda>op. Some ''connection lost'')\<rparr>"
             and d = empty_db and payload = example_payload and st = "''received''"
             and err = None]
  by (simp add: write_audit_log_def save_audit_log_def and_then_def example_payload_def
        example_event_def example_env_def)

subsection \<open>Audit rows of a request\<close>

lemma verifySignature_signed: "verifySignature example_env signed_request = Inr ()"
  by (simp add: verifySignature_def signed_request_def example_env_def example_body_def
        verify_iff)

lemma verifySignature_unsigned:
  "verifySignature example_env unsigned_request = Inl (unauthorized ''Missing webhook signature'')"
  by (simp add: verifySignature_def unsigned_request_def)

text \<open>
  C2 (as amended). Every request that reaches \<open>processWebhook\<close>, that is, whose body is
  JSON and whose signature the middleware accepts, results in exactly two audit rows when
  the audit writes succeed: the first with status \<open>received\<close>, written before any
  validation, the second with status \<open>processed\<close> when the transaction is returned and
  \<open>failed\<close>, with the message of the error, when the call raises. A request that the
  signature middleware rejects, or whose body is not JSON, writes no audit row.
\<close>

theorem audit_rows_of_a_request:
  "(audit_writes_succeed e payload \<longrightarrow>
      audit_logs (snd (processWebhook e d payload)) =
        audit_logs d @
          [audit_entry payload ''received'' None,
           (case fst (processWebhook e d payload) of
              Inr t \<Rightarrow> audit_entry payload ''processed'' None
            | Inl err \<Rightarrow> audit_entry payload ''failed'' (Some (error_message err)))])
   \<and> (parsed_body req = None \<or> (\<exists>res. verifySignature e req = Inl res)
        \<longrightarrow> snd (post_payment e d req) = d)
   \<and> (parsed_body req = Some payload \<and> verifySignature e req = Inr ()
        \<longrightarrow> snd (post_payment e d req) = snd (processWebhook e d payload))"
proof (intro conjI impI)
  assume "audit_writes_succeed e payload"
  then show "audit_logs (snd (processWebhook e d payload)) =
        audit_logs d @
          [audit_entry payload ''received'' None,
           (case fst (processWebhook e d payload) of
              Inr t \<Rightarrow> audit_entry payload ''processed'' None
            | Inl err \<Rightarrow> audit_entry payload ''failed'' (Some (error_message err)))]"
    by (rule processWebhook_audit_logs)
next
  assume "parsed_body req = None \<or> (\<exists>res. verifySignature e req = Inl res)"
  then show "snd (post_payment e d req) = d" by (rule post_payment_rejected)
next
  assume "parsed_body req = Some payload \<and> verifySignature e req = Inr ()"
  then show "snd (post_payment e d req) = snd (processWebhook e d payload)"
    by (simp add: post_payment_def payment_handler_def split: prod.splits sum.splits)
qed

theorem audit_rows_of_a_request_witness:
  "audit_writes_succeed example_env example_payload
   \<and> audit_logs (snd (processWebhook example_env empty_db example_payload))
       = [audit_entry example_payload ''received'' None,
          audit_entry example_payload ''processed'' None]
   \<and> verifySignature example_env unsigned_request
       = Inl (unauthorized ''Missing webhook signature'')
   \<and> snd (post_payment example_env empty_db unsigned_request) = empty_db
   \<and> parsed_body signed_request = Some example_payload
   \<and> verifySignature example_env signed_request = Inr ()
   \<and> audit_logs (snd (post_payment example_env empty_db signed_request))
       = [audit_entry example_payload ''received'' None,
          audit_entry example_payload ''processed'' None]"
proof -
  have a: "audit_writes_succeed example_env example_payload"
    by (rule audit_writes_succeed_example) (simp add: example_env_def)
  have p: "parsed_body signed_request = Some example_payload"
    by (simp add: signed_request_def)
  from audit_rows_of_a_request
         [where e = example_env and payload = example_payload and d = empty_db
            and req = unsigned_request]
       audit_rows_of_a_request
         [where e = example_env and payload = example_payload and d = empty_db
            and req = signed_request]
       a p verifySignature_signed verifySignature_unsigned
  show ?thesis by (simp add: processWebhook_example)
qed

theorem unsigned_request_counterexample:
  "http_status (fst (post_payment example_env empty_db unsigned_request)) = 401
   \<and> audit_logs (snd (post_payment example_env empty_db unsigned_request)) = []"
  unfolding post_payment_unsigned by (simp add: unauthorized_def empty_db_def)

subsection \<open>A uniqueness violation at the insert\<close>

lemma error_response_status:
  "http_status (error_response err) = 409 \<longleftrightarrow> (\<exists>x. err = DuplicateTransactionError x)"
  "(\<exists>m. err = QueryFailedError m) \<Longrightarrow> http_status (error_response err) = 500"
  by (cases err; auto simp: error_response_def)+

lemma payment_handler_status_409:
  "http_status (fst (payment_handler e d payload)) = 409
   \<longleftrightarrow> (\<exists>x. fst (processWebhook e d payload) = Inl (DuplicateTransactionError x))"
proof (cases "processWebhook e d payload")
  case (Pair r d1)
  then show ?thesis
    by (cases r) (simp_all add: payment_handler_def error_response_status success_response_def)
qed

lemma processWebhook_replay:
  "fst (processWebhook example_env processed_db example_payload)
     = Inl (DuplicateTransactionError example_transaction)"
proof -
  have "prepare_transaction example_env processed_db example_payload
      = Inl (DuplicateTransactionError example_transaction)"
    by (simp add: prepare_transaction_def checkDuplicate_def findOne_def and_then_def
          processed_db_def example_env_def example_payload_def example_event_def
          example_transaction_def get_prop2_def)
  then show ?thesis by (simp add: processWebhook_after_validation validate_example)
qed

text \<open>
  C1 (as amended). When the duplicate check has passed and the insert of the Transaction
  raises a uniqueness violation (another request has committed the same \<open>event_id\<close> or
  \<open>transaction_id\<close> in between), \<open>processWebhook\<close> re-raises that storage error as it
  is, inserts no row, and the route answers HTTP 500. \<open>DuplicateTransactionError\<close>, and
  with it HTTP 409, comes only from the duplicate check, for a row that was in the table
  when the request arrived.
\<close>

theorem insert_violation_is_a_storage_error:
  "(fst (validate payload) = Inr () \<and> prepare_transaction e d payload = Inr t
      \<and> storage_fault e InsertTransaction = None
      \<and> unique_violation (transactions d @ concurrent_commits e) t
     \<longrightarrow> fst (processWebhook e d payload)
           = Inl (QueryFailedError ''duplicate key value violates unique constraint'')
         \<and> transactions (snd (processWebhook e d payload))
             = transactions d @ concurrent_commits e
         \<and> http_status (fst (payment_handler e d payload)) = 500)
   \<and> (\<forall>x. fst (processWebhook e d payload) = Inl (DuplicateTransactionError x)
          \<longrightarrow> x \<in> set (transactions d)
              \<and> (event_id x = field payload [''event_id'']
                 \<or> transaction_id x = field payload [''data'', ''transaction_id'']))
   \<and> (http_status (fst (payment_handler e d payload)) = 409
        \<longleftrightarrow> (\<exists>x. fst (processWebhook e d payload) = Inl (DuplicateTransactionError x)))"
proof -
  have a: "fst (processWebhook e d payload)
           = Inl (QueryFailedError ''duplicate key value violates unique constraint'')
         \<and> transactions (snd (processWebhook e d payload))
             = transactions d @ concurrent_commits e
         \<and> http_status (fst (payment_handler e d payload)) = 500"
    if h: "fst (validate payload) = Inr () \<and> prepare_transaction e d payload = Inr t
      \<and> storage_fault e InsertTransaction = None
      \<and> unique_violation (transactions d @ concurrent_commits e) t"
  proof -
    from h have s: "save_transaction e d t
      = (Inl (QueryFailedError ''duplicate key value violates unique constraint''),
         d\<lparr>transactions := transactions d @ concurrent_commits e\<rparr>)"
      by (simp add: save_transaction_def insert_transaction_def)
    with h have r: "fst (processWebhook e d payload)
           = Inl (QueryFailedError ''duplicate key value violates unique constraint'')"
      by (simp add: processWebhook_after_validation)
    from h s have u: "transactions (snd (processWebhook e d payload))
             = transactions d @ concurrent_commits e"
      by (simp add: processWebhook_after_validation)
    from r have "http_status (fst (payment_handler e d payload)) = 500"
      by (cases "processWebhook e d payload")
         (simp add: payment_handler_def error_response_status)
    with r u show ?thesis by simp
  qed
  have b: "x \<in> set (transactions d)
              \<and> (event_id x = field payload [''event_id'']
                 \<or> transaction_id x = field payload [''data'', ''transaction_id''])"
    if "fst (processWebhook e d payload) = Inl (DuplicateTransactionError x)" for x
    using that by (rule processWebhook_duplicate)
  have c: "http_status (fst (payment_handler e d payload)) = 409
        \<longleftrightarrow> (\<exists>x. fst (processWebhook e d payload) = Inl (DuplicateTransactionError x))"
    by (rule payment_handler_status_409)
  show ?thesis
  proof (intro conjI)
    show "fst (validate payload) = Inr () \<and> prepare_transaction e d payload = Inr t
      \<and> storage_fault e InsertTransaction = None
      \<and> unique_violation (transactions d @ concurrent_commits e) t
     \<longrightarrow> fst (processWebhook e d payload)
           = Inl (QueryFailedError ''duplicate key value violates unique constraint'')
         \<and> transactions (snd (processWebhook e d payload))
             = transactions d @ concurrent_commits e
         \<and> http_status (fst (payment_handler e d payload)) = 500"
      using a by (rule impI)
    show "\<forall>x. fst (processWebhook e d payload) = Inl (DuplicateTransactionError x)
          \<longrightarrow> x \<in> set (transactions d)
              \<and> (event_id x = field payload [''event_id'']
                 \<or> transaction_id x = field payload [''data'', ''transaction_id''])"
      using b by (intro allI impI)
    show "http_status (fst (payment_handler e d payload)) = 409
        \<longleftrightarrow> (\<exists>x. fst (processWebhook e d payload) = Inl (DuplicateTransactionError x))"
      by (rule c)
  qed
qed

theorem insert_violation_is_a_storage_error_witness:
  "fst (validate example_payload) = Inr ()
   \<and> prepare_transaction racing_env empty_db example_payload
       = Inr (example_transaction\<lparr>id_column := None, created_at := None, updated_at := None\<rparr>)
   \<and> storage_fault racing_env InsertTransaction = None
   \<and> unique_violation (transactions empty_db @ concurrent_commits racing_env)
        (example_transaction\<lparr>id_column := None, created_at := None, updated_at := None\<rparr>)
   \<and> fst (processWebhook racing_env empty_db example_payload)
       = Inl (QueryFailedError ''duplicate key value violates unique constraint'')
   \<and> http_status (fst (payment_handler racing_env empty_db example_payload)) = 500
   \<and> fst (processWebhook example_env processed_db example_payload)
       = Inl (DuplicateTransactionError example_transaction)
   \<and> example_transaction \<in> set (transactions processed_db)
   \<and> http_status (fst (payment_handler example_env processed_db example_payload)) = 409"
proof -
  have p: "prepare_transaction racing_env empty_db example_payload
       = Inr (example_transaction\<lparr>id_column := None, created_at := None, updated_at := None\<rparr>)"
    by (rule prepare_transaction_example)
       (simp_all add: racing_env_def example_env_def empty_db_def)
  have f: "storage_fault racing_env InsertTransaction = None"
    by (simp add: racing_env_def example_env_def)
  have u: "unique_violation (transactions empty_db @ concurrent_commits racing_env)
        (example_transaction\<lparr>id_column := None, created_at := None, updated_at := None\<rparr>)"
    by (simp add: unique_violation_def racing_env_def empty_db_def)
  from insert_violation_is_a_storage_error
         [where payload = example_payload and e = racing_env and d = empty_db
            and t = "example_transaction\<lparr>id_column := None, created_at := None,
                       updated_at := None\<rparr>"]
       insert_violation_is_a_storage_error
         [where payload = example_payload and e = example_env and d = processed_db
            and t = example_transaction]
       validate_example p f u processWebhook_replay
  show ?thesis by (simp add: processed_db_def)
qed

theorem insert_violation_counterexample:
  "fst (processWebhook racing_env empty_db example_payload)
     = Inl (QueryFailedError ''duplicate key value violates unique constraint'')
   \<and> http_status (fst (payment_handler racing_env empty_db example_payload)) = 500
   \<and> (\<forall>x. fst (processWebhook racing_env empty_db example_payload)
          \<noteq> Inl (DuplicateTransactionError x))"
  by (simp add: processWebhook_racing payment_handler_def error_response_def)

subsection \<open>The persisted record\<close>

lemma validate_ok:
  assumes "fst (validate p) = Inr ()"
  shows "required_present p"
    and "validateCurrency (field p [''data'', ''currency'']) = Inr ()"
    and "validateCountryCodes_from 0 [field p [''data'', ''sender'', ''country'']] = Inr ()"
    and "validateCountryCodes_from 1 [field p [''data'', ''receiver'', ''country'']] = Inr ()"
proof -
  have n: "p \<noteq> Undefined \<and> p \<noteq> Null"
  proof (rule ccontr)
    assume "\<not> (p \<noteq> Undefined \<and> p \<noteq> Null)"
    then have "p = Undefined \<or> p = Null" by simp
    then obtain m where "requiredFields p = Inl (TypeError m)"
      using requiredFields_null by blast
    with assms show False
      by (simp add: validate_def validateRequired_def and_then_def)
  qed
  with assms have "first_failure (rule_outcomes p) = Inr ()" by (simp add: validate_eq)
  then have a: "\<forall>r \<in> set (rule_outcomes p). r = Inr ()" by (simp only: first_failure_ok)
  from a have "required_rule p = Inr ()" unfolding rule_outcomes_def by simp
  with n show "required_present p" by (simp add: required_rule_ok)
  from a show "validateCurrency (field p [''data'', ''currency'']) = Inr ()"
    unfolding rule_outcomes_def by simp
  from a show "validateCountryCodes_from 0 [field p [''data'', ''sender'', ''country'']] = Inr ()"
    unfolding rule_outcomes_def by simp
  from a show "validateCountryCodes_from 1 [field p [''data'', ''receiver'', ''country'']] = Inr ()"
    unfolding rule_outcomes_def by simp
qed

lemma validateCurrency_ok:
  "validateCurrency v = Inr () \<Longrightarrow> \<exists>c. v = Str c \<and> toUpperCase c \<in> set VALID_CURRENCIES"
  by (cases v) (simp_all add: validateCurrency_def split: if_splits)

lemma validateCountry_ok:
  "validateCountryCodes_from i [v] = Inr () \<Longrightarrow> \<exists>s. v = Str s \<and> rx_match iso2Regex (toUpperCase s)"
  by (cases v) (simp_all split: if_splits)

lemma create_transaction_eq:
  assumes "required_present p"
    and "field p [''data'', ''currency''] = Str c"
    and "field p [''data'', ''sender'', ''country''] = Str s"
    and "field p [''data'', ''receiver'', ''country''] = Str r"
  shows "create_transaction e p df =
       Inr \<lparr>id_column = None,
            event_id = field p [''event_id''],
            transaction_id = field p [''data'', ''transaction_id''],
            amount = field p [''data'', ''amount''],
            currency = Str (toUpperCase c),
            sender_id = field p [''data'', ''sender'', ''id''],
            sender_name = field p [''data'', ''sender'', ''name''],
            sender_country = Str (toUpperCase s),
            receiver_id = field p [''data'', ''receiver'', ''id''],
            receiver_name = field p [''data'', ''receiver'', ''name''],
            receiver_country = Str (toUpperCase r),
            status = field p [''data'', ''status''],
            payment_method = field p [''data'', ''payment_method''],
            processing_fee = df_processing_fee df,
            net_amount = df_net_amount df,
            exchange_rate = None,
            metadata = field p [''data'', ''metadata''],
            processed_at = Some (new_Date e),
            created_at = None,
            updated_at = None\<rparr>"
  using assms(2-4) unfolding create_transaction_def required_present_props [OF assms(1)]
  by (simp add: and_then_def)

lemma prepare_transaction_fields:
  assumes v: "fst (validate p) = Inr ()" and t: "prepare_transaction e d p = Inr t"
  shows "\<exists>c s r. field p [''data'', ''currency''] = Str c
           \<and> toUpperCase c \<in> set VALID_CURRENCIES
           \<and> field p [''data'', ''sender'', ''country''] = Str s
           \<and> rx_match iso2Regex (toUpperCase s)
           \<and> field p [''data'', ''receiver'', ''country''] = Str r
           \<and> rx_match iso2Regex (toUpperCase r)
           \<and> currency t = Str (toUpperCase c)
           \<and> sender_country t = Str (toUpperCase s)
           \<and> receiver_country t = Str (toUpperCase r)
           \<and> processed_at t = Some (new_Date e)
           \<and> exchange_rate t = None"
proof -
  note ok = validate_ok [OF v]
  from validateCurrency_ok [OF ok(2)] obtain c
    where c: "field p [''data'', ''currency''] = Str c" "toUpperCase c \<in> set VALID_CURRENCIES"
    by blast
  from validateCountry_ok [OF ok(3)] obtain s
    where s: "field p [''data'', ''sender'', ''country''] = Str s"
      "rx_match iso2Regex (toUpperCase s)"
    by blast
  from validateCountry_ok [OF ok(4)] obtain r
    where r: "field p [''data'', ''receiver'', ''country''] = Str r"
      "rx_match iso2Regex (toUpperCase r)"
    by blast
  note ct = create_transaction_eq [OF ok(1) c(1) s(1) r(1)]
  from t have "currency t = Str (toUpperCase c) \<and> sender_country t = Str (toUpperCase s)
     \<and> receiver_country t = Str (toUpperCase r) \<and> processed_at t = Some (new_Date e)
     \<and> exchange_rate t = None"
    unfolding prepare_transaction_def required_present_props [OF ok(1)] ct
    by (cases "checkDuplicate e d (field p [''event_id'']) (field p [''data'', ''transaction_id''])")
       (auto simp: and_then_def)
  with c s r show ?thesis by blast
qed

lemma processWebhook_success:
  assumes "fst (processWebhook e d p) = Inr t"
  shows "fst (validate p) = Inr ()"
    and "\<exists>t0. prepare_transaction e d p = Inr t0
          \<and> t = t0\<lparr>id_column := Some (generated_id e), created_at := Some (db_now e),
                   updated_at := Some (db_now e)\<rparr>
          \<and> transactions (snd (processWebhook e d p))
              = transactions d @ concurrent_commits e @ [t]"
proof -
  show v: "fst (validate p) = Inr ()"
  proof (cases "fst (validate p)")
    case (Inl err)
    with assms show ?thesis by (simp add: processWebhook_validation_failed)
  qed simp
  show "\<exists>t0. prepare_transaction e d p = Inr t0
          \<and> t = t0\<lparr>id_column := Some (generated_id e), created_at := Some (db_now e),
                   updated_at := Some (db_now e)\<rparr>
          \<and> transactions (snd (processWebhook e d p))
              = transactions d @ concurrent_commits e @ [t]"
  proof (cases "prepare_transaction e d p")
    case (Inl err)
    with assms v show ?thesis by (simp add: processWebhook_after_validation)
  next
    case (Inr t0)
    with assms v have s: "fst (save_transaction e d t0) = Inr t"
      by (simp add: processWebhook_after_validation)
    from v Inr have tr: "transactions (snd (processWebhook e d p))
        = transactions (snd (save_transaction e d t0))"
      by (simp add: processWebhook_after_validation)
    from save_transaction_cases [of e d t0] s tr Inr show ?thesis by auto
  qed
qed

lemma processWebhook_failure_rows:
  assumes "fst (processWebhook e d p) = Inl err"
  shows "transactions (snd (processWebhook e d p)) = transactions d
       \<or> transactions (snd (processWebhook e d p)) = transactions d @ concurrent_commits e"
proof (cases "fst (validate p)")
  case (Inl err')
  then show ?thesis by (simp add: processWebhook_validation_failed)
next
  case (Inr u)
  then have v: "fst (validate p) = Inr ()" by simp
  show ?thesis
  proof (cases "prepare_transaction e d p")
    case (Inl err')
    with v show ?thesis by (simp add: processWebhook_after_validation)
  next
    case (Inr t0)
    with assms v have s: "fst (save_transaction e d t0) = Inl err"
      by (simp add: processWebhook_after_validation)
    from v Inr have tr: "transactions (snd (processWebhook e d p))
        = transactions (snd (save_transaction e d t0))"
      by (simp add: processWebhook_after_validation)
    from save_transaction_cases [of e d t0] s tr show ?thesis by auto
  qed
qed

lemma processWebhook_fields:
  assumes "fst (processWebhook e d p) = Inr t"
  shows "\<exists>c s r. field p [''data'', ''currency''] = Str c
           \<and> toUpperCase c \<in> set VALID_CURRENCIES
           \<and> field p [''data'', ''sender'', ''country''] = Str s
           \<and> rx_match iso2Regex (toUpperCase s)
           \<and> field p [''data'', ''receiver'', ''country''] = Str r
           \<and> rx_match iso2Regex (toUpperCase r)
           \<and> currency t = Str (toUpperCase c)
           \<and> sender_country t = Str (toUpperCase s)
           \<and> receiver_country t = Str (toUpperCase r)
           \<and> processed_at t = Some (new_Date e)
           \<and> exchange_rate t = None"
proof -
  from processWebhook_success [OF assms] obtain t0
    where v: "fst (validate p) = Inr ()" and p: "prepare_transaction e d p = Inr t0"
      and t: "t = t0\<lparr>id_column := Some (generated_id e), created_at := Some (db_now e),
                   updated_at := Some (db_now e)\<rparr>"
    by blast
  from prepare_transaction_fields [OF v p] t show ?thesis by simp
qed

text \<open>
  C8. When \<open>processWebhook\<close> returns a Transaction, that record is the one row the call
  adds to the table (after the rows other requests have committed meanwhile). Its
  currency is the upper-cased currency of the payload, one of the supported codes; its
  sender and receiver country are the upper-cased country codes of the payload, two
  capital letters each; \<open>processed_at\<close> is the clock reading taken when the entity is
  built for the save; \<open>exchange_rate\<close> is null. When the call raises, it has added no row.
\<close>

theorem persisted_transaction_is_normalised:
  "(fst (processWebhook e d payload) = Inr t \<longrightarrow>
      transactions (snd (processWebhook e d payload))
        = transactions d @ concurrent_commits e @ [t]
      \<and> (\<exists>c s r. field payload [''data'', ''currency''] = Str c
            \<and> toUpperCase c \<in> set VALID_CURRENCIES
            \<and> field payload [''data'', ''sender'', ''country''] = Str s
            \<and> rx_match iso2Regex (toUpperCase s)
            \<and> field payload [''data'', ''receiver'', ''country''] = Str r
            \<and> rx_match iso2Regex (toUpperCase r)
            \<and> currency t = Str (toUpperCase c)
            \<and> sender_country t = Str (toUpperCase s)
            \<and> receiver_country t = Str (toUpperCase r)
            \<and> processed_at t = Some (new_Date e)
            \<and> exchange_rate t = None))
   \<and> (fst (processWebhook e d payload) = Inl err \<longrightarrow>
        transactions (snd (processWebhook e d payload)) = transactions d
        \<or> transactions (snd (processWebhook e d payload))
             = transactions d @ concurrent_commits e)"
proof (rule conjI; rule impI)
  assume a: "fst (processWebhook e d payload) = Inr t"
  from processWebhook_success(2) [OF a]
  have "transactions (snd (processWebhook e d payload))
        = transactions d @ concurrent_commits e @ [t]"
    by blast
  with processWebhook_fields [OF a]
  show "transactions (snd (processWebhook e d payload))
        = transactions d @ concurrent_commits e @ [t]
      \<and> (\<exists>c s r. field payload [''data'', ''currency''] = Str c
            \<and> toUpperCase c \<in> set VALID_CURRENCIES
            \<and> field payload [''data'', ''sender'', ''country''] = Str s
            \<and> rx_match iso2Regex (toUpperCase s)
            \<and> field payload [''data'', ''receiver'', ''country''] = Str r
            \<and> rx_match iso2Regex (toUpperCase r)
            \<and> currency t = Str (toUpperCase c)
            \<and> sender_country t = Str (toUpperCase s)
            \<and> receiver_country t = Str (toUpperCase r)
            \<and> processed_at t = Some (new_Date e)
            \<and> exchange_rate t = None)"
    by simp
next
  assume "fst (processWebhook e d payload) = Inl err"
  then show "transactions (snd (processWebhook e d payload)) = transactions d
        \<or> transactions (snd (processWebhook e d payload))
             = transactions d @ concurrent_commits e"
    by (rule processWebhook_failure_rows)
qed

theorem persisted_transaction_is_normalised_witness:
  "fst (processWebhook example_env empty_db example_payload) = Inr example_transaction
   \<and> transactions (snd (processWebhook example_env empty_db example_payload))
       = [example_transaction]
   \<and> field example_payload [''data'', ''currency''] = Str ''usd''
   \<and> field example_payload [''data'', ''sender'', ''country''] = Str ''us''
   \<and> field example_payload [''data'', ''receiver'', ''country''] = Str ''In''
   \<and> currency example_transaction = Str ''USD''
   \<and> sender_country example_transaction = Str ''US''
   \<and> receiver_country example_transaction = Str ''IN''
   \<and> processed_at example_transaction = Some (new_Date example_env)
   \<and> exchange_rate example_transaction = None
   \<and> fst (processWebhook racing_env empty_db example_payload)
       = Inl (QueryFailedError ''duplicate key value violates unique constraint'')
   \<and> transactions (snd (processWebhook racing_env empty_db example_payload))
       = transactions empty_db @ concurrent_commits racing_env"
  using persisted_transaction_is_normalised
          [where e = example_env and d = empty_db and payload = example_payload
             and t = example_transaction and err = "Error []"]
        persisted_transaction_is_normalised
          [where e = racing_env and d = empty_db and payload = example_payload
             and t = example_transaction
             and err = "QueryFailedError ''duplicate key value violates unique constraint''"]
  unfolding processWebhook_example processWebhook_racing
  by (simp add: example_transaction_def example_payload_def example_event_def
        example_party_def example_env_def racing_env_def empty_db_def)

subsection \<open>The store after validation\<close>

lemma frame_finish: "snd (finish x h) = h"
  by (simp add: finish_def)

lemma frame_throw: "snd (throw err h) = h"
  by (simp add: throw_def)

lemma frame_read_opt: "snd (read_opt v k h) = h"
  by (simp add: read_opt_def)

lemma frame_read_prop: "snd (read_prop v k h) = h"
  by (cases v) (simp_all add: read_prop_def throw_def)

lemma frame_then_do:
  assumes "\<And>h. snd (m h) = h" and "\<And>x h. snd (f x h) = h"
  shows "snd (then_do m f h) = h"
proof (cases "m h")
  case (Pair r h1)
  with assms(1) [of h] have "h1 = h" by simp
  with Pair assms(2) show ?thesis by (cases r) (simp_all add: then_do_def)
qed

lemmas frame_reads = frame_finish frame_throw frame_read_opt frame_read_prop

lemma frame_read_prop2: "snd (read_prop2 v a b h) = h"
  unfolding read_prop2_def by (intro frame_then_do frame_reads)

lemma frame_read_prop3: "snd (read_prop3 v a b c h) = h"
  unfolding read_prop3_def by (intro frame_then_do frame_reads frame_read_prop2)

lemma frame_data_opt: "snd (data_opt v k h) = h"
  unfolding data_opt_def by (intro frame_then_do frame_reads)

lemma frame_data_opt2: "snd (data_opt2 v a b h) = h"
  unfolding data_opt2_def by (intro frame_then_do frame_reads frame_data_opt)

lemma frame_requiredFields_s: "snd (requiredFields_s v h) = h"
  unfolding requiredFields_s_def
  by (intro frame_then_do frame_reads frame_data_opt frame_data_opt2)

lemma frame_check_required_s: "snd (check_required_s xs h) = h"
  by (induction xs) (auto simp: frame_reads)

lemma frame_validateRequired_s: "snd (validateRequired_s v h) = h"
  unfolding validateRequired_s_def
  by (intro frame_then_do frame_requiredFields_s frame_check_required_s)

lemma frame_validateAmount_s: "snd (validateAmount_s v h) = h"
  by (cases v) (simp_all add: validateAmount_s_def frame_reads)

lemma frame_validateCurrency_s: "snd (validateCurrency_s v h) = h"
  by (cases v) (simp_all add: validateCurrency_s_def frame_reads)

lemma frame_validateStatus_s: "snd (validateStatus_s v h) = h"
  by (simp add: validateStatus_s_def frame_reads)

lemma frame_validateCountryCodes_from_s: "snd (validateCountryCodes_from_s i vs h) = h"
proof (induction vs arbitrary: i)
  case Nil
  show ?case by (simp add: frame_reads)
next
  case (Cons v vs)
  then show ?case by (cases v) (simp_all add: frame_reads)
qed

lemma frame_validateCountryCodes_s: "snd (validateCountryCodes_s vs h) = h"
  by (simp add: validateCountryCodes_s_def frame_validateCountryCodes_from_s)

lemma frame_validateEmail_s: "snd (validateEmail_s v n h) = h"
  by (cases v) (simp_all add: validateEmail_s_def frame_reads)

lemma frame_validate_s: "snd (validate_s v h) = h"
  unfolding validate_s_def
  by (intro frame_then_do frame_validateRequired_s frame_read_prop2 frame_read_prop3
        frame_validateAmount_s frame_validateCurrency_s frame_validateStatus_s
        frame_validateCountryCodes_s frame_validateEmail_s)


subsection \<open>The store and the value it holds\<close>

lemma then_do_fst:
  assumes "\<And>h. snd (m h) = h"
  shows "then_do m f h = (case fst (m h) of Inl err \<Rightarrow> (Inl err, h) | Inr x \<Rightarrow> f x h)"
  using assms [of h] by (cases "m h") (auto simp: then_do_def split: sum.splits)

lemma then_do_rel:
  assumes "\<And>h. snd (m h) = h"
    and "rel_sum (=) R (fst (m h)) r"
    and "\<And>x y. R x y \<Longrightarrow> rel_sum (=) S (fst (f x h)) (g y)"
  shows "rel_sum (=) S (fst (then_do m f h)) (and_then r g)"
  using assms(2,3)
  by (cases "fst (m h)"; cases r) (simp_all add: then_do_fst [OF assms(1)] and_then_def)

lemma represents_fields_map_of:
  "represents_fields h fs kvs \<Longrightarrow>
   represents h (case map_of fs k of None \<Rightarrow> VUndefined | Some x \<Rightarrow> x)
                (case map_of kvs k of None \<Rightarrow> Undefined | Some v \<Rightarrow> v)"
proof (induction kvs arbitrary: fs)
  case Nil
  then show ?case by simp
next
  case (Cons kv kvs)
  then obtain f fs' where fs: "fs = f # fs'" by (cases fs) auto
  with Cons.prems have p: "fst f = fst kv" "represents h (snd f) (snd kv)"
      "represents_fields h fs' kvs"
    by simp_all
  show ?case
  proof (cases "fst kv = k")
    case True
    with p fs show ?thesis by (cases f; cases kv) simp
  next
    case False
    with p fs Cons.IH [OF p(3)] show ?thesis by (cases f; cases kv) simp
  qed
qed

lemma own_prop_represents:
  assumes "represents h v p"
  shows "represents h (own_prop h v k) (opt_prop p k)"
proof (cases p)
  case (Obj kvs)
  with assms obtain a fs where v: "v = VRef a" and o: "object_at h a = Some (OObj fs)"
    and f: "represents_fields h fs kvs"
    by (auto split: val.splits option.splits object.splits)
  from represents_fields_map_of [OF f, of k] show ?thesis
    by (simp add: Obj v o own_prop_def)
qed (use assms in \<open>auto simp: own_prop_def split: val.splits option.splits object.splits\<close>)

lemma represents_null:
  assumes "represents h v p"
  shows "v = VUndefined \<longleftrightarrow> p = Undefined" and "v = VNull \<longleftrightarrow> p = Null"
    and "v = VStr s \<longleftrightarrow> p = Str s" and "v = VNum n \<longleftrightarrow> p = Num n"
  using assms by (cases p; auto split: val.splits)+

lemma read_prop_represents:
  assumes "represents h v p"
  shows "rel_sum (=) (represents h) (fst (read_prop v k h)) (get_prop p k)"
proof (cases "p = Undefined \<or> p = Null")
  case True
  with assms show ?thesis by (auto simp: read_prop_def throw_def)
next
  case False
  with represents_null(1,2) [OF assms] have v: "v \<noteq> VUndefined" "v \<noteq> VNull" by simp_all
  then have "fst (read_prop v k h) = Inr (own_prop h v k)"
    by (cases v) (simp_all add: read_prop_def)
  with False own_prop_represents [OF assms, of k] show ?thesis
    by (simp add: get_prop_opt)
qed

lemma read_prop2_represents:
  assumes "represents h v p"
  shows "rel_sum (=) (represents h) (fst (read_prop2 v a b h)) (get_prop2 p a b)"
  unfolding read_prop2_def get_prop2_def
  by (rule then_do_rel [where R = "represents h"])
     (simp_all add: frame_read_prop read_prop_represents assms)

lemma read_prop3_represents:
  assumes "represents h v p"
  shows "rel_sum (=) (represents h) (fst (read_prop3 v a b c h)) (get_prop3 p a b c)"
  unfolding read_prop3_def get_prop3_def
  by (rule then_do_rel [where R = "represents h"])
     (simp_all add: frame_read_prop2 read_prop2_represents read_prop_represents assms)


lemma represents_typeof:
  assumes "represents h v p"
  shows "typeof_val v = typeof p" and "truthy_val v = truthy p"
  using assms by (cases p; auto split: val.splits)+

lemma validateAmount_s_eq:
  assumes "represents h v p"
  shows "fst (validateAmount_s v h) = validateAmount p"
  using assms
  by (cases p; cases v)
     (simp_all add: validateAmount_s_def validateAmount_def throw_def finish_def)

lemma validateCurrency_s_eq:
  assumes "represents h v p"
  shows "fst (validateCurrency_s v h) = validateCurrency p"
  using assms
  by (cases p; cases v)
     (simp_all add: validateCurrency_s_def validateCurrency_def throw_def finish_def)

lemma validateStatus_s_eq:
  assumes "represents h v p"
  shows "fst (validateStatus_s v h) = validateStatus p"
  using assms
  by (cases p; cases v)
     (auto simp: validateStatus_s_def validateStatus_def throw_def finish_def)

lemma validateEmail_s_eq:
  assumes "represents h v p"
  shows "fst (validateEmail_s v n h) = validateEmail p n"
  using assms
  by (cases p; cases v)
     (simp_all add: validateEmail_s_def validateEmail_def throw_def finish_def)

lemma validateCountryCodes_from_s_eq:
  "list_all2 (represents h) vs ps \<Longrightarrow>
   fst (validateCountryCodes_from_s i vs h) = validateCountryCodes_from i ps"
proof (induction vs ps arbitrary: i rule: list_all2_induct)
  case Nil
  show ?case by (simp add: finish_def)
next
  case (Cons v vs p ps)
  from Cons(1) show ?case
    by (cases p; cases v) (simp_all add: throw_def Cons.IH)
qed

lemma validateCountryCodes_s_eq:
  "represents h a p \<Longrightarrow> represents h b q \<Longrightarrow>
   fst (validateCountryCodes_s [a, b] h) = validateCountryCodes [p, q]"
  unfolding validateCountryCodes_s_def validateCountryCodes_def
  by (rule validateCountryCodes_from_s_eq) simp

lemma check_required_s_eq:
  "list_all2 (\<lambda>x y. fst x = fst y \<and> represents h (snd x) (snd y)) xs ys \<Longrightarrow>
   fst (check_required_s xs h) = check_required ys"
proof (induction xs ys rule: list_all2_induct)
  case Nil
  show ?case by (simp add: finish_def)
next
  case (Cons x xs y ys)
  obtain n v where x: "x = (n, v)" by (cases x)
  obtain n' p where y: "y = (n', p)" by (cases y)
  from Cons(1) x y have r: "n' = n" "represents h v p" by simp_all
  from represents_null [OF r(2)] Cons.IH show ?case
    by (simp add: x y r(1) throw_def)
qed

lemma read_prop_present:
  "v \<noteq> VUndefined \<Longrightarrow> v \<noteq> VNull \<Longrightarrow> read_prop v k h = (Inr (own_prop h v k), h)"
  by (cases v) (simp_all add: read_prop_def)

lemma data_opt_present:
  "v \<noteq> VUndefined \<Longrightarrow> v \<noteq> VNull \<Longrightarrow>
   data_opt v k h = (Inr (own_prop h (own_prop h v ''data'') k), h)"
  by (simp add: data_opt_def then_do_def read_prop_present read_opt_def)

lemma data_opt2_present:
  "v \<noteq> VUndefined \<Longrightarrow> v \<noteq> VNull \<Longrightarrow>
   data_opt2 v a b h = (Inr (own_prop h (own_prop h (own_prop h v ''data'') a) b), h)"
  by (simp add: data_opt2_def then_do_def data_opt_present read_opt_def)

lemma requiredFields_s_present:
  assumes "v \<noteq> VUndefined" "v \<noteq> VNull"
  shows "requiredFields_s v h =
     (Inr [(''event_id'', own_prop h v ''event_id''),
           (''event_type'', own_prop h v ''event_type''),
           (''data.transaction_id'', own_prop h (own_prop h v ''data'') ''transaction_id''),
           (''data.amount'', own_prop h (own_prop h v ''data'') ''amount''),
           (''data.currency'', own_prop h (own_prop h v ''data'') ''currency''),
           (''data.sender.id'', own_prop h (own_prop h (own_prop h v ''data'') ''sender'') ''id''),
           (''data.sender.name'', own_prop h (own_prop h (own_prop h v ''data'') ''sender'') ''name''),
           (''data.sender.email'', own_prop h (own_prop h (own_prop h v ''data'') ''sender'') ''email''),
           (''data.sender.country'', own_prop h (own_prop h (own_prop h v ''data'') ''sender'') ''country''),
           (''data.receiver.id'', own_prop h (own_prop h (own_prop h v ''data'') ''receiver'') ''id''),
           (''data.receiver.name'', own_prop h (own_prop h (own_prop h v ''data'') ''receiver'') ''name''),
           (''data.receiver.email'', own_prop h (own_prop h (own_prop h v ''data'') ''receiver'') ''email''),
           (''data.receiver.country'', own_prop h (own_prop h (own_prop h v ''data'') ''receiver'') ''country''),
           (''data.status'', own_prop h (own_prop h v ''data'') ''status''),
           (''data.payment_method'', own_prop h (own_prop h v ''data'') ''payment_method'')], h)"
  using assms
  by (simp add: requiredFields_s_def then_do_def read_prop_present data_opt_present
        data_opt2_present finish_def)

lemma validateRequired_s_eq:
  assumes "represents h v p"
  shows "fst (validateRequired_s v h) = and_then (requiredFields p) check_required"
proof (cases "p = Undefined \<or> p = Null")
  case True
  with assms show ?thesis
    by (auto simp: validateRequired_s_def requiredFields_s_def requiredFields_def
          then_do_def read_prop_def throw_def and_then_def)
next
  case False
  with represents_null(1,2) [OF assms] have v: "v \<noteq> VUndefined" "v \<noteq> VNull" by simp_all
  from False have p: "p \<noteq> Undefined" "p \<noteq> Null" by simp_all
  note o = own_prop_represents
  have "fst (check_required_s (fst (case requiredFields_s v h of (Inr xs, h') \<Rightarrow> (xs, h'))) h)
      = check_required (map (\<lambda>path. (join ''.'' path, field p path)) required_paths)"
    unfolding requiredFields_s_present [OF v]
    by (rule check_required_s_eq) (simp add: required_paths_def o assms)
  then show ?thesis
    by (simp add: validateRequired_s_def then_do_def requiredFields_s_present [OF v]
          requiredFields_eq [OF p] and_then_def)
qed

lemma validate_s_eq:
  assumes "represents h v p"
  shows "fst (validate_s v h) = fst (validate p)"
proof -
  have u: "rel_sum (=) (=) x y \<longleftrightarrow> x = y" for x y :: "js_error + unit"
    by (simp add: sum.rel_eq)
  have p: "fst (validate p)
      = and_then (and_then (requiredFields p) check_required) (\<lambda>_. validate_fields p)"
    by (simp add: validate_def validateRequired_def and_then_def split: sum.splits)
  have "rel_sum (=) (=) (fst (validate_s v h))
          (and_then (and_then (requiredFields p) check_required) (\<lambda>_. validate_fields p))"
    unfolding validate_s_def validate_fields_def
    by (intro then_do_rel [where R = "(=)" and S = "(=)"]
              then_do_rel [where R = "represents h" and S = "(=)"])
       (simp_all add: u frame_validateRequired_s frame_read_prop2 frame_read_prop3
          frame_validateAmount_s frame_validateCurrency_s frame_validateStatus_s
          frame_validateCountryCodes_s frame_validateEmail_s
          validateRequired_s_eq read_prop2_represents read_prop3_represents
          validateAmount_s_eq validateCurrency_s_eq validateStatus_s_eq validateEmail_s_eq
          validateCountryCodes_s_eq assms)
  then show ?thesis by (simp add: u p)
qed


lemma object_at_append: "object_at h a = Some ob \<Longrightarrow> object_at (h @ ext) a = Some ob"
  by (auto simp: object_at_def nth_append split: if_splits)

lemma represents_append:
  "represents h v p \<Longrightarrow> represents (h @ ext) v p"
  "represents_fields h fs kvs \<Longrightarrow> represents_fields (h @ ext) fs kvs"
  "represents_elems h vs ps \<Longrightarrow> represents_elems (h @ ext) vs ps"
proof (induction h v p and h fs kvs and h vs ps
       rule: represents_represents_fields_represents_elems.induct)
  case (6 h v ps)
  from 6(2) obtain a vs where v: "v = VRef a" and o: "object_at h a = Some (OArr vs)"
    and r: "represents_elems h vs ps"
    by (auto split: val.splits option.splits object.splits)
  from 6(1) [OF v o refl r] object_at_append [OF o, of ext] show ?case by (simp add: v)
next
  case (7 h v kvs)
  from 7(2) obtain a fs where v: "v = VRef a" and o: "object_at h a = Some (OObj fs)"
    and r: "represents_fields h fs kvs"
    by (auto split: val.splits option.splits object.splits)
  from 7(1) [OF v o refl r] object_at_append [OF o, of ext] show ?case by (simp add: v)
next
  case (8 h v t)
  then obtain a where v: "v = VRef a" and o: "object_at h a = Some (ODate t)"
    by (auto split: val.splits option.splits object.splits)
  from object_at_append [OF o, of ext] show ?case by (simp add: v)
next
  case (10 h fs kv kvs)
  then show ?case by (cases fs) auto
next
  case (12 h vs p ps)
  then show ?case by (cases vs) auto
qed simp_all

lemma alloc_extends:
  "\<exists>ext. snd (alloc p h) = h @ ext"
  "\<exists>ext. snd (alloc_fields kvs h) = h @ ext"
  "\<exists>ext. snd (alloc_elems ps h) = h @ ext"
proof (induction p h and kvs h and ps h rule: alloc_alloc_fields_alloc_elems.induct)
  case (6 xs h)
  then show ?case by (auto split: prod.splits)
next
  case (7 kvs h)
  then show ?case by (auto split: prod.splits)
next
  case (10 kv kvs h)
  obtain x h1 where a: "alloc (snd kv) h = (x, h1)" by (cases "alloc (snd kv) h")
  obtain fs h2 where b: "alloc_fields kvs h1 = (fs, h2)" by (cases "alloc_fields kvs h1")
  from 10(1) a obtain e1 where "h1 = h @ e1" by auto
  moreover from 10(2) [OF a [symmetric]] b obtain e2 where "h2 = h1 @ e2" by auto
  moreover have "snd (alloc_fields (kv # kvs) h) = h2" by (simp add: a b)
  ultimately show ?case by simp
next
  case (12 p ps h)
  obtain x h1 where a: "alloc p h = (x, h1)" by (cases "alloc p h")
  obtain vs h2 where b: "alloc_elems ps h1 = (vs, h2)" by (cases "alloc_elems ps h1")
  from 12(1) a obtain e1 where "h1 = h @ e1" by auto
  moreover from 12(2) [OF a [symmetric]] b obtain e2 where "h2 = h1 @ e2" by auto
  moreover have "snd (alloc_elems (p # ps) h) = h2" by (simp add: a b)
  ultimately show ?case by simp
qed simp_all

lemma alloc_represents:
  "represents (snd (alloc p h)) (fst (alloc p h)) p"
  "represents_fields (snd (alloc_fields kvs h)) (fst (alloc_fields kvs h)) kvs"
  "represents_elems (snd (alloc_elems ps h)) (fst (alloc_elems ps h)) ps"
proof (induction p h and kvs h and ps h rule: alloc_alloc_fields_alloc_elems.induct)
  case (6 xs h)
  obtain vs h1 where a: "alloc_elems xs h = (vs, h1)" by (cases "alloc_elems xs h")
  with 6 have "represents_elems h1 vs xs" by simp
  then have "represents_elems (h1 @ [OArr vs]) vs xs" by (rule represents_append)
  then show ?case by (simp add: a object_at_def)
next
  case (7 kvs h)
  obtain fs h1 where a: "alloc_fields kvs h = (fs, h1)" by (cases "alloc_fields kvs h")
  with 7 have "represents_fields h1 fs kvs" by simp
  then have "represents_fields (h1 @ [OObj fs]) fs kvs" by (rule represents_append)
  then show ?case by (simp add: a object_at_def)
next
  case (8 t h)
  show ?case by (simp add: object_at_def)
next
  case (10 kv kvs h)
  obtain x h1 where a: "alloc (snd kv) h = (x, h1)" by (cases "alloc (snd kv) h")
  obtain fs h2 where b: "alloc_fields kvs h1 = (fs, h2)" by (cases "alloc_fields kvs h1")
  from alloc_extends(2) [of kvs h1] b obtain ext where e: "h2 = h1 @ ext" by auto
  from 10(1) a have "represents h1 x (snd kv)" by simp
  then have "represents h2 x (snd kv)" unfolding e by (rule represents_append)
  moreover from 10(2) [OF a [symmetric]] b have "represents_fields h2 fs kvs" by simp
  ultimately show ?case by (simp add: a b)
next
  case (12 p ps h)
  obtain x h1 where a: "alloc p h = (x, h1)" by (cases "alloc p h")
  obtain vs h2 where b: "alloc_elems ps h1 = (vs, h2)" by (cases "alloc_elems ps h1")
  from alloc_extends(3) [of ps h1] b obtain ext where e: "h2 = h1 @ ext" by auto
  from 12(1) a have "represents h1 x p" by simp
  then have "represents h2 x p" unfolding e by (rule represents_append)
  moreover from 12(2) [OF a [symmetric]] b have "represents_elems h2 vs ps" by simp
  ultimately show ?case by (simp add: a b)
qed simp_all

lemma alloc_example: "alloc example_payload [] = (VRef 3, example_store)"
  by (simp add: example_store_def example_payload_def example_event_def example_party_def)

lemma example_store_currency:
  "own_prop example_store (own_prop example_store (VRef 3) ''data'') ''currency'' = VStr ''usd''"
  "own_prop example_store
     (own_prop example_store (own_prop example_store (VRef 3) ''data'') ''sender'') ''country''
     = VStr ''us''"
  by (simp_all add: example_store_def own_prop_def object_at_def)

text \<open>
  C10. \<open>validate\<close>, run on the payload as an object of the store, leaves every object of
  the store as it was, whether it returns or throws: it only reads. Its outcome is that
  of \<open>validate\<close> on the value the payload holds, and the payload holds the same value
  afterwards; this is the value \<open>JSON.parse\<close> has built. The upper-cased currency and
  country codes are new strings: they reach the store nowhere, and appear in the
  Transaction that \<open>processWebhook\<close> builds, next to the payload's own spelling.
\<close>

theorem validate_leaves_the_store_unchanged:
  "snd (validate_s payload h) = h
   \<and> (represents h payload p \<longrightarrow>
        fst (validate_s payload h) = fst (validate p)
        \<and> represents (snd (validate_s payload h)) payload p)
   \<and> (alloc p h0 = (payload, h) \<longrightarrow> represents h payload p)
   \<and> (fst (processWebhook e d p) = Inr t \<longrightarrow>
        (\<exists>c s r. field p [''data'', ''currency''] = Str c
            \<and> field p [''data'', ''sender'', ''country''] = Str s
            \<and> field p [''data'', ''receiver'', ''country''] = Str r
            \<and> currency t = Str (toUpperCase c)
            \<and> sender_country t = Str (toUpperCase s)
            \<and> receiver_country t = Str (toUpperCase r)))"
proof (intro conjI impI)
  show "snd (validate_s payload h) = h" by (rule frame_validate_s)
next
  assume "represents h payload p"
  then show "fst (validate_s payload h) = fst (validate p)" by (rule validate_s_eq)
next
  assume "represents h payload p"
  then show "represents (snd (validate_s payload h)) payload p"
    by (simp add: frame_validate_s)
next
  assume "alloc p h0 = (payload, h)"
  with alloc_represents(1) [of p h0] show "represents h payload p" by simp
next
  assume "fst (processWebhook e d p) = Inr t"
  from processWebhook_fields [OF this]
  show "\<exists>c s r. field p [''data'', ''currency''] = Str c
            \<and> field p [''data'', ''sender'', ''country''] = Str s
            \<and> field p [''data'', ''receiver'', ''country''] = Str r
            \<and> currency t = Str (toUpperCase c)
            \<and> sender_country t = Str (toUpperCase s)
            \<and> receiver_country t = Str (toUpperCase r)"
    by blast
qed

theorem validate_leaves_the_store_unchanged_witness:
  "alloc example_payload [] = (VRef 3, example_store)
   \<and> represents example_store (VRef 3) example_payload
   \<and> validate_s (VRef 3) example_store = (Inr (), example_store)
   \<and> own_prop example_store (own_prop example_store (VRef 3) ''data'') ''currency''
       = VStr ''usd''
   \<and> fst (processWebhook example_env empty_db example_payload) = Inr example_transaction
   \<and> field example_payload [''data'', ''currency''] = Str ''usd''
   \<and> currency example_transaction = Str ''USD''"
proof -
  have f: "field example_payload [''data'', ''currency''] = Str ''usd''"
    by (simp add: example_payload_def example_event_def example_party_def)
  have t: "currency example_transaction = Str ''USD''"
    by (simp add: example_transaction_def)
  from validate_leaves_the_store_unchanged
         [where payload = "VRef 3" and h = example_store and p = example_payload
            and ?h0.0 = "[]" and e = example_env and d = empty_db
            and t = example_transaction]
       alloc_example validate_example example_store_currency(1) f t
  show ?thesis
    unfolding processWebhook_example by (simp add: prod_eq_iff)
qed


end
